theory Spec2Isabelle
  imports Complex_Main "HOL-Library.AList"
begin

section \<open>Data model\<close>

text \<open>
  The rate-limit admission engine of the repository: the credential records
  (\<^verbatim>\<open>src/lib/db/api-keys.ts\<close>), the key-value layout of the volatile store
  (\<^verbatim>\<open>src/lib/redis/*.ts\<close>) and the per-request flow
  (\<^verbatim>\<open>src/lib/middleware/rate-limit.ts\<close>).

  Rates and limits are Number values of the language (\<open>number\<close> below).  Counts
  come from \<^verbatim>\<open>INCR\<close> and are \<open>int\<close>; instants are milliseconds since the epoch
  (\<open>nat\<close>), and a stored ISO string of an instant is modelled by the instant itself.
  Field names carry a prefix where two record types of the source share a field name.
\<close>

section \<open>Numbers of the language\<close>

text \<open>
  A Number value: a finite double, given by the rational it denotes, an infinity, or NaN.
  The two zeros are one value: the code neither divides by a rate or a limit nor asks for
  its sign, and both zeros print as \<^verbatim>\<open>0\<close>.
\<close>

datatype number = Finite rat | PosInfinity | NegInfinity | NaN

text \<open>The number of binary and of decimal digits of a natural number.\<close>

fun bitlength :: "nat \<Rightarrow> nat" where
  "bitlength n = (if n = 0 then 0 else Suc (bitlength (n div 2)))"

declare bitlength.simps [simp del]

fun declength :: "nat \<Rightarrow> nat" where
  "declength n = (if n = 0 then 0 else Suc (declength (n div 10)))"

declare declength.simps [simp del]

definition pow2 :: "int \<Rightarrow> rat" where
  "pow2 e = (if 0 \<le> e then 2 ^ nat e else 1 / 2 ^ nat (- e))"

definition pow10 :: "int \<Rightarrow> rat" where
  "pow10 e = (if 0 \<le> e then 10 ^ nat e else 1 / 10 ^ nat (- e))"

text \<open>For a positive \<open>a\<close>: the exponent \<open>e\<close> with \<open>2 ^ e \<le> a < 2 ^ (e + 1)\<close>, and the same
  to the base ten.\<close>

definition ilog2 :: "rat \<Rightarrow> int" where
  "ilog2 a = (if 1 \<le> a then int (bitlength (nat \<lfloor>a\<rfloor>)) - 1
              else - int (bitlength (nat (\<lceil>1 / a\<rceil> - 1))))"

definition ilog10 :: "rat \<Rightarrow> int" where
  "ilog10 a = (if 1 \<le> a then int (declength (nat \<lfloor>a\<rfloor>)) - 1
               else - int (declength (nat (\<lceil>1 / a\<rceil> - 1))))"

definition round_half_even :: "rat \<Rightarrow> int" where
  "round_half_even x =
     (let f = \<lfloor>x\<rfloor>; d = x - of_int f
      in if d < 1 / 2 then f else if 1 / 2 < d then f + 1 else if even f then f else f + 1)"

text \<open>The Number value for a rational: the nearest double, ties to the even significand
  (53 bits, exponents from \<open>-1022\<close>, subnormal below), an infinity from \<open>2 ^ 1024\<close> on.\<close>

definition round_double :: "rat \<Rightarrow> number" where
  "round_double q =
     (if q = 0 then Finite 0
      else let e = max (ilog2 \<bar>q\<bar>) (- 1022);
               u = pow2 (e - 52);
               r = of_int (round_half_even (\<bar>q\<bar> / u)) * u
           in if pow2 1024 \<le> r then (if 0 < q then PosInfinity else NegInfinity)
              else Finite (sgn q * r))"

definition number_negative :: "number \<Rightarrow> bool" where
  "number_negative x = (case x of Finite a \<Rightarrow> a < 0 | NegInfinity \<Rightarrow> True | _ \<Rightarrow> False)"

text \<open>\<^verbatim>\<open>x * y\<close>.\<close>

definition number_times :: "number \<Rightarrow> number \<Rightarrow> number" where
  "number_times x y =
     (case (x, y) of
        (Finite a, Finite b) \<Rightarrow> round_double (a * b)
      | _ \<Rightarrow>
          if x = NaN \<or> y = NaN \<or> x = Finite 0 \<or> y = Finite 0 then NaN
          else if number_negative x = number_negative y then PosInfinity
          else NegInfinity)"

text \<open>\<^verbatim>\<open>x < y\<close>: false when one of the two is NaN.\<close>

definition number_less :: "number \<Rightarrow> number \<Rightarrow> bool" where
  "number_less x y =
     (case (x, y) of
        (Finite a, Finite b) \<Rightarrow> a < b
      | (Finite a, PosInfinity) \<Rightarrow> True
      | (NegInfinity, Finite b) \<Rightarrow> True
      | (NegInfinity, PosInfinity) \<Rightarrow> True
      | _ \<Rightarrow> False)"

text \<open>
  \<^verbatim>\<open>parseInt(x.toString())\<close>, which is what a limit goes through on its way into the
  durable record and back.  \<^verbatim>\<open>toString\<close> prints the shortest decimal that reads back as
  \<open>x\<close>; \<^verbatim>\<open>parseInt\<close> reads the sign and the digits up to the first character that is
  not a digit.  From \<open>1 / 10 ^ 6\<close> up to \<open>10 ^ 21\<close> the print is positional and the digits read
  are the integer part.  Outside, the print has an exponent and one digit before the point
  or the \<^verbatim>\<open>e\<close>: the first digit \<open>d\<close> of the value, or the next one when the number with
  that single digit already reads back as \<open>x\<close> (as \<^verbatim>\<open>1e+23\<close> does).  \<^verbatim>\<open>NaN\<close> and
  \<^verbatim>\<open>Infinity\<close> have no digit to read.
\<close>

definition leading_digit :: "rat \<Rightarrow> int" where
  "leading_digit a =
     (let m = ilog10 a;
          d = \<lfloor>a / pow10 m\<rfloor>
      in if round_double (of_int (d + 1) * pow10 m) = Finite a then (if d = 9 then 1 else d + 1)
         else d)"

definition parseInt_toString :: "number \<Rightarrow> number" where
  "parseInt_toString x =
     (case x of
        Finite q \<Rightarrow>
          if q = 0 then Finite 0
          else if \<not> number_less (Finite \<bar>q\<bar>) (round_double (1 / 10 ^ 6)) \<and> \<bar>q\<bar> < 10 ^ 21
            then Finite (sgn q * of_int \<lfloor>\<bar>q\<bar>\<rfloor>)
          else Finite (sgn q * of_int (leading_digit \<bar>q\<bar>))
      | _ \<Rightarrow> NaN)"

text \<open>\<^verbatim>\<open>JSON.parse(JSON.stringify(x))\<close> for a Number: itself when it is finite, and
  \<^verbatim>\<open>null\<close> (\<open>None\<close>) otherwise.\<close>

definition JSON_number :: "number \<Rightarrow> number option" where
  "JSON_number x = (case x of Finite q \<Rightarrow> Some (Finite q) | _ \<Rightarrow> None)"

section \<open>Records of the code\<close>

record ApiKey =
  k_id :: string
  k_name :: string
  k_apiKey :: string
  k_apiKeyHash :: string
  k_ownerEmail :: string
  k_tier :: string
  k_perMinute :: number
  k_perDay :: number
  k_disabled :: bool
  k_createdAt :: nat

type_synonym StoredApiKey = ApiKey

record Tier =
  t_id :: string
  t_name :: string
  t_rateLimit :: number
  t_burstLimit :: number

text \<open>A metadata object, as the code builds it and as it comes back from the cache:
  \<open>perMinute\<close> and \<open>perDay\<close> are a Number, or \<^verbatim>\<open>null\<close> (\<open>None\<close>) after the
  way through JSON of a Number that is not finite.\<close>

record ApiKeyMetadata =
  m_id :: string
  m_name :: string
  m_tier :: string
  m_perMinute :: "number option"
  m_perDay :: "number option"
  m_disabled :: bool
  m_ownerEmail :: string

record RateLimitEvent =
  e_timestamp :: nat
  e_apiKey :: string
  e_endpoint :: string
  e_status :: int
  e_reason :: string
  e_latencyMs :: int

text \<open>The result of the counter store (\<^verbatim>\<open>RateLimitResult\<close> of rate-limiter.ts).\<close>

record RateLimitResult =
  minuteCount :: int
  dayCount :: int
  isOverLimit :: bool

text \<open>The verdict of the middleware (the union type \<^verbatim>\<open>RateLimitResult\<close> of
  rate-limit.ts): \<open>Allowed minuteCount dayCount minuteLimit dayLimit\<close> or
  \<open>Rejected reason retryAfter\<close>.\<close>

datatype Verdict =
  Allowed int int number number
| Rejected string int

text \<open>What a rejected promise carries: a failed store command, or a thrown
  \<^verbatim>\<open>Error(message)\<close>.\<close>

datatype exn = RedisError | Error string

type_synonym counter_map = "string \<rightharpoonup> int \<times> nat option"

text \<open>
  The state of the system.  The key-value store has one namespace of keys; the key
  patterns of the code have pairwise different prefixes per kind of value
  (\<^verbatim>\<open>rl:\<close>, \<^verbatim>\<open>meta:\<close>, \<^verbatim>\<open>lastseen:\<close>, \<^verbatim>\<open>api-key:\<close>,
  \<^verbatim>\<open>api-keys:all\<close>, \<^verbatim>\<open>tier:\<close>, \<^verbatim>\<open>tiers:all\<close>, \<^verbatim>\<open>events:\<close>), so it is kept as one
  map per kind, each from the full key string.  A string key carries its value and the
  instant at which it expires.

  \<open>apiKeysStore\<close> and \<open>tiersStore\<close> are the module-level \<^verbatim>\<open>Map\<close>s in insertion
  order.  \<open>apiKeysByHash\<close> holds the same objects as \<open>apiKeysStore\<close> and is never
  read by the code; it is kept as hash \<open>\<mapsto>\<close> id of the object (the id of an object never
  changes).

  The environment: \<open>clock\<close> gives the successive readings of the wall clock,
  \<open>fault\<close> says which store commands are rejected, \<open>trim\<close> how many of the entries
  in excess an approximate \<^verbatim>\<open>MAXLEN ~\<close> evicts, and \<open>localTZA\<close> is the time zone of
  the host: \<open>localTZA t True\<close> is the offset of local time from UTC, in milliseconds, at
  the instant \<open>t\<close>, and \<open>localTZA t False\<close> the offset that the host takes for the
  local time \<open>t\<close>.
\<close>

record world =
  counters :: counter_map
  metadata :: "string \<rightharpoonup> ApiKeyMetadata \<times> nat"
  lastseen :: "string \<rightharpoonup> nat \<times> nat"
  apikey_hashes :: "string \<rightharpoonup> ApiKey"
  apikeys_all :: "string list"
  tier_hashes :: "string \<rightharpoonup> Tier"
  tiers_all :: "string list"
  streams :: "string \<rightharpoonup> RateLimitEvent list"
  apiKeysStore :: "(string \<times> ApiKey) list"
  apiKeysByHash :: "(string \<times> string) list"
  tiersStore :: "(string \<times> Tier) list"
  clock :: "nat \<Rightarrow> nat"
  ticks :: nat
  fault :: "nat \<Rightarrow> bool"
  cmds :: nat
  trim :: "nat \<Rightarrow> nat"
  localTZA :: "int \<Rightarrow> bool \<Rightarrow> int"

section \<open>Asynchronous functions as state transformers with exceptions\<close>

type_synonym 'a io = "world \<Rightarrow> (exn + 'a) \<times> world"

definition io_return :: "'a \<Rightarrow> 'a io" where
  "io_return x s = (Inr x, s)"

definition io_throw :: "exn \<Rightarrow> 'a io" where
  "io_throw e s = (Inl e, s)"

definition io_bind :: "'a io \<Rightarrow> ('a \<Rightarrow> 'b io) \<Rightarrow> 'b io" where
  "io_bind m f s = (case m s of (Inl e, s') \<Rightarrow> (Inl e, s') | (Inr x, s') \<Rightarrow> f x s')"

text \<open>\<^verbatim>\<open>try { m } catch (err) { h err }\<close>\<close>

definition io_catch :: "'a io \<Rightarrow> (exn \<Rightarrow> 'a io) \<Rightarrow> 'a io" where
  "io_catch m h s = (case m s of (Inl e, s') \<Rightarrow> h e s' | (Inr x, s') \<Rightarrow> (Inr x, s'))"

definition io_get :: "(world \<Rightarrow> 'a) \<Rightarrow> 'a io" where
  "io_get f s = (Inr (f s), s)"

definition io_modify :: "(world \<Rightarrow> world) \<Rightarrow> unit io" where
  "io_modify f s = (Inr (), f s)"

text \<open>\<^verbatim>\<open>Date.now()\<close> and \<^verbatim>\<open>new Date()\<close>: the next reading of the clock.\<close>

definition Date_now :: "nat io" where
  "Date_now s = (Inr (clock s (ticks s)), s\<lparr>ticks := Suc (ticks s)\<rparr>)"

text \<open>One command sent to the store: rejected when the environment says so, otherwise
  executed at the server's reading of the clock.\<close>

definition redis_call :: "(nat \<Rightarrow> world \<Rightarrow> 'a \<times> world) \<Rightarrow> 'a io" where
  "redis_call f s =
     (if fault s (cmds s) then (Inl RedisError, s\<lparr>cmds := Suc (cmds s)\<rparr>)
      else (case f (clock s (ticks s)) (s\<lparr>cmds := Suc (cmds s), ticks := Suc (ticks s)\<rparr>) of
              (r, s') \<Rightarrow> (Inr r, s')))"

text \<open>A key with an expiry is there until the expiry instant.\<close>

definition live :: "nat \<Rightarrow> nat option \<Rightarrow> bool" where
  "live t e = (case e of None \<Rightarrow> True | Some x \<Rightarrow> t < x)"

section \<open>Built-ins of the language used by the key patterns\<close>

text \<open>\<^verbatim>\<open>String(n)\<close> for a natural number: its decimal digits.\<close>

definition digit :: "nat \<Rightarrow> char" where
  "digit n = ''0123456789'' ! n"

fun String :: "nat \<Rightarrow> string" where
  "String n = (if n < 10 then [digit n] else String (n div 10) @ [digit (n mod 10)])"

declare String.simps [simp del]

definition padStart :: "nat \<Rightarrow> char \<Rightarrow> string \<Rightarrow> string" where
  "padStart n c s = replicate (n - length s) c @ s"

text \<open>The UTC fields of an instant.  The civil date of a day number follows the
  proleptic Gregorian calendar (days counted from 1970-01-01).\<close>

definition civil_from_days :: "nat \<Rightarrow> nat \<times> nat \<times> nat" where
  "civil_from_days z0 =
     (let z = z0 + 719468;
          era = z div 146097;
          doe = z - era * 146097;
          yoe = (doe + doe div 36524 - doe div 1460 - doe div 146096) div 365;
          y = yoe + era * 400;
          doy = doe + yoe div 100 - (365 * yoe + yoe div 4);
          mp = (5 * doy + 2) div 153;
          d = doy + 1 - (153 * mp + 2) div 5;
          m = (if mp < 10 then mp + 3 else mp - 9)
      in (if m \<le> 2 then y + 1 else y, m, d))"

definition getUTCFullYear :: "nat \<Rightarrow> nat" where
  "getUTCFullYear t = fst (civil_from_days (t div 86400000))"

definition getUTCMonth :: "nat \<Rightarrow> nat" where
  "getUTCMonth t = fst (snd (civil_from_days (t div 86400000))) - 1"

definition getUTCDate :: "nat \<Rightarrow> nat" where
  "getUTCDate t = snd (snd (civil_from_days (t div 86400000)))"

definition getUTCHours :: "nat \<Rightarrow> nat" where
  "getUTCHours t = (t div 3600000) mod 24"

definition getUTCMinutes :: "nat \<Rightarrow> nat" where
  "getUTCMinutes t = (t div 60000) mod 60"

text \<open>
  The local-time methods of \<^verbatim>\<open>Date\<close>, as the language defines them.  A time value is
  a number of milliseconds since the epoch, \<open>tza\<close> the time zone of the host.  A setter
  takes the time value to local time, replaces one field, and takes the result back with
  the offset that the host gives for that local time.  (Time values stay far inside the
  range of \<^verbatim>\<open>TimeClip\<close>.)
\<close>

definition LocalTime :: "(int \<Rightarrow> bool \<Rightarrow> int) \<Rightarrow> int \<Rightarrow> int" where
  "LocalTime tza t = t + tza t True"

definition UTC :: "(int \<Rightarrow> bool \<Rightarrow> int) \<Rightarrow> int \<Rightarrow> int" where
  "UTC tza t = t - tza t False"

definition Day :: "int \<Rightarrow> int" where
  "Day t = t div 86400000"

definition HourFromTime :: "int \<Rightarrow> int" where
  "HourFromTime t = (t div 3600000) mod 24"

definition MinFromTime :: "int \<Rightarrow> int" where
  "MinFromTime t = (t div 60000) mod 60"

definition SecFromTime :: "int \<Rightarrow> int" where
  "SecFromTime t = (t div 1000) mod 60"

definition msFromTime :: "int \<Rightarrow> int" where
  "msFromTime t = t mod 1000"

definition MakeTime :: "int \<Rightarrow> int \<Rightarrow> int \<Rightarrow> int \<Rightarrow> int" where
  "MakeTime hour m sec ms = hour * 3600000 + m * 60000 + sec * 1000 + ms"

definition MakeDate :: "int \<Rightarrow> int \<Rightarrow> int" where
  "MakeDate day time = day * 86400000 + time"

definition getMinutes :: "(int \<Rightarrow> bool \<Rightarrow> int) \<Rightarrow> int \<Rightarrow> int" where
  "getMinutes tza tv = MinFromTime (LocalTime tza tv)"

definition setMinutes :: "(int \<Rightarrow> bool \<Rightarrow> int) \<Rightarrow> int \<Rightarrow> int \<Rightarrow> int" where
  "setMinutes tza tv m =
     (let t = LocalTime tza tv
      in UTC tza (MakeDate (Day t) (MakeTime (HourFromTime t) m (SecFromTime t) (msFromTime t))))"

definition setSeconds :: "(int \<Rightarrow> bool \<Rightarrow> int) \<Rightarrow> int \<Rightarrow> int \<Rightarrow> int" where
  "setSeconds tza tv sec =
     (let t = LocalTime tza tv
      in UTC tza (MakeDate (Day t) (MakeTime (HourFromTime t) (MinFromTime t) sec (msFromTime t))))"

definition setMilliseconds :: "(int \<Rightarrow> bool \<Rightarrow> int) \<Rightarrow> int \<Rightarrow> int \<Rightarrow> int" where
  "setMilliseconds tza tv ms =
     (let t = LocalTime tza tv
      in UTC tza (MakeDate (Day t) (MakeTime (HourFromTime t) (MinFromTime t) (SecFromTime t) ms)))"

section \<open>Key patterns (keys.ts)\<close>

text \<open>\<open>minuteKeyAt now\<close> and \<open>dayKeyAt now\<close> are the bodies of \<^verbatim>\<open>getMinuteKey\<close> and
  \<^verbatim>\<open>getDayKey\<close> after \<^verbatim>\<open>const now = new Date()\<close>.\<close>

definition minuteKeyAt :: "nat \<Rightarrow> string \<Rightarrow> string" where
  "minuteKeyAt now apiKey =
     (let year = getUTCFullYear now;
          month = padStart 2 CHR ''0'' (String (getUTCMonth now + 1));
          day = padStart 2 CHR ''0'' (String (getUTCDate now));
          hour = padStart 2 CHR ''0'' (String (getUTCHours now));
          minute = padStart 2 CHR ''0'' (String (getUTCMinutes now))
      in ''rl:'' @ apiKey @ '':min:'' @ String year @ month @ day @ hour @ minute)"

definition dayKeyAt :: "nat \<Rightarrow> string \<Rightarrow> string" where
  "dayKeyAt now apiKey =
     (let year = getUTCFullYear now;
          month = padStart 2 CHR ''0'' (String (getUTCMonth now + 1));
          day = padStart 2 CHR ''0'' (String (getUTCDate now))
      in ''rl:'' @ apiKey @ '':day:'' @ String year @ month @ day)"

definition getMinuteKey :: "string \<Rightarrow> string io" where
  "getMinuteKey apiKey = io_bind Date_now (\<lambda>now. io_return (minuteKeyAt now apiKey))"

definition getDayKey :: "string \<Rightarrow> string io" where
  "getDayKey apiKey = io_bind Date_now (\<lambda>now. io_return (dayKeyAt now apiKey))"

definition getMetadataKey :: "string \<Rightarrow> string" where
  "getMetadataKey apiKey = ''meta:'' @ apiKey"

definition getEventsStreamKey :: "string \<Rightarrow> string" where
  "getEventsStreamKey apiKey = ''events:'' @ apiKey"

definition getGlobalEventsStreamKey :: string where
  "getGlobalEventsStreamKey = ''events:global''"

section \<open>Metadata cache (metadata.ts)\<close>

text \<open>What \<^verbatim>\<open>JSON.parse\<close> gives for the \<^verbatim>\<open>JSON.stringify\<close> of a metadata object.\<close>

definition JSON_metadata :: "ApiKeyMetadata \<Rightarrow> ApiKeyMetadata" where
  "JSON_metadata md =
     md\<lparr>m_perMinute := (case m_perMinute md of Some x \<Rightarrow> JSON_number x | None \<Rightarrow> None),
        m_perDay := (case m_perDay md of Some x \<Rightarrow> JSON_number x | None \<Rightarrow> None)\<rparr>"

text \<open>The cache holds the JSON text of the object; it is kept here as the object that
  \<^verbatim>\<open>JSON.parse\<close> makes of it.\<close>

definition cacheMetadata :: "string \<Rightarrow> ApiKeyMetadata \<Rightarrow> unit io" where
  "cacheMetadata apiKey md =
     (let key = getMetadataKey apiKey
      in redis_call (\<lambda>t s.
           ((), s\<lparr>metadata := (metadata s)(key \<mapsto> (JSON_metadata md, t + 24 * 60 * 60 * 1000))\<rparr>)))"

definition getCachedMetadata :: "string \<Rightarrow> ApiKeyMetadata option io" where
  "getCachedMetadata apiKey =
     (let key = getMetadataKey apiKey
      in redis_call (\<lambda>t s.
           (case metadata s key of
              None \<Rightarrow> None
            | Some (md, e) \<Rightarrow> if t < e then Some md else None, s)))"

definition invalidateMetadata :: "string \<Rightarrow> unit io" where
  "invalidateMetadata apiKey =
     (let key = getMetadataKey apiKey
      in redis_call (\<lambda>t s. ((), s\<lparr>metadata := (metadata s)(key := None)\<rparr>)))"

definition updateLastSeen :: "string \<Rightarrow> unit io" where
  "updateLastSeen apiKey =
     (let key = ''lastseen:'' @ apiKey
      in io_bind Date_now (\<lambda>now.
           redis_call (\<lambda>t s. ((), s\<lparr>lastseen := (lastseen s)(key \<mapsto> (now, t + 7 * 24 * 60 * 60 * 1000))\<rparr>))))"

section \<open>Durable credential records (api-key-storage.ts)\<close>

definition API_KEY_PREFIX :: string where
  "API_KEY_PREFIX = ''api-key:''"

text \<open>\<^verbatim>\<open>hset\<close> of all ten fields, then \<^verbatim>\<open>sadd\<close> of the id to \<^verbatim>\<open>api-keys:all\<close>.
  The hash holds strings; it is kept here as the record whose fields print as these
  strings, and \<^verbatim>\<open>getStoredApiKey\<close> reads the two limits back with \<^verbatim>\<open>parseInt\<close>.\<close>

definition storeApiKey :: "StoredApiKey \<Rightarrow> unit io" where
  "storeApiKey key =
     io_bind (redis_call (\<lambda>t s. ((), s\<lparr>apikey_hashes := (apikey_hashes s)(API_KEY_PREFIX @ k_id key \<mapsto> key)\<rparr>)))
       (\<lambda>_. redis_call (\<lambda>t s.
          ((), s\<lparr>apikeys_all := (if k_id key \<in> set (apikeys_all s) then apikeys_all s
                                   else apikeys_all s @ [k_id key])\<rparr>)))"

text \<open>The object that \<^verbatim>\<open>getStoredApiKey\<close> builds from the fields of a hash.\<close>

definition fromHash :: "ApiKey \<Rightarrow> StoredApiKey" where
  "fromHash data =
     data\<lparr>k_perMinute := parseInt_toString (k_perMinute data),
          k_perDay := parseInt_toString (k_perDay data)\<rparr>"

definition getStoredApiKey :: "string \<Rightarrow> StoredApiKey option io" where
  "getStoredApiKey ident =
     redis_call (\<lambda>t s.
       (case apikey_hashes s (API_KEY_PREFIX @ ident) of
          None \<Rightarrow> None
        | Some data \<Rightarrow> Some (fromHash data), s))"

text \<open>The loop of \<^verbatim>\<open>getAllStoredApiKeys\<close> over the ids.\<close>

fun getStoredApiKeys :: "string list \<Rightarrow> StoredApiKey list \<Rightarrow> StoredApiKey list io" where
  "getStoredApiKeys [] keys = io_return keys"
| "getStoredApiKeys (ident # ids) keys =
     io_bind (getStoredApiKey ident) (\<lambda>key.
       case key of
         Some k \<Rightarrow> getStoredApiKeys ids (keys @ [k])
       | None \<Rightarrow> getStoredApiKeys ids keys)"

definition getAllStoredApiKeys :: "StoredApiKey list io" where
  "getAllStoredApiKeys =
     io_bind (redis_call (\<lambda>t s. (apikeys_all s, s))) (\<lambda>keyIds.
       if length keyIds = 0 then io_return [] else getStoredApiKeys keyIds [])"

text \<open>\<open>updates\<close> is the \<^verbatim>\<open>Partial<StoredApiKey>\<close>, applied as the spread
  \<^verbatim>\<open>{ ...key, ...updates }\<close> does.\<close>

definition updateStoredApiKey :: "string \<Rightarrow> (StoredApiKey \<Rightarrow> StoredApiKey) \<Rightarrow> unit io" where
  "updateStoredApiKey ident updates =
     io_bind (getStoredApiKey ident) (\<lambda>key.
       case key of
         None \<Rightarrow> io_throw (Error (''API key '' @ ident @ '' not found''))
       | Some k \<Rightarrow> storeApiKey (updates k))"

definition deleteStoredApiKey :: "string \<Rightarrow> unit io" where
  "deleteStoredApiKey ident =
     io_bind (redis_call (\<lambda>t s. ((), s\<lparr>apikey_hashes := (apikey_hashes s)(API_KEY_PREFIX @ ident := None)\<rparr>)))
       (\<lambda>_. redis_call (\<lambda>t s. ((), s\<lparr>apikeys_all := removeAll ident (apikeys_all s)\<rparr>)))"

definition findStoredApiKeyByValue :: "string \<Rightarrow> StoredApiKey option io" where
  "findStoredApiKeyByValue apiKeyValue =
     io_bind getAllStoredApiKeys (\<lambda>allKeys.
       io_return (find (\<lambda>k. k_apiKey k = apiKeyValue) allKeys))"

section \<open>Tier records (tier-storage.ts)\<close>

definition storeTier :: "Tier \<Rightarrow> unit io" where
  "storeTier tier =
     io_bind (redis_call (\<lambda>t s. ((), s\<lparr>tier_hashes := (tier_hashes s)(''tier:'' @ t_id tier \<mapsto> tier)\<rparr>)))
       (\<lambda>_. redis_call (\<lambda>t s.
          ((), s\<lparr>tiers_all := (if t_id tier \<in> set (tiers_all s) then tiers_all s
                                 else tiers_all s @ [t_id tier])\<rparr>)))"

section \<open>Counter store (rate-limiter.ts)\<close>

text \<open>\<^verbatim>\<open>INCR\<close>: a key that is absent or has expired counts from zero and has no expiry;
  a key that is there keeps its expiry.  \<^verbatim>\<open>PEXPIRE\<close> sets the expiry of a key that is
  there.\<close>

definition INCR :: "string \<Rightarrow> nat \<Rightarrow> counter_map \<Rightarrow> int \<times> counter_map" where
  "INCR key t cs =
     (case cs key of
        Some (v, e) \<Rightarrow>
          if live t e then (v + 1, cs(key \<mapsto> (v + 1, e))) else (1, cs(key \<mapsto> (1, None)))
      | None \<Rightarrow> (1, cs(key \<mapsto> (1, None))))"

definition PEXPIRE :: "string \<Rightarrow> nat \<Rightarrow> nat \<Rightarrow> counter_map \<Rightarrow> counter_map" where
  "PEXPIRE key ttl t cs =
     (case cs key of
        Some (v, e) \<Rightarrow> if live t e then cs(key \<mapsto> (v, Some (t + ttl))) else cs
      | None \<Rightarrow> cs)"

text \<open>The script, run by the store as one command at the instant \<open>t\<close>:
  \<open>KEYS[1]\<close>, \<open>KEYS[2]\<close>, then \<open>ARGV[1..4]\<close>.  The two limits arrive as the strings
  that \<^verbatim>\<open>toString\<close> printed and \<^verbatim>\<open>tonumber\<close> reads them back as the same Number
  (\<^verbatim>\<open>Infinity\<close> and \<^verbatim>\<open>NaN\<close> included, by the \<^verbatim>\<open>strtod\<close> of C99), so they are given
  here as Numbers.\<close>

definition rateLimitLuaScript ::
    "string \<Rightarrow> string \<Rightarrow> nat \<Rightarrow> nat \<Rightarrow> number \<Rightarrow> number \<Rightarrow> nat \<Rightarrow> counter_map \<Rightarrow> (int \<times> int \<times> int) \<times> counter_map" where
  "rateLimitLuaScript key1 key2 argv1 argv2 argv3 argv4 t cs =
     (case INCR key1 t cs of (m, cs1) \<Rightarrow>
        let cs2 = (if m = 1 then PEXPIRE key1 argv1 t cs1 else cs1) in
        (case INCR key2 t cs2 of (d, cs3) \<Rightarrow>
           let cs4 = (if d = 1 then PEXPIRE key2 argv2 t cs3 else cs3);
               over = (number_less argv3 (Finite (of_int m)) \<or> number_less argv4 (Finite (of_int d)))
           in ((m, d, if over then 1 else 0), cs4)))"

definition checkRateLimit :: "string \<Rightarrow> number \<Rightarrow> number \<Rightarrow> RateLimitResult io" where
  "checkRateLimit apiKey minuteLimit dayLimit =
     io_bind (getMinuteKey apiKey) (\<lambda>minuteKey.
     io_bind (getDayKey apiKey) (\<lambda>dayKey.
       let minuteTTL = 90 * 1000;
           dayTTL = 25 * 60 * 60 * 1000
       in io_bind
            (redis_call (\<lambda>t s.
               case rateLimitLuaScript minuteKey dayKey minuteTTL dayTTL minuteLimit dayLimit t (counters s) of
                 (r, cs) \<Rightarrow> (r, s\<lparr>counters := cs\<rparr>)))
            (\<lambda>result. io_return
               \<lparr>minuteCount = fst result,
                dayCount = fst (snd result),
                isOverLimit = (snd (snd result) = 1)\<rparr>)))"

text \<open>\<^verbatim>\<open>GET\<close> of a counter: its value when the key is there.\<close>

definition redis_get_counter :: "string \<Rightarrow> int option io" where
  "redis_get_counter key =
     redis_call (\<lambda>t s.
       (case counters s key of
          None \<Rightarrow> None
        | Some (v, e) \<Rightarrow> if live t e then Some v else None, s))"

text \<open>\<^verbatim>\<open>Promise.all\<close> of two calls: both are made, and the result is rejected when one
  of them is.\<close>

definition Promise_all2 :: "'a io \<Rightarrow> 'b io \<Rightarrow> ('a \<times> 'b) io" where
  "Promise_all2 m1 m2 s =
     (case m1 s of (r1, s1) \<Rightarrow>
        (case m2 s1 of (r2, s2) \<Rightarrow>
           (case r1 of
              Inl e \<Rightarrow> Inl e
            | Inr a \<Rightarrow> (case r2 of Inl e \<Rightarrow> Inl e | Inr b \<Rightarrow> Inr (a, b)), s2)))"

definition getCurrentUsage :: "string \<Rightarrow> (int \<times> int) io" where
  "getCurrentUsage apiKey =
     io_bind (getMinuteKey apiKey) (\<lambda>minuteKey.
     io_bind (getDayKey apiKey) (\<lambda>dayKey.
     io_bind (Promise_all2 (redis_get_counter minuteKey) (redis_get_counter dayKey)) (\<lambda>(minuteCount, dayCount).
       io_return
         (case minuteCount of Some v \<Rightarrow> v | None \<Rightarrow> 0,
          case dayCount of Some v \<Rightarrow> v | None \<Rightarrow> 0))))"

section \<open>Event log (events.ts)\<close>

text \<open>\<^verbatim>\<open>XADD key MAXLEN ~ maxlen * ...\<close>: the entry is appended; of the entries in
  excess of \<open>maxlen\<close> the store evicts as many of the oldest as it finds convenient.\<close>

definition xadd :: "string \<Rightarrow> nat \<Rightarrow> RateLimitEvent \<Rightarrow> world \<Rightarrow> world" where
  "xadd key maxlen ev s =
     (let xs = (case streams s key of None \<Rightarrow> [] | Some es \<Rightarrow> es) @ [ev];
          excess = length xs - maxlen
      in s\<lparr>streams := (streams s)(key \<mapsto> drop (min (trim s excess) excess) xs)\<rparr>)"

definition addEvent :: "RateLimitEvent \<Rightarrow> unit io" where
  "addEvent event =
     (let keyStream = getEventsStreamKey (e_apiKey event)
      in io_bind (redis_call (\<lambda>t s. ((), xadd keyStream 1000 event s))) (\<lambda>_.
           let globalStream = getGlobalEventsStreamKey
           in redis_call (\<lambda>t s. ((), xadd globalStream 10000 event s))))"

text \<open>\<^verbatim>\<open>ensureRedisConnected\<close> (client.ts): the connection is there, or is made, or the
  attempt is rejected.\<close>

definition ensureRedisConnected :: "unit io" where
  "ensureRedisConnected = redis_call (\<lambda>t s. ((), s))"

section \<open>Credentials and tiers in memory (api-keys.ts)\<close>

text \<open>The module-level \<^verbatim>\<open>tiersStore\<close> at load time.\<close>

definition default_tiers :: "(string \<times> Tier) list" where
  "default_tiers =
     [(''basic'', \<lparr>t_id = ''basic'', t_name = ''Basic'', t_rateLimit = Finite 20, t_burstLimit = Finite 30\<rparr>),
      (''standard'', \<lparr>t_id = ''standard'', t_name = ''Standard'', t_rateLimit = Finite 30,
         t_burstLimit = Finite 50\<rparr>),
      (''premium'', \<lparr>t_id = ''premium'', t_name = ''Premium'', t_rateLimit = Finite 40,
         t_burstLimit = Finite 80\<rparr>)]"

text \<open>\<^verbatim>\<open>generateApiKey\<close>: \<open>nanoid32\<close> is what \<^verbatim>\<open>nanoid(32)\<close> returned.\<close>

definition generateApiKey :: "string \<Rightarrow> string" where
  "generateApiKey nanoid32 = ''sk_'' @ nanoid32"

text \<open>\<^verbatim>\<open>createApiKey\<close>: \<open>nanoid_id\<close>, \<open>nanoid32\<close> and \<open>bcrypt_hash\<close> are the values
  that \<^verbatim>\<open>nanoid()\<close>, \<^verbatim>\<open>nanoid(32)\<close> and \<^verbatim>\<open>bcrypt.hash(apiKey, 10)\<close> returned.\<close>

definition createApiKey ::
    "string \<Rightarrow> string \<Rightarrow> string \<Rightarrow> string \<Rightarrow> string \<Rightarrow> string \<Rightarrow> (string \<times> string) io" where
  "createApiKey nanoid_id nanoid32 bcrypt_hash name tier ownerEmail =
     io_bind (io_get (\<lambda>s. map_of (tiersStore s) tier)) (\<lambda>tierConfig.
       case tierConfig of
         None \<Rightarrow> io_throw (Error (''Tier '' @ tier @ '' not found''))
       | Some tc \<Rightarrow>
           let ident = nanoid_id;
               apiKey = generateApiKey nanoid32;
               apiKeyHash = bcrypt_hash;
               perMinute = number_times (t_rateLimit tc) (Finite 60);
               perDay = number_times (number_times (number_times (t_rateLimit tc) (Finite 60)) (Finite 60))
                          (Finite 24)
           in io_bind Date_now (\<lambda>created.
                let newKey =
                  \<lparr>k_id = ident, k_name = name, k_apiKey = apiKey, k_apiKeyHash = apiKeyHash,
                   k_ownerEmail = ownerEmail, k_tier = tier, k_perMinute = perMinute,
                   k_perDay = perDay, k_disabled = False, k_createdAt = created\<rparr>
                in io_bind (io_modify (\<lambda>s. s\<lparr>apiKeysStore := AList.update ident newKey (apiKeysStore s)\<rparr>)) (\<lambda>_.
                   io_bind (io_modify (\<lambda>s. s\<lparr>apiKeysByHash := AList.update apiKeyHash ident (apiKeysByHash s)\<rparr>)) (\<lambda>_.
                   io_bind (storeApiKey newKey) (\<lambda>_.
                   io_bind (cacheMetadata apiKey
                              \<lparr>m_id = ident, m_name = name, m_tier = tier, m_perMinute = Some perMinute,
                               m_perDay = Some perDay, m_disabled = False, m_ownerEmail = ownerEmail\<rparr>) (\<lambda>_.
                   io_return (ident, apiKey)))))))"

text \<open>\<^verbatim>\<open>updateApiKeyWithCurrentTierLimits\<close> reads \<^verbatim>\<open>tiersStore\<close> and assigns to the
  fields of the object it is given.  Here it returns the object as assigned to; a caller
  that passed an object of \<^verbatim>\<open>apiKeysStore\<close> puts it back under its key.\<close>

definition updateApiKeyWithCurrentTierLimits :: "(string \<times> Tier) list \<Rightarrow> ApiKey \<Rightarrow> ApiKey" where
  "updateApiKeyWithCurrentTierLimits tiers key =
     (case map_of tiers (k_tier key) of
        Some currentTier \<Rightarrow>
          key\<lparr>k_perMinute := number_times (t_rateLimit currentTier) (Finite 60),
              k_perDay := number_times (number_times (number_times (t_rateLimit currentTier) (Finite 60))
                            (Finite 60)) (Finite 24)\<rparr>
      | None \<Rightarrow> key)"

definition metadataOf :: "ApiKey \<Rightarrow> ApiKeyMetadata" where
  "metadataOf key =
     \<lparr>m_id = k_id key, m_name = k_name key, m_tier = k_tier key,
      m_perMinute = Some (k_perMinute key), m_perDay = Some (k_perDay key),
      m_disabled = k_disabled key, m_ownerEmail = k_ownerEmail key\<rparr>"

text \<open>\<^verbatim>\<open>findApiKeyByValue\<close>, first block (\<^verbatim>\<open>try { ... } catch\<close> around the cache
  lookup).  \<open>Some key\<close>: the function returns \<open>key\<close>; \<open>None\<close>: it goes on.\<close>

definition findInCache :: "string \<Rightarrow> ApiKey option io" where
  "findInCache apiKeyValue =
     io_catch
       (io_bind (getCachedMetadata apiKeyValue) (\<lambda>cached.
          case cached of
            None \<Rightarrow> io_return None
          | Some c \<Rightarrow>
              io_bind (io_get (\<lambda>s. map_of (apiKeysStore s) (m_id c))) (\<lambda>fullKey.
                case fullKey of
                  None \<Rightarrow>
                    io_bind (getStoredApiKey (m_id c)) (\<lambda>storedKey.
                      case storedKey of
                        None \<Rightarrow> io_return None
                      | Some sk \<Rightarrow>
                          if k_apiKey sk = apiKeyValue then
                            io_bind (io_get tiersStore) (\<lambda>tiers.
                              let updatedKey = updateApiKeyWithCurrentTierLimits tiers sk
                              in io_bind (io_modify (\<lambda>s. s\<lparr>apiKeysStore := AList.update (k_id updatedKey) updatedKey (apiKeysStore s)\<rparr>)) (\<lambda>_.
                                 io_bind (io_modify (\<lambda>s. s\<lparr>apiKeysByHash := AList.update (k_apiKeyHash updatedKey) (k_id updatedKey) (apiKeysByHash s)\<rparr>)) (\<lambda>_.
                                 io_return (Some updatedKey))))
                          else io_return None)
                | Some fk \<Rightarrow>
                    if k_apiKey fk = apiKeyValue then
                      io_bind (io_get tiersStore) (\<lambda>tiers.
                        let updatedKey = updateApiKeyWithCurrentTierLimits tiers fk
                        in io_bind (io_modify (\<lambda>s. s\<lparr>apiKeysStore := AList.update (m_id c) updatedKey (apiKeysStore s)\<rparr>)) (\<lambda>_.
                           io_return (Some updatedKey)))
                    else io_return None)))
       (\<lambda>err. io_return None)"

text \<open>Second block: the scan of \<^verbatim>\<open>apiKeysStore.values()\<close> in insertion order; the
  failure of the cache update is caught.\<close>

definition findInMemory :: "string \<Rightarrow> ApiKey option io" where
  "findInMemory apiKeyValue =
     io_bind (io_get apiKeysStore) (\<lambda>memoryKeys.
       case find (\<lambda>(i, key). k_apiKey key = apiKeyValue) memoryKeys of
         None \<Rightarrow> io_return None
       | Some (i, key) \<Rightarrow>
           io_bind (io_get tiersStore) (\<lambda>tiers.
             let updatedKey = updateApiKeyWithCurrentTierLimits tiers key
             in io_bind (io_modify (\<lambda>s. s\<lparr>apiKeysStore := AList.update i updatedKey (apiKeysStore s)\<rparr>)) (\<lambda>_.
                io_bind (io_catch (cacheMetadata apiKeyValue (metadataOf updatedKey)) (\<lambda>err. io_return ())) (\<lambda>_.
                io_return (Some updatedKey)))))"

text \<open>Third block: the scan of the durable records, inside \<^verbatim>\<open>try { ... } catch\<close>.\<close>

definition findInRedis :: "string \<Rightarrow> ApiKey option io" where
  "findInRedis apiKeyValue =
     io_catch
       (io_bind (findStoredApiKeyByValue apiKeyValue) (\<lambda>storedKey.
          case storedKey of
            None \<Rightarrow> io_return None
          | Some sk \<Rightarrow>
              io_bind (io_get tiersStore) (\<lambda>tiers.
                let updatedKey = updateApiKeyWithCurrentTierLimits tiers sk
                in io_bind (io_modify (\<lambda>s. s\<lparr>apiKeysStore := AList.update (k_id updatedKey) updatedKey (apiKeysStore s)\<rparr>)) (\<lambda>_.
                   io_bind (io_modify (\<lambda>s. s\<lparr>apiKeysByHash := AList.update (k_apiKeyHash updatedKey) (k_id updatedKey) (apiKeysByHash s)\<rparr>)) (\<lambda>_.
                   io_bind (cacheMetadata apiKeyValue (metadataOf updatedKey)) (\<lambda>_.
                   io_return (Some updatedKey)))))))
       (\<lambda>err. io_return None)"

definition findApiKeyByValue :: "string \<Rightarrow> ApiKey option io" where
  "findApiKeyByValue apiKeyValue =
     io_bind (findInCache apiKeyValue) (\<lambda>r1.
       case r1 of
         Some key \<Rightarrow> io_return (Some key)
       | None \<Rightarrow>
           io_bind (findInMemory apiKeyValue) (\<lambda>r2.
             case r2 of
               Some key \<Rightarrow> io_return (Some key)
             | None \<Rightarrow> findInRedis apiKeyValue))"

definition updateApiKeyLimits :: "string \<Rightarrow> number \<Rightarrow> number \<Rightarrow> unit io" where
  "updateApiKeyLimits ident perMinute perDay =
     io_bind (io_get (\<lambda>s. map_of (apiKeysStore s) ident)) (\<lambda>key0.
       case key0 of
         None \<Rightarrow> io_throw (Error (''API key '' @ ident @ '' not found''))
       | Some k \<Rightarrow>
           let key = k\<lparr>k_perMinute := perMinute, k_perDay := perDay\<rparr>
           in io_bind (io_modify (\<lambda>s. s\<lparr>apiKeysStore := AList.update ident key (apiKeysStore s)\<rparr>)) (\<lambda>_.
              io_bind (updateStoredApiKey ident (\<lambda>sk. sk\<lparr>k_perMinute := perMinute, k_perDay := perDay\<rparr>)) (\<lambda>_.
              io_bind (invalidateMetadata (k_apiKey key)) (\<lambda>_.
              cacheMetadata (k_apiKey key)
                \<lparr>m_id = k_id key, m_name = k_name key, m_tier = k_tier key,
                 m_perMinute = Some perMinute, m_perDay = Some perDay,
                 m_disabled = k_disabled key, m_ownerEmail = k_ownerEmail key\<rparr>))))"

definition disableApiKey :: "string \<Rightarrow> unit io" where
  "disableApiKey ident =
     io_bind (io_get (\<lambda>s. map_of (apiKeysStore s) ident)) (\<lambda>key0.
       case key0 of
         None \<Rightarrow> io_throw (Error (''API key '' @ ident @ '' not found''))
       | Some k \<Rightarrow>
           let key = k\<lparr>k_disabled := True\<rparr>
           in io_bind (io_modify (\<lambda>s. s\<lparr>apiKeysStore := AList.update ident key (apiKeysStore s)\<rparr>)) (\<lambda>_.
              io_bind (updateStoredApiKey ident (\<lambda>sk. sk\<lparr>k_disabled := True\<rparr>)) (\<lambda>_.
              invalidateMetadata (k_apiKey key))))"

definition deleteApiKey :: "string \<Rightarrow> unit io" where
  "deleteApiKey ident =
     io_bind (io_get (\<lambda>s. map_of (apiKeysStore s) ident)) (\<lambda>key0.
     io_bind (case key0 of
                Some k \<Rightarrow> io_return k
              | None \<Rightarrow>
                  io_bind (getStoredApiKey ident) (\<lambda>storedKey.
                    case storedKey of
                      None \<Rightarrow> io_throw (Error (''API key '' @ ident @ '' not found''))
                    | Some sk \<Rightarrow> io_return sk)) (\<lambda>key.
     io_bind (io_modify (\<lambda>s. s\<lparr>apiKeysStore := AList.delete ident (apiKeysStore s)\<rparr>)) (\<lambda>_.
     io_bind (io_modify (\<lambda>s. s\<lparr>apiKeysByHash := AList.delete (k_apiKeyHash key) (apiKeysByHash s)\<rparr>)) (\<lambda>_.
     io_bind (deleteStoredApiKey ident) (\<lambda>_.
     invalidateMetadata (k_apiKey key))))))"

text \<open>The \<^verbatim>\<open>Partial<Tier>\<close> of \<^verbatim>\<open>updateTier\<close>, and \<^verbatim>\<open>Object.assign(tier, updates)\<close>.\<close>

record TierUpdates =
  u_id :: "string option"
  u_name :: "string option"
  u_rateLimit :: "number option"
  u_burstLimit :: "number option"

definition Object_assign :: "Tier \<Rightarrow> TierUpdates \<Rightarrow> Tier" where
  "Object_assign tier updates =
     \<lparr>t_id = (case u_id updates of Some x \<Rightarrow> x | None \<Rightarrow> t_id tier),
      t_name = (case u_name updates of Some x \<Rightarrow> x | None \<Rightarrow> t_name tier),
      t_rateLimit = (case u_rateLimit updates of Some x \<Rightarrow> x | None \<Rightarrow> t_rateLimit tier),
      t_burstLimit = (case u_burstLimit updates of Some x \<Rightarrow> x | None \<Rightarrow> t_burstLimit tier)\<rparr>"

definition updateTier :: "string \<Rightarrow> TierUpdates \<Rightarrow> unit io" where
  "updateTier ident updates =
     io_bind (io_get (\<lambda>s. map_of (tiersStore s) ident)) (\<lambda>tier0.
       case tier0 of
         None \<Rightarrow> io_throw (Error (''Tier '' @ ident @ '' not found''))
       | Some t0 \<Rightarrow>
           let tier = Object_assign t0 updates
           in io_bind (io_modify (\<lambda>s. s\<lparr>tiersStore := AList.update ident tier (tiersStore s)\<rparr>)) (\<lambda>_.
              storeTier tier))"

section \<open>Admission decision flow (rate-limit.ts)\<close>

text \<open>The time value of \<^verbatim>\<open>nextMinute\<close>, a copy of \<^verbatim>\<open>now\<close>, after
  \<^verbatim>\<open>setMinutes(getMinutes() + 1)\<close>, \<^verbatim>\<open>setSeconds(0)\<close> and \<^verbatim>\<open>setMilliseconds(0)\<close>.\<close>

definition nextMinute :: "(int \<Rightarrow> bool \<Rightarrow> int) \<Rightarrow> int \<Rightarrow> int" where
  "nextMinute tza now =
     (let t1 = setMinutes tza now (getMinutes tza now + 1);
          t2 = setSeconds tza t1 0
      in setMilliseconds tza t2 0)"

text \<open>\<^verbatim>\<open>Math.ceil(x / 1000)\<close> for an integer \<open>x\<close> (a difference of time values: the
  quotient is computed exactly enough for its ceiling).\<close>

definition ceil_div_1000 :: "int \<Rightarrow> int" where
  "ceil_div_1000 x = - ((- x) div 1000)"

text \<open>\<open>header\<close> is \<^verbatim>\<open>request.headers.get("x-api-key")\<close>.\<close>

definition rateLimitMiddleware :: "string option \<Rightarrow> string \<Rightarrow> Verdict io" where
  "rateLimitMiddleware header endpoint =
     io_bind Date_now (\<lambda>startTime.
     io_bind ensureRedisConnected (\<lambda>_.
       let missing =
         io_bind Date_now (\<lambda>ts.
         io_bind Date_now (\<lambda>t1.
         io_bind (addEvent \<lparr>e_timestamp = ts, e_apiKey = ''anonymous'', e_endpoint = endpoint,
                            e_status = 401, e_reason = ''Missing API key'',
                            e_latencyMs = int t1 - int startTime\<rparr>) (\<lambda>_.
         io_return (Rejected ''Missing x-api-key header'' 60))))
       in case header of
            None \<Rightarrow> missing
          | Some apiKeyValue \<Rightarrow>
              if apiKeyValue = [] then missing
              else
                io_bind (findApiKeyByValue apiKeyValue) (\<lambda>found.
                  case found of
                    None \<Rightarrow>
                      io_bind Date_now (\<lambda>ts.
                      io_bind Date_now (\<lambda>t1.
                      io_bind (addEvent \<lparr>e_timestamp = ts, e_apiKey = apiKeyValue, e_endpoint = endpoint,
                                         e_status = 401, e_reason = ''Invalid API key'',
                                         e_latencyMs = int t1 - int startTime\<rparr>) (\<lambda>_.
                      io_return (Rejected ''Invalid API key'' 60))))
                  | Some apiKey \<Rightarrow>
                      if k_disabled apiKey then
                        io_bind Date_now (\<lambda>ts.
                        io_bind Date_now (\<lambda>t1.
                        io_bind (addEvent \<lparr>e_timestamp = ts, e_apiKey = apiKeyValue, e_endpoint = endpoint,
                                           e_status = 403, e_reason = ''API key disabled'',
                                           e_latencyMs = int t1 - int startTime\<rparr>) (\<lambda>_.
                        io_return (Rejected ''API key is disabled'' 3600))))
                      else
                        io_bind (checkRateLimit apiKeyValue (k_perMinute apiKey) (k_perDay apiKey)) (\<lambda>rateLimitResult.
                        io_bind Date_now (\<lambda>t1.
                          let latencyMs = int t1 - int startTime
                          in if isOverLimit rateLimitResult then
                               io_bind Date_now (\<lambda>ts.
                               io_bind (addEvent \<lparr>e_timestamp = ts, e_apiKey = apiKeyValue, e_endpoint = endpoint,
                                                  e_status = 429, e_reason = ''Rate limit exceeded'',
                                                  e_latencyMs = latencyMs\<rparr>) (\<lambda>_.
                               io_bind Date_now (\<lambda>now.
                               io_bind (io_get localTZA) (\<lambda>tza.
                                 let retryAfter = ceil_div_1000 (nextMinute tza (int now) - int now)
                                 in io_return (Rejected ''Rate limit exceeded'' retryAfter)))))
                             else
                               io_bind Date_now (\<lambda>ts.
                               io_bind (addEvent \<lparr>e_timestamp = ts, e_apiKey = apiKeyValue, e_endpoint = endpoint,
                                                  e_status = 200, e_reason = ''Allowed'',
                                                  e_latencyMs = latencyMs\<rparr>) (\<lambda>_.
                               io_bind (updateLastSeen apiKeyValue) (\<lambda>_.
                               io_return (Allowed (minuteCount rateLimitResult) (dayCount rateLimitResult)
                                            (k_perMinute apiKey) (k_perDay apiKey))))))))))"

section \<open>Notions used in the statements\<close>

text \<open>What a \<^verbatim>\<open>GET\<close> at the instant \<open>t\<close> would see of a counter key: its count
  (zero when the key is absent or has expired), whether it is there, and its expiry.\<close>

definition count_at :: "nat \<Rightarrow> counter_map \<Rightarrow> string \<Rightarrow> int" where
  "count_at t cs key = (case cs key of Some (v, e) \<Rightarrow> if live t e then v else 0 | None \<Rightarrow> 0)"

definition present_at :: "nat \<Rightarrow> counter_map \<Rightarrow> string \<Rightarrow> bool" where
  "present_at t cs key = (case cs key of Some (v, e) \<Rightarrow> live t e | None \<Rightarrow> False)"

definition expiry_of :: "counter_map \<Rightarrow> string \<Rightarrow> nat option" where
  "expiry_of cs key = (case cs key of Some (v, e) \<Rightarrow> e | None \<Rightarrow> None)"

text \<open>The two products that the code forms from the rate of a tier,
  \<^verbatim>\<open>rateLimit * 60\<close> and \<^verbatim>\<open>rateLimit * 60 * 60 * 24\<close>, each multiplication with its
  rounding.\<close>

definition tier_perMinute :: "number \<Rightarrow> number" where
  "tier_perMinute rate = number_times rate (Finite 60)"

definition tier_perDay :: "number \<Rightarrow> number" where
  "tier_perDay rate = number_times (number_times (number_times rate (Finite 60)) (Finite 60)) (Finite 24)"

text \<open>Counter keys are written by \<^verbatim>\<open>INCR\<close> only, so a stored count is at least one.\<close>

definition counters_positive :: "counter_map \<Rightarrow> bool" where
  "counters_positive cs = (\<forall>key v e. cs key = Some (v, e) \<longrightarrow> 1 \<le> v)"

text \<open>What \<^verbatim>\<open>getStoredApiKey\<close> reads under a key of the durable store.\<close>

definition stored_at :: "world \<Rightarrow> string \<Rightarrow> ApiKey option" where
  "stored_at s key = map_option fromHash (apikey_hashes s key)"

text \<open>No command to the store is rejected.\<close>

definition no_faults :: "world \<Rightarrow> bool" where
  "no_faults s = (\<forall>n. \<not> fault s n)"

section \<open>A concrete system\<close>

text \<open>The system at first boot on 2025-11-03T00:00:00Z: nothing in the store, the three
  default tiers in memory, every clock reading one millisecond after the previous one
  (within the first minute), no fault, no eviction, the host on UTC.\<close>

definition world0 :: world where
  "world0 =
     \<lparr>counters = Map.empty, metadata = Map.empty, lastseen = Map.empty,
      apikey_hashes = Map.empty, apikeys_all = [], tier_hashes = Map.empty, tiers_all = [],
      streams = Map.empty, apiKeysStore = [], apiKeysByHash = [], tiersStore = default_tiers,
      clock = (\<lambda>n. 1762128000000 + min n 59999), ticks = 0,
      fault = (\<lambda>n. False), cmds = 0, trim = (\<lambda>n. 0), localTZA = (\<lambda>t u. 0)\<rparr>"

text \<open>A state transformer leaves a part \<open>f\<close> of the state as it was, whatever it returns.\<close>

definition keeps :: "(world \<Rightarrow> 'b) \<Rightarrow> 'a io \<Rightarrow> bool" where
  "keeps f m = (\<forall>s. f (snd (m s)) = f s)"

text \<open>A part of the state that the bookkeeping of clock readings and commands does not
  touch.\<close>

definition plain :: "(world \<Rightarrow> 'b) \<Rightarrow> bool" where
  "plain f = (\<forall>s k c. f (s\<lparr>ticks := k\<rparr>) = f s \<and> f (s\<lparr>cmds := c\<rparr>) = f s)"

text \<open>\<open>world1\<close>: a credential of tier \<^verbatim>\<open>basic\<close> has been created.  \<open>world2\<close>: one
  request with its secret has been checked.\<close>

definition world1 :: world where
  "world1 = snd (createApiKey ''key_1'' ''demo'' ''hash_1'' ''Demo'' ''basic'' ''admin@example.com'' world0)"

definition world2 :: world where
  "world2 = snd (rateLimitMiddleware (Some ''sk_demo'') ''/api/data'' world1)"

text \<open>\<open>world1_cold\<close>: \<open>world1\<close> after a restart of the process, when the cache entry
  has gone: the credential is in the durable store only.\<close>

definition world1_cold :: world where
  "world1_cold = world1\<lparr>apiKeysStore := [], apiKeysByHash := [], metadata := Map.empty\<rparr>"

text \<open>What a call returned, when it returned.\<close>

definition returned :: "(exn + 'a) \<times> world \<Rightarrow> 'a option" where
  "returned r = (case fst r of Inr x \<Rightarrow> Some x | Inl e \<Rightarrow> None)"

text \<open>\<open>world3\<close>: the credential has then been disabled.\<close>

definition world3 :: world where
  "world3 = snd (disableApiKey ''key_1'' world2)"

text \<open>Within a window that ends at the instant \<open>horizon\<close>: the counter key holds the
  count \<open>c\<close> and does not expire before the window ends (\<open>c = 0\<close>: the key has never
  been written).\<close>

definition bucket_is :: "nat \<Rightarrow> counter_map \<Rightarrow> string \<Rightarrow> int \<Rightarrow> bool" where
  "bucket_is horizon cs key c =
     (if c = 0 then cs key = None
      else 0 < c \<and> (\<exists>e. cs key = Some (c, Some e) \<and> horizon \<le> e))"

text \<open>A sequence of calls of the counter store, for any credentials and limits.\<close>

fun checkRateLimit_calls :: "(string \<times> number \<times> number) list \<Rightarrow> unit io" where
  "checkRateLimit_calls [] = io_return ()"
| "checkRateLimit_calls ((apiKey, minuteLimit, dayLimit) # calls) =
     io_bind (checkRateLimit apiKey minuteLimit dayLimit) (\<lambda>_. checkRateLimit_calls calls)"

text \<open>The time stamps at the end of the counter keys.\<close>

definition minuteStamp :: "nat \<Rightarrow> string" where
  "minuteStamp now =
     String (getUTCFullYear now) @ padStart 2 CHR ''0'' (String (getUTCMonth now + 1))
     @ padStart 2 CHR ''0'' (String (getUTCDate now)) @ padStart 2 CHR ''0'' (String (getUTCHours now))
     @ padStart 2 CHR ''0'' (String (getUTCMinutes now))"

definition dayStamp :: "nat \<Rightarrow> string" where
  "dayStamp now =
     String (getUTCFullYear now) @ padStart 2 CHR ''0'' (String (getUTCMonth now + 1))
     @ padStart 2 CHR ''0'' (String (getUTCDate now))"


section \<open>Arithmetic of the Numbers\<close>

lemma bitlength_0: "bitlength 0 = 0"
  by (simp add: bitlength.simps)

lemma bitlength_pos: "0 < n \<Longrightarrow> bitlength n = Suc (bitlength (n div 2))"
  by (subst bitlength.simps) simp

lemma declength_0: "declength 0 = 0"
  by (simp add: declength.simps)

lemma declength_pos: "0 < n \<Longrightarrow> declength n = Suc (declength (n div 10))"
  by (subst declength.simps) simp

lemma floor_rat_numeral: "\<lfloor>(numeral a :: rat) / numeral b\<rfloor> = numeral a div numeral b"
  by (metis floor_divide_of_int_eq of_int_numeral)

lemma ceiling_rat_numeral: "\<lceil>(numeral a :: rat) / numeral b\<rceil> = - (- numeral a div numeral b)"
  unfolding ceiling_def by (metis floor_divide_of_int_eq of_int_numeral of_int_minus minus_divide_left)

lemma floor_rat_one: "\<lfloor>(1 :: rat) / numeral b\<rfloor> = 1 div numeral b"
  by (metis floor_divide_of_int_eq of_int_numeral of_int_1)

lemma ceiling_rat_one: "\<lceil>(1 :: rat) / numeral b\<rceil> = - (- 1 div numeral b)"
  unfolding ceiling_def
  by (metis floor_divide_of_int_eq of_int_numeral of_int_minus minus_divide_left of_int_1)

text \<open>The facts that evaluate the arithmetic on numerals.\<close>

lemmas number_eval = round_double_def ilog2_def ilog10_def pow2_def pow10_def round_half_even_def
  number_times_def number_less_def number_negative_def parseInt_toString_def leading_digit_def
  JSON_number_def tier_perMinute_def tier_perDay_def
  bitlength_0 bitlength_pos declength_0 declength_pos Let_def
  floor_rat_numeral ceiling_rat_numeral floor_rat_one ceiling_rat_one

text \<open>An integer of at most 53 bits is a Number, and a product of integers that has at
  most 53 bits is computed exactly.\<close>

lemma bitlength_bounds: "0 < n \<Longrightarrow> 2 ^ (bitlength n - 1) \<le> n \<and> n < 2 ^ bitlength n"
proof (induction n rule: bitlength.induct)
  case (1 n)
  show ?case
  proof (cases "n div 2 = 0")
    case True
    with 1 have "n = 1" by (auto simp: div_eq_0_iff)
    then show ?thesis by (simp add: bitlength_pos bitlength_0)
  next
    case False
    with 1 have ih: "2 ^ (bitlength (n div 2) - 1) \<le> n div 2" "n div 2 < 2 ^ bitlength (n div 2)"
      by simp_all
    from False have pos: "0 < bitlength (n div 2)" by (simp add: bitlength_pos)
    have b: "bitlength n = Suc (bitlength (n div 2))" using 1 by (simp add: bitlength_pos)
    from pos have "(2::nat) ^ bitlength (n div 2) = 2 * 2 ^ (bitlength (n div 2) - 1)"
      by (cases "bitlength (n div 2)") simp_all
    with ih(1) have "2 ^ bitlength (n div 2) \<le> 2 * (n div 2)" by simp
    also have "\<dots> \<le> n" by simp
    finally have lo: "2 ^ (bitlength n - 1) \<le> n" using b by simp
    from ih(2) have "n < 2 * 2 ^ bitlength (n div 2)" by linarith
    with lo b show ?thesis by simp
  qed
qed

lemma round_half_even_of_int: "round_half_even (of_int k) = k"
  by (simp add: round_half_even_def)

lemma round_double_of_nat_pos:
  assumes "0 < n" "n \<le> 2 ^ 53"
  shows "round_double (of_nat n) = Finite (of_nat n)"
proof -
  define e where "e = bitlength n - 1"
  from bitlength_bounds[OF assms(1)] have bl: "2 ^ e \<le> n" "n < 2 ^ bitlength n"
    by (simp_all add: e_def)
  from assms(1) have blpos: "0 < bitlength n" by (simp add: bitlength_pos)
  then have be: "bitlength n = Suc e" by (simp add: e_def)
  have e53: "e \<le> 53"
  proof (rule ccontr)
    assume "\<not> e \<le> 53"
    then have "54 \<le> e" by simp
    then have "(2::nat) ^ 54 \<le> 2 ^ e" by (rule power_increasing) simp
    with bl(1) assms(2) show False by simp
  qed
  have one: "(1::rat) \<le> of_nat n" using assms(1) by simp
  have fl: "nat \<lfloor>(of_nat n :: rat)\<rfloor> = n" by simp
  have il: "ilog2 \<bar>of_nat n\<bar> = int e"
    using one fl be by (simp add: ilog2_def)
  have mx: "max (int e) (- 1022) = int e" by simp
  have ex: "\<exists>k::int. (of_nat n :: rat) / pow2 (int e - 52) = of_int k"
  proof (cases "e \<le> 52")
    case True
    then have "pow2 (int e - 52) = 1 / 2 ^ (52 - e)"
      by (auto simp: pow2_def nat_diff_distrib' intro: arg_cong)
    then have "(of_nat n :: rat) / pow2 (int e - 52) = of_int (int n * 2 ^ (52 - e))" by simp
    then show ?thesis by blast
  next
    case False
    with e53 have e: "e = 53" by simp
    with bl(1) assms(2) have n: "n = 2 ^ 53" by simp
    have "pow2 (int e - 52) = 2" using e by (simp add: pow2_def)
    with n have "(of_nat n :: rat) / pow2 (int e - 52) = of_int (2 ^ 52)" by simp
    then show ?thesis by blast
  qed
  then obtain k :: int where k: "(of_nat n :: rat) / pow2 (int e - 52) = of_int k" by blast
  have pnz: "pow2 (int e - 52) \<noteq> 0" by (simp add: pow2_def)
  from k pnz have bk: "of_int k * pow2 (int e - 52) = (of_nat n :: rat)"
    by (simp add: field_simps)
  have small: "\<not> pow2 1024 \<le> (of_nat n :: rat)"
  proof -
    have "(of_nat n :: rat) \<le> of_nat (2 ^ 53)" using assms(2) by (simp only: of_nat_le_iff)
    also have "\<dots> < pow2 1024" by (simp add: pow2_def)
    finally show ?thesis by simp
  qed
  have nz: "(of_nat n :: rat) \<noteq> 0" using assms(1) by simp
  have ab: "\<bar>of_nat n :: rat\<bar> = of_nat n" by simp
  have sg: "sgn (of_nat n :: rat) = 1" using assms(1) by simp
  show ?thesis
    unfolding round_double_def Let_def il mx
    by (simp only: nz if_False ab k round_half_even_of_int bk small sg mult_1)
qed

lemma round_double_uminus: "round_double (- q) = (case round_double q of
    Finite r \<Rightarrow> Finite (- r) | PosInfinity \<Rightarrow> NegInfinity | NegInfinity \<Rightarrow> PosInfinity | NaN \<Rightarrow> NaN)"
  by (simp add: round_double_def Let_def sgn_if)

lemma round_double_of_int:
  assumes "\<bar>n\<bar> \<le> 2 ^ 53"
  shows "round_double (of_int n) = Finite (of_int n)"
proof (cases "n = 0")
  case True
  then show ?thesis by (simp add: round_double_def)
next
  case False
  define m where "m = nat \<bar>n\<bar>"
  from False assms have m: "0 < m" "m \<le> 2 ^ 53" by (simp_all add: m_def nat_le_iff)
  note r = round_double_of_nat_pos[OF m]
  show ?thesis
  proof (cases "0 < n")
    case True
    then have "(of_int n :: rat) = of_nat m" by (simp add: m_def)
    with r show ?thesis by simp
  next
    case neg: False
    with False have "(of_int n :: rat) = - of_nat m" by (simp add: m_def)
    with r show ?thesis by (simp add: round_double_uminus)
  qed
qed

lemma number_times_of_int:
  "\<bar>a * b\<bar> \<le> 2 ^ 53 \<Longrightarrow> number_times (Finite (of_int a)) (Finite (of_int b)) = Finite (of_int (a * b))"
  using round_double_of_int[of "a * b"] by (simp add: number_times_def)


lemma number_less_of_int [simp]:
  "number_less (Finite (of_int a)) (Finite (of_int b)) = (a < b)"
  by (simp add: number_less_def)

lemma tier_limits_of_int:
  assumes "\<bar>n\<bar> * 86400 \<le> 2 ^ 53"
  shows "tier_perMinute (Finite (of_int n)) = Finite (of_int (n * 60))"
    and "tier_perDay (Finite (of_int n)) = Finite (of_int (n * 86400))"
proof -
  have b: "\<bar>n * 60\<bar> \<le> 2 ^ 53" "\<bar>n * 60 * 60\<bar> \<le> 2 ^ 53" "\<bar>n * 60 * 60 * 24\<bar> \<le> 2 ^ 53"
    using assms by (simp_all add: abs_mult)
  have m: "number_times (Finite (of_int n)) (Finite 60) = Finite (of_int (n * 60))"
    using number_times_of_int[of n 60] b(1) by simp
  have h: "number_times (Finite (of_int (n * 60))) (Finite 60) = Finite (of_int (n * 60 * 60))"
    using number_times_of_int[of "n * 60" 60] b(2) by simp
  have d: "number_times (Finite (of_int (n * 60 * 60))) (Finite 24) = Finite (of_int (n * 60 * 60 * 24))"
    using number_times_of_int[of "n * 60 * 60" 24] b(3) by simp
  show "tier_perMinute (Finite (of_int n)) = Finite (of_int (n * 60))"
    by (simp only: tier_perMinute_def m)
  have "n * 60 * 60 * 24 = n * 86400" by simp
  with m h d show "tier_perDay (Finite (of_int n)) = Finite (of_int (n * 86400))"
    by (simp only: tier_perDay_def)
qed

lemma basic_limits:
  "tier_perMinute (Finite 20) = Finite 1200" "tier_perDay (Finite 20) = Finite 1728000"
  using tier_limits_of_int[of 20] by simp_all

lemma basic_products:
  "number_times (Finite 20) (Finite 60) = Finite 1200"
  "number_times (Finite 1200) (Finite 60) = Finite 72000"
  "number_times (Finite 72000) (Finite 24) = Finite 1728000"
  using number_times_of_int[of 20 60] number_times_of_int[of 1200 60] number_times_of_int[of 72000 24]
  by simp_all

text \<open>An integer below \<open>10 ^ 21\<close> comes back from the durable record as it went in.\<close>

lemma round_double_millionth:
  "round_double (1 / 10 ^ 6) = Finite (4722366482869645 / 4722366482869645213696)"
  by (simp add: number_eval)

lemma parseInt_toString_of_int:
  assumes "\<bar>n\<bar> < 10 ^ 21"
  shows "parseInt_toString (Finite (of_int n)) = Finite (of_int n)"
proof (cases "n = 0")
  case True
  then show ?thesis by (simp add: parseInt_toString_def)
next
  case False
  then have one: "(1::rat) \<le> \<bar>of_int n\<bar>"
    by (metis abs_ge_zero less_le of_int_1_le_iff of_int_abs zero_less_abs_iff int_one_le_iff_zero_less)
  have lo: "\<not> number_less (Finite \<bar>of_int n\<bar>) (round_double (1 / 10 ^ 6))"
    unfolding round_double_millionth number_less_def using one by simp
  have hi: "\<bar>of_int n :: rat\<bar> < 10 ^ 21"
    using assms by (metis of_int_abs of_int_less_iff of_int_numeral of_int_power)
  have fl: "\<lfloor>\<bar>of_int n :: rat\<bar>\<rfloor> = \<bar>n\<bar>"
    by (metis floor_of_int of_int_abs)
  have sg: "sgn (of_int n :: rat) * of_int \<bar>n\<bar> = of_int n"
    by (simp add: sgn_if)
  show ?thesis
    unfolding parseInt_toString_def number.case
    using False lo hi by (simp only: of_int_eq_0_iff if_False if_True fl sg simp_thms)
qed

lemma basic_stored:
  "parseInt_toString (Finite 1200) = Finite 1200"
  "parseInt_toString (Finite 1728000) = Finite 1728000"
  using parseInt_toString_of_int[of 1200] parseInt_toString_of_int[of 1728000] by simp_all

lemma JSON_number_Finite [simp]: "JSON_number (Finite q) = Some (Finite q)"
  by (simp add: JSON_number_def)


section \<open>The script of the counter store\<close>

lemma minute_day_key_distinct: "minuteKeyAt t1 a \<noteq> dayKeyAt t2 a"
  by (simp add: minuteKeyAt_def dayKeyAt_def Let_def)

lemma INCR_eq:
  "INCR key t cs =
     (count_at t cs key + 1,
      cs(key \<mapsto> (count_at t cs key + 1, if present_at t cs key then expiry_of cs key else None)))"
  by (simp add: INCR_def count_at_def present_at_def expiry_of_def split: option.splits prod.splits)

lemma PEXPIRE_eq:
  "PEXPIRE key ttl t (cs(key \<mapsto> (v, e))) =
     (if live t e then cs(key \<mapsto> (v, Some (t + ttl))) else cs(key \<mapsto> (v, e)))"
  by (simp add: PEXPIRE_def)

text \<open>\<^verbatim>\<open>INCR\<close> followed by \<^verbatim>\<open>PEXPIRE\<close> when the result is 1, on one key.\<close>

lemma bump_eq:
  assumes "present_at t cs key \<longrightarrow> count_at t cs key \<noteq> 0"
  shows "(case INCR key t cs of (m, cs1) \<Rightarrow> (m, if m = 1 then PEXPIRE key ttl t cs1 else cs1)) =
     (count_at t cs key + 1,
      cs(key \<mapsto> (count_at t cs key + 1, if present_at t cs key then expiry_of cs key else Some (t + ttl))))"
  using assms
  by (auto simp: INCR_eq PEXPIRE_eq live_def count_at_def present_at_def split: option.splits)

lemma pos_present: "counters_positive cs \<Longrightarrow> present_at t cs key \<longrightarrow> count_at t cs key \<noteq> 0"
  by (force simp: counters_positive_def present_at_def count_at_def split: option.splits)

lemma count_at_upd_other: "k \<noteq> key \<Longrightarrow> count_at t (cs(key \<mapsto> x)) k = count_at t cs k"
  by (simp add: count_at_def)
lemma present_at_upd_other: "k \<noteq> key \<Longrightarrow> present_at t (cs(key \<mapsto> x)) k = present_at t cs k"
  by (simp add: present_at_def)
lemma expiry_of_upd_other: "k \<noteq> key \<Longrightarrow> expiry_of (cs(key \<mapsto> x)) k = expiry_of cs k"
  by (simp add: expiry_of_def)

lemma script_eq:
  assumes pos: "counters_positive cs" and ne: "key1 \<noteq> key2"
  shows "rateLimitLuaScript key1 key2 ttl1 ttl2 lim1 lim2 t cs =
     ((count_at t cs key1 + 1, count_at t cs key2 + 1,
       if number_less lim1 (Finite (of_int (count_at t cs key1 + 1)))
          \<or> number_less lim2 (Finite (of_int (count_at t cs key2 + 1))) then 1 else 0),
      cs(key1 \<mapsto> (count_at t cs key1 + 1, if present_at t cs key1 then expiry_of cs key1 else Some (t + ttl1)),
         key2 \<mapsto> (count_at t cs key2 + 1, if present_at t cs key2 then expiry_of cs key2 else Some (t + ttl2))))"
proof -
  let ?cs1 = "cs(key1 \<mapsto> (count_at t cs key1 + 1, if present_at t cs key1 then expiry_of cs key1 else Some (t + ttl1)))"
  have b1: "(case INCR key1 t cs of (m, cs1) \<Rightarrow> (m, if m = 1 then PEXPIRE key1 ttl1 t cs1 else cs1)) =
     (count_at t cs key1 + 1, ?cs1)"
    by (rule bump_eq) (rule pos_present[OF pos])
  have p2: "present_at t ?cs1 key2 \<longrightarrow> count_at t ?cs1 key2 \<noteq> 0"
    using pos_present[OF pos, of t key2] ne by (simp add: count_at_upd_other present_at_upd_other)
  have b2: "(case INCR key2 t ?cs1 of (m, cs1) \<Rightarrow> (m, if m = 1 then PEXPIRE key2 ttl2 t cs1 else cs1)) =
     (count_at t cs key2 + 1,
      ?cs1(key2 \<mapsto> (count_at t cs key2 + 1, if present_at t cs key2 then expiry_of cs key2 else Some (t + ttl2))))"
    using bump_eq[OF p2, of ttl2] ne
    by (simp add: count_at_upd_other present_at_upd_other expiry_of_upd_other)
  have sb: "rateLimitLuaScript key1 key2 ttl1 ttl2 lim1 lim2 t cs =
     (case (case INCR key1 t cs of (m, cs1) \<Rightarrow> (m, if m = 1 then PEXPIRE key1 ttl1 t cs1 else cs1)) of
        (m, cs2) \<Rightarrow>
          (case (case INCR key2 t cs2 of (d, cs3) \<Rightarrow> (d, if d = 1 then PEXPIRE key2 ttl2 t cs3 else cs3)) of
             (d, cs4) \<Rightarrow>
               ((m, d, if number_less lim1 (Finite (of_int m)) \<or> number_less lim2 (Finite (of_int d))
                       then 1 else 0), cs4)))"
    by (simp add: rateLimitLuaScript_def Let_def split: prod.splits)
  show ?thesis
    by (simp only: sb b1 prod.case b2)
qed


section \<open>Running the state transformers\<close>

lemma io_bind_Inr: "m s = (Inr x, s') \<Longrightarrow> io_bind m f s = f x s'"
  by (simp add: io_bind_def)

lemma io_bind_Inl: "m s = (Inl e, s') \<Longrightarrow> io_bind m f s = (Inl e, s')"
  by (simp add: io_bind_def)

lemma io_bind_cases:
  assumes "io_bind m f s = (r, s'')"
  obtains (fail) e where "m s = (Inl e, s'')" "r = Inl e"
        | (ok) x s' where "m s = (Inr x, s')" "f x s' = (r, s'')"
  using assms by (auto simp: io_bind_def split: prod.splits sum.splits)

lemma getMinuteKey_eq:
  "getMinuteKey a s = (Inr (minuteKeyAt (clock s (ticks s)) a), s\<lparr>ticks := Suc (ticks s)\<rparr>)"
  by (simp add: getMinuteKey_def io_bind_def Date_now_def io_return_def)

lemma getDayKey_eq:
  "getDayKey a s = (Inr (dayKeyAt (clock s (ticks s)) a), s\<lparr>ticks := Suc (ticks s)\<rparr>)"
  by (simp add: getDayKey_def io_bind_def Date_now_def io_return_def)

lemma checkRateLimit_eq:
  "checkRateLimit a ml dl s =
     (if fault s (cmds s)
      then (Inl RedisError, s\<lparr>ticks := Suc (Suc (ticks s)), cmds := Suc (cmds s)\<rparr>)
      else (case rateLimitLuaScript (minuteKeyAt (clock s (ticks s)) a) (dayKeyAt (clock s (Suc (ticks s))) a)
                   (90 * 1000) (25 * 60 * 60 * 1000) ml dl (clock s (Suc (Suc (ticks s)))) (counters s) of
              (res, cs) \<Rightarrow>
                (Inr \<lparr>minuteCount = fst res, dayCount = fst (snd res), isOverLimit = (snd (snd res) = 1)\<rparr>,
                 s\<lparr>ticks := Suc (Suc (Suc (ticks s))), cmds := Suc (cmds s), counters := cs\<rparr>)))"
  by (simp add: checkRateLimit_def io_bind_def getMinuteKey_eq getDayKey_eq redis_call_def Let_def
      io_return_def split: prod.splits)

lemma checkRateLimit_run:
  assumes nf: "\<not> fault s (cmds s)" and pos: "counters_positive (counters s)"
  shows "checkRateLimit a ml dl s =
     (let mk = minuteKeyAt (clock s (ticks s)) a;
          dk = dayKeyAt (clock s (Suc (ticks s))) a;
          t = clock s (Suc (Suc (ticks s)));
          m = count_at t (counters s) mk + 1;
          d = count_at t (counters s) dk + 1
      in (Inr \<lparr>minuteCount = m, dayCount = d,
               isOverLimit = (number_less ml (Finite (of_int m)) \<or> number_less dl (Finite (of_int d)))\<rparr>,
          s\<lparr>ticks := Suc (Suc (Suc (ticks s))), cmds := Suc (cmds s),
            counters := (counters s)
              (mk \<mapsto> (m, if present_at t (counters s) mk then expiry_of (counters s) mk else Some (t + 90 * 1000)),
               dk \<mapsto> (d, if present_at t (counters s) dk then expiry_of (counters s) dk else Some (t + 25 * 60 * 60 * 1000)))\<rparr>))"
  using nf
  by (simp add: checkRateLimit_eq script_eq[OF pos minute_day_key_distinct] Let_def)

lemma checkRateLimit_Inr_no_fault:
  "checkRateLimit a ml dl s = (Inr r, s') \<Longrightarrow> \<not> fault s (cmds s)"
  by (auto simp: checkRateLimit_eq split: if_splits)

text \<open>
  Claim C1.  A call \<open>checkRateLimit apiKey minuteLimit dayLimit\<close> that returns has run the
  script once, as one command of the store: the minute key and the day key of the
  credential are two different keys, each count is one more than what was there (zero for a
  key that was absent or had expired), a key that was there keeps its expiry and a key that
  was not gets 90 seconds (minute) or 25 hours (day) from the instant of the command, no
  other counter key changes, and the result carries the two new counts and
  \<open>isOverLimit = (minuteCount > minuteLimit \<or> dayCount > dayLimit)\<close>, the comparison
  being the one of the Numbers of the language (\<open>number_less\<close>), for every limit that
  is a Number.
\<close>

theorem checkRateLimit_increments:
  assumes run: "checkRateLimit apiKey minuteLimit dayLimit s = (Inr r, s')"
    and pos: "counters_positive (counters s)"
  shows "let minuteKey = minuteKeyAt (clock s (ticks s)) apiKey;
             dayKey = dayKeyAt (clock s (ticks s + 1)) apiKey;
             t = clock s (ticks s + 2)
         in minuteKey \<noteq> dayKey
          \<and> minuteCount r = count_at t (counters s) minuteKey + 1
          \<and> dayCount r = count_at t (counters s) dayKey + 1
          \<and> counters s' minuteKey =
              Some (minuteCount r,
                    if present_at t (counters s) minuteKey then expiry_of (counters s) minuteKey
                    else Some (t + 90 * 1000))
          \<and> counters s' dayKey =
              Some (dayCount r,
                    if present_at t (counters s) dayKey then expiry_of (counters s) dayKey
                    else Some (t + 25 * 60 * 60 * 1000))
          \<and> (\<forall>key. key \<noteq> minuteKey \<and> key \<noteq> dayKey \<longrightarrow> counters s' key = counters s key)
          \<and> isOverLimit r =
              (number_less minuteLimit (Finite (of_int (minuteCount r)))
               \<or> number_less dayLimit (Finite (of_int (dayCount r))))"
proof -
  have ne: "minuteKeyAt (clock s (ticks s)) apiKey \<noteq> dayKeyAt (clock s (Suc (ticks s))) apiKey"
    by (rule minute_day_key_distinct)
  have nf: "\<not> fault s (cmds s)"
    using run by (rule checkRateLimit_Inr_no_fault)
  from run show ?thesis
    unfolding checkRateLimit_run[OF nf pos] Let_def
    using ne by auto
qed

lemma world0_fields:
  "counters world0 = Map.empty" "metadata world0 = Map.empty" "lastseen world0 = Map.empty"
  "apikey_hashes world0 = Map.empty" "apikeys_all world0 = []" "tier_hashes world0 = Map.empty"
  "tiers_all world0 = []" "streams world0 = Map.empty" "apiKeysStore world0 = []"
  "apiKeysByHash world0 = []" "tiersStore world0 = default_tiers"
  "clock world0 n = 1762128000000 + min n 59999" "ticks world0 = 0"
  "fault world0 n = False" "cmds world0 = 0" "trim world0 n = 0" "localTZA world0 t u = 0"
  by (simp_all add: world0_def)

lemma counters_positive_world0: "counters_positive (counters world0)"
  by (simp add: counters_positive_def world0_fields)

theorem checkRateLimit_increments_witness:
  "counters_positive (counters world0) \<and>
   (\<exists>r s'. checkRateLimit ''sk_demo'' (Finite 1200) (Finite 1728000) world0 = (Inr r, s')
      \<and> minuteCount r = 1 \<and> dayCount r = 1 \<and> \<not> isOverLimit r
      \<and> counters s' (minuteKeyAt 1762128000000 ''sk_demo'') = Some (1, Some (1762128000002 + 90 * 1000))
      \<and> counters s' (dayKeyAt 1762128000001 ''sk_demo'') = Some (1, Some (1762128000002 + 25 * 60 * 60 * 1000)))"
proof -
  have nf: "\<not> fault world0 (cmds world0)" by (simp add: world0_fields)
  obtain r s' where run: "checkRateLimit ''sk_demo'' (Finite 1200) (Finite 1728000) world0 = (Inr r, s')"
    unfolding checkRateLimit_run[OF nf counters_positive_world0] Let_def by blast
  have c0: "count_at t (counters world0) k = 0" "\<not> present_at t (counters world0) k" for t k
    by (simp_all add: count_at_def present_at_def world0_fields)
  show ?thesis
    using checkRateLimit_increments[OF run counters_positive_world0] run
    by (auto simp add: Let_def c0 world0_fields(12,13) counters_positive_world0 number_less_def)
qed


section \<open>Frame rules\<close>

lemma keepsD: "keeps f m \<Longrightarrow> m s = (r, s') \<Longrightarrow> f s' = f s"
  by (auto simp: keeps_def dest: spec[where x=s])

lemma keeps_return: "keeps f (io_return x)"
  by (simp add: keeps_def io_return_def)

lemma keeps_throw: "keeps f (io_throw e)"
  by (simp add: keeps_def io_throw_def)

lemma keeps_get: "keeps f (io_get g)"
  by (simp add: keeps_def io_get_def)

lemma keeps_modify: "(\<And>s. f (h s) = f s) \<Longrightarrow> keeps f (io_modify h)"
  by (simp add: keeps_def io_modify_def)

lemma keeps_bind: "keeps f m \<Longrightarrow> (\<And>x. keeps f (g x)) \<Longrightarrow> keeps f (io_bind m g)"
  unfolding keeps_def io_bind_def
  by (auto split: prod.splits sum.splits) (metis snd_conv)+

lemma keeps_catch: "keeps f m \<Longrightarrow> (\<And>e. keeps f (h e)) \<Longrightarrow> keeps f (io_catch m h)"
  unfolding keeps_def io_catch_def
  by (auto split: prod.splits sum.splits) (metis snd_conv)+

lemma keeps_Date_now: "plain f \<Longrightarrow> keeps f Date_now"
  by (simp add: keeps_def Date_now_def plain_def)

lemma keeps_redis_call:
  assumes "plain f" "\<And>t s. f (snd (g t s)) = f s"
  shows "keeps f (redis_call g)"
  unfolding keeps_def redis_call_def
proof (intro allI)
  fix s
  have a: "f (s\<lparr>cmds := c\<rparr>) = f s" for c s using assms(1) by (simp add: plain_def)
  have b: "f (s\<lparr>ticks := k\<rparr>) = f s" for k s using assms(1) by (simp add: plain_def)
  have c: "f (s\<lparr>cmds := c, ticks := k\<rparr>) = f s" for c k using a b by simp
  show "f (snd (if fault s (cmds s) then (Inl RedisError, s\<lparr>cmds := Suc (cmds s)\<rparr>)
          else case g (clock s (ticks s)) (s\<lparr>cmds := Suc (cmds s), ticks := Suc (ticks s)\<rparr>) of
               (r, s') \<Rightarrow> (Inr r, s'))) = f s"
    using assms(2)[of "clock s (ticks s)" "s\<lparr>cmds := Suc (cmds s), ticks := Suc (ticks s)\<rparr>"] a c
    by (auto split: prod.splits)
qed

lemma keeps_Promise_all2: "keeps f m1 \<Longrightarrow> keeps f m2 \<Longrightarrow> keeps f (Promise_all2 m1 m2)"
  unfolding keeps_def Promise_all2_def
  by (auto split: prod.splits sum.splits) (metis snd_conv)+

lemma keeps_case_option:
  "keeps f a \<Longrightarrow> (\<And>y. keeps f (b y)) \<Longrightarrow> keeps f (case x of None \<Rightarrow> a | Some y \<Rightarrow> b y)"
  by (cases x) simp_all

lemma keeps_case_prod: "(\<And>a b. keeps f (g a b)) \<Longrightarrow> keeps f (case p of (a, b) \<Rightarrow> g a b)"
  by (cases p) simp

lemma keeps_if: "(c \<Longrightarrow> keeps f a) \<Longrightarrow> (\<not> c \<Longrightarrow> keeps f b) \<Longrightarrow> keeps f (if c then a else b)"
  by simp

lemmas keeps_intros =
  keeps_return keeps_throw keeps_get keeps_bind keeps_catch keeps_Date_now keeps_Promise_all2
  keeps_case_option keeps_case_prod keeps_if

lemma plain_fields:
  "plain counters" "plain metadata" "plain lastseen" "plain apikey_hashes" "plain apikeys_all"
  "plain tier_hashes" "plain tiers_all" "plain streams" "plain apiKeysStore" "plain apiKeysByHash"
  "plain tiersStore" "plain clock" "plain fault" "plain trim"
  by (simp_all add: plain_def)

lemma keeps_getMinuteKey: "plain f \<Longrightarrow> keeps f (getMinuteKey a)"
  unfolding getMinuteKey_def by (intro keeps_intros)

lemma keeps_getDayKey: "plain f \<Longrightarrow> keeps f (getDayKey a)"
  unfolding getDayKey_def by (intro keeps_intros)

lemma keeps_redis_get_counter: "plain f \<Longrightarrow> keeps f (redis_get_counter k)"
  unfolding redis_get_counter_def by (rule keeps_redis_call) simp_all

lemma keeps_getCurrentUsage: "plain f \<Longrightarrow> keeps f (getCurrentUsage a)"
  unfolding getCurrentUsage_def
  by (intro keeps_intros keeps_getMinuteKey keeps_getDayKey keeps_redis_get_counter)

lemma keeps_getCachedMetadata: "plain f \<Longrightarrow> keeps f (getCachedMetadata a)"
  unfolding getCachedMetadata_def Let_def by (rule keeps_redis_call) simp_all

lemma keeps_getStoredApiKey: "plain f \<Longrightarrow> keeps f (getStoredApiKey a)"
  unfolding getStoredApiKey_def by (rule keeps_redis_call) simp_all

lemma keeps_getStoredApiKeys: "plain f \<Longrightarrow> keeps f (getStoredApiKeys ids acc)"
  by (induction ids arbitrary: acc) (auto intro!: keeps_intros keeps_getStoredApiKey)

lemma keeps_getAllStoredApiKeys: "plain f \<Longrightarrow> keeps f getAllStoredApiKeys"
  unfolding getAllStoredApiKeys_def
  by (intro keeps_intros keeps_getStoredApiKeys keeps_redis_call) simp_all

lemma keeps_findStoredApiKeyByValue: "plain f \<Longrightarrow> keeps f (findStoredApiKeyByValue v)"
  unfolding findStoredApiKeyByValue_def
  by (intro keeps_intros keeps_getAllStoredApiKeys)


lemma keeps_cacheMetadata:
  "plain f \<Longrightarrow> (\<And>s x. f (s\<lparr>metadata := x\<rparr>) = f s) \<Longrightarrow> keeps f (cacheMetadata a md)"
  unfolding cacheMetadata_def Let_def by (rule keeps_redis_call) simp_all

lemma keeps_invalidateMetadata:
  "plain f \<Longrightarrow> (\<And>s x. f (s\<lparr>metadata := x\<rparr>) = f s) \<Longrightarrow> keeps f (invalidateMetadata a)"
  unfolding invalidateMetadata_def Let_def by (rule keeps_redis_call) simp_all

lemma keeps_updateLastSeen:
  "plain f \<Longrightarrow> (\<And>s x. f (s\<lparr>lastseen := x\<rparr>) = f s) \<Longrightarrow> keeps f (updateLastSeen a)"
  unfolding updateLastSeen_def Let_def
  by (intro keeps_intros keeps_redis_call) simp_all

lemma keeps_storeApiKey:
  "plain f \<Longrightarrow> (\<And>s x. f (s\<lparr>apikey_hashes := x\<rparr>) = f s) \<Longrightarrow> (\<And>s x. f (s\<lparr>apikeys_all := x\<rparr>) = f s)
   \<Longrightarrow> keeps f (storeApiKey k)"
  unfolding storeApiKey_def
  by (intro keeps_intros keeps_redis_call) simp_all

lemma keeps_deleteStoredApiKey:
  "plain f \<Longrightarrow> (\<And>s x. f (s\<lparr>apikey_hashes := x\<rparr>) = f s) \<Longrightarrow> (\<And>s x. f (s\<lparr>apikeys_all := x\<rparr>) = f s)
   \<Longrightarrow> keeps f (deleteStoredApiKey i)"
  unfolding deleteStoredApiKey_def
  by (intro keeps_intros keeps_redis_call) simp_all

lemma keeps_updateStoredApiKey:
  "plain f \<Longrightarrow> (\<And>s x. f (s\<lparr>apikey_hashes := x\<rparr>) = f s) \<Longrightarrow> (\<And>s x. f (s\<lparr>apikeys_all := x\<rparr>) = f s)
   \<Longrightarrow> keeps f (updateStoredApiKey i u)"
  unfolding updateStoredApiKey_def
  by (intro keeps_intros keeps_getStoredApiKey keeps_storeApiKey) simp_all

lemma keeps_storeTier:
  "plain f \<Longrightarrow> (\<And>s x. f (s\<lparr>tier_hashes := x\<rparr>) = f s) \<Longrightarrow> (\<And>s x. f (s\<lparr>tiers_all := x\<rparr>) = f s)
   \<Longrightarrow> keeps f (storeTier k)"
  unfolding storeTier_def
  by (intro keeps_intros keeps_redis_call) simp_all

lemma keeps_addEvent:
  "plain f \<Longrightarrow> (\<And>s x. f (s\<lparr>streams := x\<rparr>) = f s) \<Longrightarrow> keeps f (addEvent ev)"
  unfolding addEvent_def Let_def
  by (intro keeps_intros keeps_redis_call) (simp_all add: xadd_def Let_def)

lemma keeps_ensureRedisConnected: "plain f \<Longrightarrow> keeps f ensureRedisConnected"
  unfolding ensureRedisConnected_def by (rule keeps_redis_call) simp_all

lemma keeps_checkRateLimit:
  "plain f \<Longrightarrow> (\<And>s x. f (s\<lparr>counters := x\<rparr>) = f s) \<Longrightarrow> keeps f (checkRateLimit a ml dl)"
  unfolding checkRateLimit_def Let_def
  by (intro keeps_intros keeps_redis_call keeps_getMinuteKey keeps_getDayKey)
     (simp_all split: prod.splits)

text \<open>The lookup writes the metadata cache and the two maps in memory, nothing else.\<close>

lemma keeps_findInCache:
  assumes "plain f" "\<And>s x. f (s\<lparr>apiKeysStore := x\<rparr>) = f s" "\<And>s x. f (s\<lparr>apiKeysByHash := x\<rparr>) = f s"
  shows "keeps f (findInCache v)"
  unfolding findInCache_def Let_def
  by (intro keeps_intros keeps_getCachedMetadata keeps_getStoredApiKey keeps_modify assms)

lemma keeps_findInMemory:
  assumes "plain f" "\<And>s x. f (s\<lparr>metadata := x\<rparr>) = f s" "\<And>s x. f (s\<lparr>apiKeysStore := x\<rparr>) = f s"
  shows "keeps f (findInMemory v)"
  unfolding findInMemory_def Let_def
  by (intro keeps_intros keeps_cacheMetadata keeps_modify assms)

lemma keeps_findInRedis:
  assumes "plain f" "\<And>s x. f (s\<lparr>metadata := x\<rparr>) = f s" "\<And>s x. f (s\<lparr>apiKeysStore := x\<rparr>) = f s"
    "\<And>s x. f (s\<lparr>apiKeysByHash := x\<rparr>) = f s"
  shows "keeps f (findInRedis v)"
  unfolding findInRedis_def Let_def
  by (intro keeps_intros keeps_cacheMetadata keeps_findStoredApiKeyByValue keeps_modify assms)

lemma keeps_findApiKeyByValue:
  assumes "plain f" "\<And>s x. f (s\<lparr>metadata := x\<rparr>) = f s" "\<And>s x. f (s\<lparr>apiKeysStore := x\<rparr>) = f s"
    "\<And>s x. f (s\<lparr>apiKeysByHash := x\<rparr>) = f s"
  shows "keeps f (findApiKeyByValue v)"
  unfolding findApiKeyByValue_def
  by (intro keeps_intros keeps_findInCache keeps_findInMemory keeps_findInRedis assms)

lemma keeps_deleteApiKey:
  assumes "plain f" "\<And>s x. f (s\<lparr>metadata := x\<rparr>) = f s" "\<And>s x. f (s\<lparr>apiKeysStore := x\<rparr>) = f s"
    "\<And>s x. f (s\<lparr>apiKeysByHash := x\<rparr>) = f s"
    "\<And>s x. f (s\<lparr>apikey_hashes := x\<rparr>) = f s" "\<And>s x. f (s\<lparr>apikeys_all := x\<rparr>) = f s"
  shows "keeps f (deleteApiKey i)"
  unfolding deleteApiKey_def
  by (intro keeps_intros keeps_getStoredApiKey keeps_deleteStoredApiKey keeps_invalidateMetadata
      keeps_modify assms)


section \<open>Creating a credential, and the derivation of its limits\<close>

lemmas io_defs = io_bind_def io_return_def io_throw_def io_catch_def io_get_def io_modify_def
  Date_now_def redis_call_def

lemma createApiKey_Inr:
  assumes "createApiKey nid n32 h name tier owner s = (Inr (i, secret), s')"
  shows "\<exists>tc. map_of (tiersStore s) tier = Some tc \<and> i = nid \<and> secret = generateApiKey n32
         \<and> apiKeysStore s' = AList.update nid
               \<lparr>k_id = nid, k_name = name, k_apiKey = generateApiKey n32, k_apiKeyHash = h,
                k_ownerEmail = owner, k_tier = tier, k_perMinute = tier_perMinute (t_rateLimit tc),
                k_perDay = tier_perDay (t_rateLimit tc), k_disabled = False,
                k_createdAt = clock s (ticks s)\<rparr>
               (apiKeysStore s)
         \<and> apiKeysByHash s' = AList.update h nid (apiKeysByHash s)
         \<and> apikey_hashes s' = (apikey_hashes s)(API_KEY_PREFIX @ nid \<mapsto>
               \<lparr>k_id = nid, k_name = name, k_apiKey = generateApiKey n32, k_apiKeyHash = h,
                k_ownerEmail = owner, k_tier = tier, k_perMinute = tier_perMinute (t_rateLimit tc),
                k_perDay = tier_perDay (t_rateLimit tc), k_disabled = False,
                k_createdAt = clock s (ticks s)\<rparr>)
         \<and> apikeys_all s' = (if nid \<in> set (apikeys_all s) then apikeys_all s else apikeys_all s @ [nid])
         \<and> metadata s' = (metadata s)(getMetadataKey (generateApiKey n32) \<mapsto>
               (JSON_metadata
                  \<lparr>m_id = nid, m_name = name, m_tier = tier,
                   m_perMinute = Some (tier_perMinute (t_rateLimit tc)),
                   m_perDay = Some (tier_perDay (t_rateLimit tc)), m_disabled = False,
                   m_ownerEmail = owner\<rparr>,
                clock s (Suc (Suc (Suc (ticks s)))) + 24 * 60 * 60 * 1000))
         \<and> tiersStore s' = tiersStore s \<and> counters s' = counters s \<and> streams s' = streams s
         \<and> fault s' = fault s \<and> clock s' = clock s"
  using assms
  by (auto simp: createApiKey_def io_defs storeApiKey_def cacheMetadata_def Let_def
      tier_perMinute_def tier_perDay_def split: option.splits if_splits)

lemma updateApiKeyWithCurrentTierLimits_Some:
  "map_of tiers (k_tier key) = Some tc \<Longrightarrow>
     updateApiKeyWithCurrentTierLimits tiers key =
       key\<lparr>k_perMinute := tier_perMinute (t_rateLimit tc), k_perDay := tier_perDay (t_rateLimit tc)\<rparr>"
  by (simp add: updateApiKeyWithCurrentTierLimits_def tier_perMinute_def tier_perDay_def)

lemma updateApiKeyWithCurrentTierLimits_fields:
  "k_id (updateApiKeyWithCurrentTierLimits tiers key) = k_id key"
  "k_apiKey (updateApiKeyWithCurrentTierLimits tiers key) = k_apiKey key"
  "k_apiKeyHash (updateApiKeyWithCurrentTierLimits tiers key) = k_apiKeyHash key"
  "k_tier (updateApiKeyWithCurrentTierLimits tiers key) = k_tier key"
  "k_disabled (updateApiKeyWithCurrentTierLimits tiers key) = k_disabled key"
  "k_name (updateApiKeyWithCurrentTierLimits tiers key) = k_name key"
  "k_ownerEmail (updateApiKeyWithCurrentTierLimits tiers key) = k_ownerEmail key"
  "k_createdAt (updateApiKeyWithCurrentTierLimits tiers key) = k_createdAt key"
  by (simp_all add: updateApiKeyWithCurrentTierLimits_def split: option.splits)

text \<open>
  Claim C7, as stated, fails: the limits are products of Numbers, and a product that is not
  a Number is rounded.  With the rate 20000000000001 the day limit of a new credential is
  1728000000000086528, which is not the rate times 86400, and with the rate 33.3 (the
  Number \<open>2343279181116211 / 2 ^ 46\<close>) the refreshed minute limit is
  1997.9999999999998 (the Number \<open>8787296929185791 / 2 ^ 42\<close>), which is not the rate
  times 60.
\<close>

theorem limits_are_rounded_products:
  "map_option k_perDay
     (map_of (apiKeysStore (snd (createApiKey ''key_1'' ''demo'' ''hash_1'' ''Demo'' ''wide'' ''admin@example.com''
        (world0\<lparr>tiersStore :=
           [(''wide'', \<lparr>t_id = ''wide'', t_name = ''Wide'', t_rateLimit = Finite 20000000000001,
                        t_burstLimit = Finite 30\<rparr>)]\<rparr>)))) ''key_1'')
     = Some (Finite 1728000000000086528)
   \<and> (20000000000001 :: rat) * 86400 = 1728000000000086400
   \<and> k_perMinute (updateApiKeyWithCurrentTierLimits
        [(''odd'', \<lparr>t_id = ''odd'', t_name = ''Odd'', t_rateLimit = Finite (2343279181116211 / 2 ^ 46),
                     t_burstLimit = Finite 30\<rparr>)]
        \<lparr>k_id = ''key_1'', k_name = ''Demo'', k_apiKey = ''sk_demo'', k_apiKeyHash = ''hash_1'',
         k_ownerEmail = ''admin@example.com'', k_tier = ''odd'', k_perMinute = Finite 1200,
         k_perDay = Finite 1728000, k_disabled = False, k_createdAt = 1762128000000\<rparr>)
     = Finite (8787296929185791 / 2 ^ 42)
   \<and> (2343279181116211 / 2 ^ 46 :: rat) * 60 \<noteq> 8787296929185791 / 2 ^ 42"
proof -
  have d: "tier_perDay (Finite 20000000000001) = Finite 1728000000000086528"
    by (simp add: number_eval)
  have m: "tier_perMinute (Finite (2343279181116211 / 2 ^ 46)) = Finite (8787296929185791 / 2 ^ 42)"
    by (simp add: number_eval)
  have c: "map_option k_perDay
     (map_of (apiKeysStore (snd (createApiKey ''key_1'' ''demo'' ''hash_1'' ''Demo'' ''wide'' ''admin@example.com''
        (world0\<lparr>tiersStore :=
           [(''wide'', \<lparr>t_id = ''wide'', t_name = ''Wide'', t_rateLimit = Finite 20000000000001,
                        t_burstLimit = Finite 30\<rparr>)]\<rparr>)))) ''key_1'')
     = Some (tier_perDay (Finite 20000000000001))"
    by (simp add: createApiKey_def io_defs world0_def storeApiKey_def cacheMetadata_def
        generateApiKey_def getMetadataKey_def API_KEY_PREFIX_def tier_perDay_def Let_def)
  have u: "k_perMinute (updateApiKeyWithCurrentTierLimits
        [(''odd'', \<lparr>t_id = ''odd'', t_name = ''Odd'', t_rateLimit = Finite (2343279181116211 / 2 ^ 46),
                     t_burstLimit = Finite 30\<rparr>)]
        \<lparr>k_id = ''key_1'', k_name = ''Demo'', k_apiKey = ''sk_demo'', k_apiKeyHash = ''hash_1'',
         k_ownerEmail = ''admin@example.com'', k_tier = ''odd'', k_perMinute = Finite 1200,
         k_perDay = Finite 1728000, k_disabled = False, k_createdAt = 1762128000000\<rparr>)
     = tier_perMinute (Finite (2343279181116211 / 2 ^ 46))"
    by (simp add: updateApiKeyWithCurrentTierLimits_Some)
  have e: "(20000000000001 :: rat) * 86400 = 1728000000000086400"
    "(2343279181116211 / 2 ^ 46 :: rat) * 60 \<noteq> 8787296929185791 / 2 ^ 42"
    by simp_all
  show ?thesis
    by (simp only: c d u m e) simp
qed

text \<open>
  Claim C7, amended.  The limits of a credential are the two products that the language
  computes from the rate \<open>r\<close> of its tier, \<open>r * 60\<close> and \<open>r * 60 * 60 * 24\<close> with each
  multiplication rounded to a Number: in the object that \<open>createApiKey\<close> puts in memory and
  in the durable record, in the metadata cache (after the way through JSON), and in the
  object that \<open>updateApiKeyWithCurrentTierLimits\<close> returns whenever the tier of the
  credential is in the registry.  For a rate that is an integer \<open>n\<close> with
  \<open>\<bar>n\<bar> * 86400 \<le> 2 ^ 53\<close> these are \<open>n * 60\<close> and \<open>n * 86400\<close>; the rate 20 gives 1200
  and 1728000.
\<close>

theorem limits_derived_from_tier:
  "(createApiKey nid n32 h name tier owner s = (Inr (i, secret), s') \<longrightarrow>
      (\<exists>tc key e.
          map_of (tiersStore s) tier = Some tc
        \<and> map_of (apiKeysStore s') i = Some key
        \<and> apikey_hashes s' (API_KEY_PREFIX @ i) = Some key
        \<and> metadata s' (getMetadataKey secret) = Some (JSON_metadata (metadataOf key), e)
        \<and> k_tier key = tier
        \<and> k_perMinute key = tier_perMinute (t_rateLimit tc)
        \<and> k_perDay key = tier_perDay (t_rateLimit tc)))
   \<and> (map_of tiers (k_tier key0) = Some tc0 \<longrightarrow>
        k_perMinute (updateApiKeyWithCurrentTierLimits tiers key0) = tier_perMinute (t_rateLimit tc0)
      \<and> k_perDay (updateApiKeyWithCurrentTierLimits tiers key0) = tier_perDay (t_rateLimit tc0))
   \<and> (\<bar>n\<bar> * 86400 \<le> 2 ^ 53 \<longrightarrow>
        tier_perMinute (Finite (of_int n)) = Finite (of_int (n * 60))
      \<and> tier_perDay (Finite (of_int n)) = Finite (of_int (n * 86400)))
   \<and> tier_perMinute (Finite 20) = Finite 1200 \<and> tier_perDay (Finite 20) = Finite 1728000"
proof (intro conjI impI)
  assume run: "createApiKey nid n32 h name tier owner s = (Inr (i, secret), s')"
  from createApiKey_Inr[OF run] show "\<exists>tc key e.
          map_of (tiersStore s) tier = Some tc
        \<and> map_of (apiKeysStore s') i = Some key
        \<and> apikey_hashes s' (API_KEY_PREFIX @ i) = Some key
        \<and> metadata s' (getMetadataKey secret) = Some (JSON_metadata (metadataOf key), e)
        \<and> k_tier key = tier
        \<and> k_perMinute key = tier_perMinute (t_rateLimit tc)
        \<and> k_perDay key = tier_perDay (t_rateLimit tc)"
    by (auto simp: update_conv' metadataOf_def)
next
  assume "map_of tiers (k_tier key0) = Some tc0"
  then show "k_perMinute (updateApiKeyWithCurrentTierLimits tiers key0) = tier_perMinute (t_rateLimit tc0)"
    and "k_perDay (updateApiKeyWithCurrentTierLimits tiers key0) = tier_perDay (t_rateLimit tc0)"
    by (simp_all add: updateApiKeyWithCurrentTierLimits_Some)
next
  assume "\<bar>n\<bar> * 86400 \<le> 2 ^ 53"
  then show "tier_perMinute (Finite (of_int n)) = Finite (of_int (n * 60))"
    and "tier_perDay (Finite (of_int n)) = Finite (of_int (n * 86400))"
    by (rule tier_limits_of_int)+
next
  show "tier_perMinute (Finite 20) = Finite 1200" "tier_perDay (Finite 20) = Finite 1728000"
    by (rule basic_limits)+
qed

lemma createApiKey_world0:
  "\<exists>s'. createApiKey ''key_1'' ''demo'' ''hash_1'' ''Demo'' ''basic'' ''admin@example.com'' world0
        = (Inr (''key_1'', ''sk_demo''), s')"
  by (simp add: createApiKey_def io_defs world0_def default_tiers_def storeApiKey_def cacheMetadata_def
     generateApiKey_def getMetadataKey_def API_KEY_PREFIX_def Let_def)

theorem limits_derived_from_tier_witness:
  "\<exists>s' key e.
      createApiKey ''key_1'' ''demo'' ''hash_1'' ''Demo'' ''basic'' ''admin@example.com'' world0
        = (Inr (''key_1'', ''sk_demo''), s')
    \<and> map_of (apiKeysStore s') ''key_1'' = Some key
    \<and> apikey_hashes s' (API_KEY_PREFIX @ ''key_1'') = Some key
    \<and> metadata s' (getMetadataKey ''sk_demo'') = Some (JSON_metadata (metadataOf key), e)
    \<and> k_perMinute key = Finite 1200 \<and> k_perDay key = Finite 1728000
    \<and> k_perMinute (updateApiKeyWithCurrentTierLimits default_tiers
         (key\<lparr>k_perMinute := Finite 5, k_perDay := Finite 7\<rparr>)) = Finite 1200
    \<and> k_perDay (updateApiKeyWithCurrentTierLimits default_tiers
         (key\<lparr>k_perMinute := Finite 5, k_perDay := Finite 7\<rparr>)) = Finite 1728000"
proof -
  obtain s' where run:
    "createApiKey ''key_1'' ''demo'' ''hash_1'' ''Demo'' ''basic'' ''admin@example.com'' world0
        = (Inr (''key_1'', ''sk_demo''), s')"
    using createApiKey_world0 by blast
  have basic: "map_of (tiersStore world0) ''basic'' =
      Some \<lparr>t_id = ''basic'', t_name = ''Basic'', t_rateLimit = Finite 20, t_burstLimit = Finite 30\<rparr>"
    by (simp add: world0_fields default_tiers_def)
  have small: "\<bar>20 :: int\<bar> * 86400 \<le> 2 ^ 53" by simp
  note main = limits_derived_from_tier[of "''key_1''" "''demo''" "''hash_1''" "''Demo''" "''basic''"
      "''admin@example.com''" world0 "''key_1''" "''sk_demo''" s' default_tiers _ _ 20]
  from main[THEN conjunct1, THEN mp, OF run]
  obtain tc key e where k: "map_of (tiersStore world0) ''basic'' = Some tc"
      "map_of (apiKeysStore s') ''key_1'' = Some key"
      "apikey_hashes s' (API_KEY_PREFIX @ ''key_1'') = Some key"
      "metadata s' (getMetadataKey ''sk_demo'') = Some (JSON_metadata (metadataOf key), e)"
      "k_tier key = ''basic''"
      "k_perMinute key = tier_perMinute (t_rateLimit tc)" "k_perDay key = tier_perDay (t_rateLimit tc)"
    by blast
  from k(1) basic have tc: "t_rateLimit tc = Finite 20" by auto
  have lim: "tier_perMinute (Finite 20) = Finite 1200" "tier_perDay (Finite 20) = Finite 1728000"
    using limits_derived_from_tier[of _ _ _ _ _ _ _ _ _ _ _ _ _ 20, THEN conjunct2, THEN conjunct2,
        THEN conjunct1, THEN mp, OF small]
    by simp_all
  have t: "map_of default_tiers (k_tier (key\<lparr>k_perMinute := Finite 5, k_perDay := Finite 7\<rparr>)) =
      Some \<lparr>t_id = ''basic'', t_name = ''Basic'', t_rateLimit = Finite 20, t_burstLimit = Finite 30\<rparr>"
    using k(5) by (simp add: default_tiers_def)
  from limits_derived_from_tier[of _ _ _ _ _ _ _ _ _ _ default_tiers
      "key\<lparr>k_perMinute := Finite 5, k_perDay := Finite 7\<rparr>", THEN conjunct2, THEN conjunct1, THEN mp, OF t]
  have u: "k_perMinute (updateApiKeyWithCurrentTierLimits default_tiers
         (key\<lparr>k_perMinute := Finite 5, k_perDay := Finite 7\<rparr>)) = Finite 1200"
    "k_perDay (updateApiKeyWithCurrentTierLimits default_tiers
         (key\<lparr>k_perMinute := Finite 5, k_perDay := Finite 7\<rparr>)) = Finite 1728000"
    by (simp_all add: lim)
  show ?thesis using run k(2,3,4,6,7) tc u lim by auto
qed


section \<open>Reading the durable record\<close>

lemma fromHash_fields [simp]:
  "k_id (fromHash d) = k_id d" "k_apiKey (fromHash d) = k_apiKey d"
  "k_apiKeyHash (fromHash d) = k_apiKeyHash d" "k_tier (fromHash d) = k_tier d"
  "k_disabled (fromHash d) = k_disabled d" "k_name (fromHash d) = k_name d"
  "k_ownerEmail (fromHash d) = k_ownerEmail d" "k_createdAt (fromHash d) = k_createdAt d"
  by (simp_all add: fromHash_def)

lemma getStoredApiKey_eq:
  "getStoredApiKey ident = redis_call (\<lambda>t s. (stored_at s (API_KEY_PREFIX @ ident), s))"
  by (simp add: getStoredApiKey_def stored_at_def fun_eq_iff redis_call_def split: option.splits)

lemma stored_at_fields [simp]:
  "stored_at (s\<lparr>cmds := c\<rparr>) = stored_at s" "stored_at (s\<lparr>ticks := k\<rparr>) = stored_at s"
  "stored_at (s\<lparr>apiKeysStore := m\<rparr>) = stored_at s" "stored_at (s\<lparr>apiKeysByHash := h\<rparr>) = stored_at s"
  "stored_at (s\<lparr>metadata := md\<rparr>) = stored_at s"
  by (simp_all add: stored_at_def fun_eq_iff)

lemma stored_at_SomeD:
  "stored_at s key = Some k \<Longrightarrow> \<exists>d. apikey_hashes s key = Some d \<and> k = fromHash d"
  by (auto simp: stored_at_def)

lemma stored_at_cong: "apikey_hashes s' = apikey_hashes s \<Longrightarrow> stored_at s' = stored_at s"
  by (simp add: stored_at_def fun_eq_iff)


section \<open>Deleting a credential\<close>

lemma deleteApiKey_Inr:
  assumes "deleteApiKey ident s = (Inr (), s')"
  shows "\<exists>key. (map_of (apiKeysStore s) ident = Some key
               \<or> map_of (apiKeysStore s) ident = None \<and> stored_at s (API_KEY_PREFIX @ ident) = Some key)
         \<and> apiKeysStore s' = AList.delete ident (apiKeysStore s)
         \<and> apiKeysByHash s' = AList.delete (k_apiKeyHash key) (apiKeysByHash s)
         \<and> apikey_hashes s' = (apikey_hashes s)(API_KEY_PREFIX @ ident := None)
         \<and> apikeys_all s' = removeAll ident (apikeys_all s)
         \<and> metadata s' = (metadata s)(getMetadataKey (k_apiKey key) := None)"
  using assms
  by (auto simp: deleteApiKey_def io_defs getStoredApiKey_eq deleteStoredApiKey_def
      invalidateMetadata_def Let_def split: option.splits if_splits)


section \<open>A concrete run: one credential, one request\<close>

lemma createApiKey_world0_eq:
  "createApiKey ''key_1'' ''demo'' ''hash_1'' ''Demo'' ''basic'' ''admin@example.com'' world0 =
   (Inr (''key_1'', ''sk_demo''),
    world0\<lparr>
      metadata := [''meta:sk_demo'' \<mapsto>
         (\<lparr>m_id = ''key_1'', m_name = ''Demo'', m_tier = ''basic'', m_perMinute = Some (Finite 1200),
           m_perDay = Some (Finite 1728000), m_disabled = False, m_ownerEmail = ''admin@example.com''\<rparr>,
          1762214400003)],
      apikey_hashes := [''api-key:key_1'' \<mapsto>
         \<lparr>k_id = ''key_1'', k_name = ''Demo'', k_apiKey = ''sk_demo'', k_apiKeyHash = ''hash_1'',
          k_ownerEmail = ''admin@example.com'', k_tier = ''basic'', k_perMinute = Finite 1200,
          k_perDay = Finite 1728000, k_disabled = False, k_createdAt = 1762128000000\<rparr>],
      apikeys_all := [''key_1''],
      apiKeysStore := [(''key_1'',
         \<lparr>k_id = ''key_1'', k_name = ''Demo'', k_apiKey = ''sk_demo'', k_apiKeyHash = ''hash_1'',
          k_ownerEmail = ''admin@example.com'', k_tier = ''basic'', k_perMinute = Finite 1200,
          k_perDay = Finite 1728000, k_disabled = False, k_createdAt = 1762128000000\<rparr>)],
      apiKeysByHash := [(''hash_1'', ''key_1'')],
      ticks := 4, cmds := 3\<rparr>)"
  by (simp add: createApiKey_def io_defs world0_def default_tiers_def storeApiKey_def cacheMetadata_def
     generateApiKey_def getMetadataKey_def API_KEY_PREFIX_def Let_def basic_products JSON_metadata_def)

lemma world1_eq:
  "world1 = world0\<lparr>
      metadata := [''meta:sk_demo'' \<mapsto>
         (\<lparr>m_id = ''key_1'', m_name = ''Demo'', m_tier = ''basic'', m_perMinute = Some (Finite 1200),
           m_perDay = Some (Finite 1728000), m_disabled = False, m_ownerEmail = ''admin@example.com''\<rparr>,
          1762214400003)],
      apikey_hashes := [''api-key:key_1'' \<mapsto>
         \<lparr>k_id = ''key_1'', k_name = ''Demo'', k_apiKey = ''sk_demo'', k_apiKeyHash = ''hash_1'',
          k_ownerEmail = ''admin@example.com'', k_tier = ''basic'', k_perMinute = Finite 1200,
          k_perDay = Finite 1728000, k_disabled = False, k_createdAt = 1762128000000\<rparr>],
      apikeys_all := [''key_1''],
      apiKeysStore := [(''key_1'',
         \<lparr>k_id = ''key_1'', k_name = ''Demo'', k_apiKey = ''sk_demo'', k_apiKeyHash = ''hash_1'',
          k_ownerEmail = ''admin@example.com'', k_tier = ''basic'', k_perMinute = Finite 1200,
          k_perDay = Finite 1728000, k_disabled = False, k_createdAt = 1762128000000\<rparr>)],
      apiKeysByHash := [(''hash_1'', ''key_1'')],
      ticks := 4, cmds := 3\<rparr>"
  by (simp add: world1_def createApiKey_world0_eq)

lemmas eval_defs = io_defs world0_def rateLimitMiddleware_def ensureRedisConnected_def
  findApiKeyByValue_def findInCache_def findInMemory_def findInRedis_def
  getCachedMetadata_def cacheMetadata_def invalidateMetadata_def getMetadataKey_def
  getStoredApiKey_def storeApiKey_def deleteStoredApiKey_def updateStoredApiKey_def
  findStoredApiKeyByValue_def getAllStoredApiKeys_def API_KEY_PREFIX_def
  updateApiKeyWithCurrentTierLimits_def metadataOf_def default_tiers_def checkRateLimit_def
  getMinuteKey_def getDayKey_def rateLimitLuaScript_def INCR_def PEXPIRE_def live_def
  minute_day_key_distinct minute_day_key_distinct[symmetric]
  addEvent_def xadd_def getEventsStreamKey_def getGlobalEventsStreamKey_def
  updateLastSeen_def Let_def basic_products basic_stored JSON_metadata_def fromHash_def
  number_less_def

lemma middleware_world1_eq:
  "rateLimitMiddleware (Some ''sk_demo'') ''/api/data'' world1 =
   (Inr (Allowed 1 1 (Finite 1200) (Finite 1728000)),
    world1\<lparr>
      counters := [minuteKeyAt 1762128000007 ''sk_demo'' \<mapsto> (1, Some 1762128090009),
                   dayKeyAt 1762128000008 ''sk_demo'' \<mapsto> (1, Some 1762218000009)],
      lastseen := [''lastseen:sk_demo'' \<mapsto> (1762128000014, 1762732800015)],
      streams := [''events:sk_demo'' \<mapsto>
                    [\<lparr>e_timestamp = 1762128000011, e_apiKey = ''sk_demo'', e_endpoint = ''/api/data'',
                      e_status = 200, e_reason = ''Allowed'', e_latencyMs = 6\<rparr>],
                  ''events:global'' \<mapsto>
                    [\<lparr>e_timestamp = 1762128000011, e_apiKey = ''sk_demo'', e_endpoint = ''/api/data'',
                      e_status = 200, e_reason = ''Allowed'', e_latencyMs = 6\<rparr>]],
      ticks := 16, cmds := 9\<rparr>)"
  by (simp add: world1_eq eval_defs)

lemma world2_eq:
  "world2 = world1\<lparr>
      counters := [minuteKeyAt 1762128000007 ''sk_demo'' \<mapsto> (1, Some 1762128090009),
                   dayKeyAt 1762128000008 ''sk_demo'' \<mapsto> (1, Some 1762218000009)],
      lastseen := [''lastseen:sk_demo'' \<mapsto> (1762128000014, 1762732800015)],
      streams := [''events:sk_demo'' \<mapsto>
                    [\<lparr>e_timestamp = 1762128000011, e_apiKey = ''sk_demo'', e_endpoint = ''/api/data'',
                      e_status = 200, e_reason = ''Allowed'', e_latencyMs = 6\<rparr>],
                  ''events:global'' \<mapsto>
                    [\<lparr>e_timestamp = 1762128000011, e_apiKey = ''sk_demo'', e_endpoint = ''/api/data'',
                      e_status = 200, e_reason = ''Allowed'', e_latencyMs = 6\<rparr>]],
      ticks := 16, cmds := 9\<rparr>"
  by (simp add: world2_def middleware_world1_eq)

section \<open>Claim C10\<close>

text \<open>
  Claim C10.  \<open>deleteApiKey ident\<close> never writes a counter key or an event stream,
  whatever it returns.  When it returns normally, the credential it worked on (the object
  in memory, or else the durable record) is gone from memory, its durable record is
  deleted, its id is no longer in the set of all ids and the metadata cache has no entry
  for its secret; the counts and the events of the credential are still there.
\<close>

theorem deleteApiKey_keeps_counters_and_events:
  assumes "deleteApiKey ident s = (r, s')"
  shows "counters s' = counters s \<and> streams s' = streams s
       \<and> (r = Inr () \<longrightarrow>
            (\<exists>key. (map_of (apiKeysStore s) ident = Some key
                       \<or> map_of (apiKeysStore s) ident = None
                          \<and> apikey_hashes s (API_KEY_PREFIX @ ident) = Some key)
                  \<and> map_of (apiKeysStore s') ident = None
                  \<and> apikey_hashes s' (API_KEY_PREFIX @ ident) = None
                  \<and> ident \<notin> set (apikeys_all s')
                  \<and> metadata s' (getMetadataKey (k_apiKey key)) = None))"
proof (intro conjI impI)
  have "keeps counters (deleteApiKey ident)" "keeps streams (deleteApiKey ident)"
    by (rule keeps_deleteApiKey; simp add: plain_fields)+
  from this[THEN keepsD, OF assms]
  show "counters s' = counters s" "streams s' = streams s" .
next
  assume "r = Inr ()"
  with assms have run: "deleteApiKey ident s = (Inr (), s')" by simp
  from deleteApiKey_Inr[OF run] obtain key where
    key: "map_of (apiKeysStore s) ident = Some key
          \<or> map_of (apiKeysStore s) ident = None \<and> stored_at s (API_KEY_PREFIX @ ident) = Some key"
    and gone: "map_of (apiKeysStore s') ident = None" "apikey_hashes s' (API_KEY_PREFIX @ ident) = None"
      "ident \<notin> set (apikeys_all s')" "metadata s' (getMetadataKey (k_apiKey key)) = None"
    by (auto simp: delete_conv')
  from key have "\<exists>d. k_apiKey d = k_apiKey key
      \<and> (map_of (apiKeysStore s) ident = Some d
           \<or> map_of (apiKeysStore s) ident = None \<and> apikey_hashes s (API_KEY_PREFIX @ ident) = Some d)"
  proof
    assume "map_of (apiKeysStore s) ident = Some key"
    then show ?thesis by blast
  next
    assume a: "map_of (apiKeysStore s) ident = None \<and> stored_at s (API_KEY_PREFIX @ ident) = Some key"
    then obtain d where "apikey_hashes s (API_KEY_PREFIX @ ident) = Some d" "key = fromHash d"
      using stored_at_SomeD by blast
    with a show ?thesis by auto
  qed
  then obtain d where d: "k_apiKey d = k_apiKey key"
      "map_of (apiKeysStore s) ident = Some d
       \<or> map_of (apiKeysStore s) ident = None \<and> apikey_hashes s (API_KEY_PREFIX @ ident) = Some d"
    by blast
  from gone(4) d(1) have "metadata s' (getMetadataKey (k_apiKey d)) = None" by simp
  with d(2) gone(1,2,3)
  show "\<exists>key. (map_of (apiKeysStore s) ident = Some key
                       \<or> map_of (apiKeysStore s) ident = None
                          \<and> apikey_hashes s (API_KEY_PREFIX @ ident) = Some key)
                  \<and> map_of (apiKeysStore s') ident = None
                  \<and> apikey_hashes s' (API_KEY_PREFIX @ ident) = None
                  \<and> ident \<notin> set (apikeys_all s')
                  \<and> metadata s' (getMetadataKey (k_apiKey key)) = None"
    by blast
qed

lemma deleteApiKey_world2:
  "\<exists>s'. deleteApiKey ''key_1'' world2 = (Inr (), s')"
  by (simp add: deleteApiKey_def world2_eq world1_eq eval_defs)

theorem deleteApiKey_keeps_counters_and_events_witness:
  "\<exists>s'. deleteApiKey ''key_1'' world2 = (Inr (), s')
      \<and> counters s' (minuteKeyAt 1762128000007 ''sk_demo'') = Some (1, Some 1762128090009)
      \<and> counters s' (dayKeyAt 1762128000008 ''sk_demo'') = Some (1, Some 1762218000009)
      \<and> streams s' ''events:sk_demo'' =
            Some [\<lparr>e_timestamp = 1762128000011, e_apiKey = ''sk_demo'', e_endpoint = ''/api/data'',
                   e_status = 200, e_reason = ''Allowed'', e_latencyMs = 6\<rparr>]
      \<and> map_of (apiKeysStore s') ''key_1'' = None
      \<and> apikey_hashes s' (API_KEY_PREFIX @ ''key_1'') = None
      \<and> ''key_1'' \<notin> set (apikeys_all s')
      \<and> metadata s' (getMetadataKey ''sk_demo'') = None"
proof -
  obtain s' where run: "deleteApiKey ''key_1'' world2 = (Inr (), s')"
    using deleteApiKey_world2 by blast
  have mem: "map_of (apiKeysStore world2) ''key_1'' =
      Some \<lparr>k_id = ''key_1'', k_name = ''Demo'', k_apiKey = ''sk_demo'', k_apiKeyHash = ''hash_1'',
          k_ownerEmail = ''admin@example.com'', k_tier = ''basic'', k_perMinute = Finite 1200,
          k_perDay = Finite 1728000, k_disabled = False, k_createdAt = 1762128000000\<rparr>"
    by (simp add: world2_eq world1_eq)
  have c: "counters world2 (minuteKeyAt 1762128000007 ''sk_demo'') = Some (1, Some 1762128090009)"
      "counters world2 (dayKeyAt 1762128000008 ''sk_demo'') = Some (1, Some 1762218000009)"
      "streams world2 ''events:sk_demo'' =
            Some [\<lparr>e_timestamp = 1762128000011, e_apiKey = ''sk_demo'', e_endpoint = ''/api/data'',
                   e_status = 200, e_reason = ''Allowed'', e_latencyMs = 6\<rparr>]"
    by (simp_all add: world2_eq minute_day_key_distinct)
  from deleteApiKey_keeps_counters_and_events[OF run] mem c run
  show ?thesis by auto
qed


section \<open>Disabled credentials\<close>

lemma no_faults_keeps:
  "keeps fault m \<Longrightarrow> m s = (r, s') \<Longrightarrow> no_faults s' = no_faults s"
  by (simp add: no_faults_def keepsD)

lemma redis_call_no_fault:
  "no_faults s \<Longrightarrow> redis_call f s =
     (case f (clock s (ticks s)) (s\<lparr>cmds := Suc (cmds s), ticks := Suc (ticks s)\<rparr>) of
        (r, s') \<Rightarrow> (Inr r, s'))"
  by (simp add: redis_call_def no_faults_def)

lemma addEvent_no_fault:
  "no_faults s \<Longrightarrow> \<exists>s'. addEvent ev s = (Inr (), s')"
  by (simp add: addEvent_def io_bind_def redis_call_def no_faults_def xadd_def Let_def)

section \<open>Claim C5\<close>

text \<open>
  Claim C5.  When the lookup of the middleware resolves the secret to a credential with
  \<open>disabled = true\<close>, the counter store is not called: no counter key is written,
  whatever the outcome; a verdict that is returned is the rejection
  \<^verbatim>\<open>API key is disabled\<close>, and it is returned whenever no command of the store is
  rejected.
\<close>

theorem disabled_credential_bypasses_counters:
  assumes conn: "ensureRedisConnected (snd (Date_now s)) = (Inr (), s1)"
    and found: "findApiKeyByValue apiKeyValue s1 = (Inr (Some key), s2)"
    and dis: "k_disabled key"
    and ne: "apiKeyValue \<noteq> []"
    and run: "rateLimitMiddleware (Some apiKeyValue) endpoint s = (r, s')"
  shows "counters s' = counters s
       \<and> (\<forall>v. r = Inr v \<longrightarrow> v = Rejected ''API key is disabled'' 3600)
       \<and> (no_faults s \<longrightarrow> r = Inr (Rejected ''API key is disabled'' 3600))"
proof -
  let ?s0 = "s\<lparr>ticks := Suc (ticks s)\<rparr>"
  have conn': "ensureRedisConnected ?s0 = (Inr (), s1)"
    using conn by (simp add: Date_now_def)
  define ev where "ev = \<lparr>e_timestamp = clock s2 (ticks s2), e_apiKey = apiKeyValue, e_endpoint = endpoint,
       e_status = 403, e_reason = ''API key disabled'',
       e_latencyMs = int (clock s2 (Suc (ticks s2))) - int (clock s (ticks s))\<rparr>"
  let ?s3 = "s2\<lparr>ticks := Suc (Suc (ticks s2))\<rparr>"
  have unfold: "rateLimitMiddleware (Some apiKeyValue) endpoint s =
      (case addEvent ev ?s3 of
         (Inl e, s4) \<Rightarrow> (Inl e, s4)
       | (Inr x, s4) \<Rightarrow> (Inr (Rejected ''API key is disabled'' 3600), s4))"
    using ne dis
    by (simp add: rateLimitMiddleware_def io_bind_def Date_now_def conn' found io_return_def ev_def
        split: prod.splits sum.splits)
  obtain r4 s4 where ae: "addEvent ev ?s3 = (r4, s4)" by (cases "addEvent ev ?s3")
  have s': "s' = s4" and r: "r = (case r4 of Inl e \<Rightarrow> Inl e | Inr x \<Rightarrow> Inr (Rejected ''API key is disabled'' 3600))"
    using run unfolding unfold ae by (auto split: sum.splits)
  have c4: "counters s4 = counters ?s3"
    by (rule keepsD[OF keeps_addEvent ae]) (simp_all add: plain_fields)
  have c2: "counters s2 = counters s1"
    by (rule keepsD[OF keeps_findApiKeyByValue found]) (simp_all add: plain_fields)
  have c1: "counters s1 = counters ?s0"
    by (rule keepsD[OF keeps_ensureRedisConnected conn']) (simp_all add: plain_fields)
  have f2: "fault s2 = fault s1"
    by (rule keepsD[OF keeps_findApiKeyByValue found]) (simp_all add: plain_fields)
  have f1: "fault s1 = fault ?s0"
    by (rule keepsD[OF keeps_ensureRedisConnected conn']) (simp_all add: plain_fields)
  have nf: "no_faults s \<Longrightarrow> no_faults ?s3"
    using f1 f2 by (simp add: no_faults_def)
  show ?thesis
  proof (intro conjI allI impI)
    show "counters s' = counters s" using s' c4 c2 c1 by simp
  next
    fix v assume "r = Inr v"
    then show "v = Rejected ''API key is disabled'' 3600"
      using r by (auto split: sum.splits)
  next
    assume "no_faults s"
    from addEvent_no_fault[OF nf[OF this], of ev] ae have "r4 = Inr ()" by auto
    then show "r = Inr (Rejected ''API key is disabled'' 3600)" using r by simp
  qed
qed



lemma disableApiKey_world2_eq:
  "disableApiKey ''key_1'' world2 =
   (Inr (),
    world2\<lparr>
      metadata := Map.empty,
      apikey_hashes := [''api-key:key_1'' \<mapsto>
         \<lparr>k_id = ''key_1'', k_name = ''Demo'', k_apiKey = ''sk_demo'', k_apiKeyHash = ''hash_1'',
          k_ownerEmail = ''admin@example.com'', k_tier = ''basic'', k_perMinute = Finite 1200,
          k_perDay = Finite 1728000, k_disabled = True, k_createdAt = 1762128000000\<rparr>],
      apiKeysStore := [(''key_1'',
         \<lparr>k_id = ''key_1'', k_name = ''Demo'', k_apiKey = ''sk_demo'', k_apiKeyHash = ''hash_1'',
          k_ownerEmail = ''admin@example.com'', k_tier = ''basic'', k_perMinute = Finite 1200,
          k_perDay = Finite 1728000, k_disabled = True, k_createdAt = 1762128000000\<rparr>)],
      ticks := 20, cmds := 13\<rparr>)"
  by (simp add: disableApiKey_def world2_eq world1_eq eval_defs)

lemma world3_eq:
  "world3 = world2\<lparr>
      metadata := Map.empty,
      apikey_hashes := [''api-key:key_1'' \<mapsto>
         \<lparr>k_id = ''key_1'', k_name = ''Demo'', k_apiKey = ''sk_demo'', k_apiKeyHash = ''hash_1'',
          k_ownerEmail = ''admin@example.com'', k_tier = ''basic'', k_perMinute = Finite 1200,
          k_perDay = Finite 1728000, k_disabled = True, k_createdAt = 1762128000000\<rparr>],
      apiKeysStore := [(''key_1'',
         \<lparr>k_id = ''key_1'', k_name = ''Demo'', k_apiKey = ''sk_demo'', k_apiKeyHash = ''hash_1'',
          k_ownerEmail = ''admin@example.com'', k_tier = ''basic'', k_perMinute = Finite 1200,
          k_perDay = Finite 1728000, k_disabled = True, k_createdAt = 1762128000000\<rparr>)],
      ticks := 20, cmds := 13\<rparr>"
  by (simp add: world3_def disableApiKey_world2_eq)


lemma conn_world3:
  "ensureRedisConnected (snd (Date_now world3)) = (Inr (), world3\<lparr>ticks := 22, cmds := 14\<rparr>)"
  by (simp add: world3_eq world2_eq world1_eq eval_defs)

lemma lookup_world3:
  "\<exists>s2. findApiKeyByValue ''sk_demo'' (world3\<lparr>ticks := 22, cmds := 14\<rparr>) =
      (Inr (Some \<lparr>k_id = ''key_1'', k_name = ''Demo'', k_apiKey = ''sk_demo'', k_apiKeyHash = ''hash_1'',
          k_ownerEmail = ''admin@example.com'', k_tier = ''basic'', k_perMinute = Finite 1200,
          k_perDay = Finite 1728000, k_disabled = True, k_createdAt = 1762128000000\<rparr>), s2)"
  by (simp add: world3_eq world2_eq world1_eq eval_defs)

lemma no_faults_world3: "no_faults world3"
  by (simp add: no_faults_def world3_eq world2_eq world1_eq world0_def)


theorem disabled_credential_bypasses_counters_witness:
  "no_faults world3 \<and>
   (\<exists>s'. rateLimitMiddleware (Some ''sk_demo'') ''/api/data'' world3
           = (Inr (Rejected ''API key is disabled'' 3600), s')
        \<and> counters s' = counters world3
        \<and> counters s' (minuteKeyAt 1762128000007 ''sk_demo'') = Some (1, Some 1762128090009))"
proof -
  obtain s2 where found: "findApiKeyByValue ''sk_demo'' (world3\<lparr>ticks := 22, cmds := 14\<rparr>) =
      (Inr (Some \<lparr>k_id = ''key_1'', k_name = ''Demo'', k_apiKey = ''sk_demo'', k_apiKeyHash = ''hash_1'',
          k_ownerEmail = ''admin@example.com'', k_tier = ''basic'', k_perMinute = Finite 1200,
          k_perDay = Finite 1728000, k_disabled = True, k_createdAt = 1762128000000\<rparr>), s2)"
    using lookup_world3 by blast
  obtain r s' where run: "rateLimitMiddleware (Some ''sk_demo'') ''/api/data'' world3 = (r, s')"
    by (cases "rateLimitMiddleware (Some ''sk_demo'') ''/api/data'' world3")
  have c: "counters world3 (minuteKeyAt 1762128000007 ''sk_demo'') = Some (1, Some 1762128090009)"
    by (simp add: world3_eq world2_eq minute_day_key_distinct)
  have k: "k_disabled \<lparr>k_id = ''key_1'', k_name = ''Demo'', k_apiKey = ''sk_demo'', k_apiKeyHash = ''hash_1'',
          k_ownerEmail = ''admin@example.com'', k_tier = ''basic'', k_perMinute = Finite 1200,
          k_perDay = Finite 1728000, k_disabled = True, k_createdAt = 1762128000000\<rparr>"
    by simp
  have ne: "''sk_demo'' \<noteq> []" by simp
  note main = disabled_credential_bypasses_counters[OF conn_world3 found k ne run]
  from main no_faults_world3 have r: "r = Inr (Rejected ''API key is disabled'' 3600)" by blast
  from main have cs: "counters s' = counters world3" by blast
  have "rateLimitMiddleware (Some ''sk_demo'') ''/api/data'' world3
           = (Inr (Rejected ''API key is disabled'' 3600), s')
        \<and> counters s' = counters world3
        \<and> counters s' (minuteKeyAt 1762128000007 ''sk_demo'') = Some (1, Some 1762128090009)"
    unfolding cs using run r c by blast
  then show ?thesis using no_faults_world3 by blast
qed


section \<open>Counter keys\<close>

lemma digit_in: "n < 10 \<Longrightarrow> digit n \<in> set ''0123456789''"
  unfolding digit_def by (rule nth_mem) simp

lemma String_digits: "set (String n) \<subseteq> set ''0123456789''"
proof (induction n rule: String.induct)
  case (1 n)
  show ?case
  proof (cases "n < 10")
    case True
    then show ?thesis using digit_in[of n] by (subst String.simps) simp
  next
    case False
    have "n mod 10 < 10" by simp
    from digit_in[OF this] 1[OF False] False show ?thesis
      by (subst String.simps) simp
  qed
qed

lemma String_no_colon: "CHR '':'' \<notin> set (String n)"
  using String_digits[of n] by auto

lemma padStart_no_colon: "CHR '':'' \<notin> set (padStart 2 CHR ''0'' (String n))"
  using String_no_colon[of n] by (auto simp: padStart_def)

lemma minuteKeyAt_stamp: "minuteKeyAt now a = (''rl:'' @ a @ '':min'') @ CHR '':'' # minuteStamp now"
  by (simp add: minuteKeyAt_def minuteStamp_def Let_def)

lemma dayKeyAt_stamp: "dayKeyAt now a = (''rl:'' @ a @ '':day'') @ CHR '':'' # dayStamp now"
  by (simp add: dayKeyAt_def dayStamp_def Let_def)

lemma minuteStamp_no_colon: "CHR '':'' \<notin> set (minuteStamp now)"
  by (simp add: minuteStamp_def String_no_colon padStart_no_colon)

lemma dayStamp_no_colon: "CHR '':'' \<notin> set (dayStamp now)"
  by (simp add: dayStamp_def String_no_colon padStart_no_colon)

lemma split_at_last:
  assumes "c \<notin> set s1" "c \<notin> set s2" "xs @ c # s1 = ys @ c # s2"
  shows "xs = ys \<and> s1 = s2"
proof -
  from assms(3) have r: "rev s1 @ c # rev xs = rev s2 @ c # rev ys"
    by (metis rev.simps(2) rev_append append_assoc append_Cons append_Nil)
  have tw: "takeWhile (\<lambda>x. x \<noteq> c) (rev s @ c # zs) = rev s" if "c \<notin> set s" for s zs
  proof -
    have "\<And>x. x \<in> set (rev s) \<Longrightarrow> x \<noteq> c" using that by auto
    from takeWhile_append2[of "rev s" "\<lambda>x. x \<noteq> c" "c # zs", OF this] show ?thesis by simp
  qed
  have t1: "takeWhile (\<lambda>x. x \<noteq> c) (rev s1 @ c # rev xs) = rev s1"
    using assms(1) by (rule tw)
  have t2: "takeWhile (\<lambda>x. x \<noteq> c) (rev s2 @ c # rev ys) = rev s2"
    using assms(2) by (rule tw)
  from r t1 t2 have "rev s1 = rev s2" by simp
  then have "s1 = s2" by simp
  with assms(3) show ?thesis by simp
qed

lemma minuteKeyAt_inj: "minuteKeyAt t a = minuteKeyAt t' b \<Longrightarrow> a = b"
  using split_at_last[OF minuteStamp_no_colon minuteStamp_no_colon, of "''rl:'' @ a @ '':min''" t "''rl:'' @ b @ '':min''" t']
  by (simp add: minuteKeyAt_stamp)

lemma dayKeyAt_inj: "dayKeyAt t a = dayKeyAt t' b \<Longrightarrow> a = b"
  using split_at_last[OF dayStamp_no_colon dayStamp_no_colon, of "''rl:'' @ a @ '':day''" t "''rl:'' @ b @ '':day''" t']
  by (simp add: dayKeyAt_stamp)

lemma minute_day_key_distinct_any: "minuteKeyAt t a \<noteq> dayKeyAt t' b"
proof
  assume "minuteKeyAt t a = dayKeyAt t' b"
  then have "(''rl:'' @ a @ '':min'') = (''rl:'' @ b @ '':day'')"
    using split_at_last[OF minuteStamp_no_colon dayStamp_no_colon, of "''rl:'' @ a @ '':min''" t "''rl:'' @ b @ '':day''" t']
    by (simp add: minuteKeyAt_stamp dayKeyAt_stamp)
  then have "rev (a @ '':min'') = rev (b @ '':day'')" by simp
  then show False by simp
qed

lemma same_minute_fields:
  assumes "t div 60000 = t' div 60000"
  shows "getUTCFullYear t = getUTCFullYear t'" "getUTCMonth t = getUTCMonth t'"
    "getUTCDate t = getUTCDate t'" "getUTCHours t = getUTCHours t'" "getUTCMinutes t = getUTCMinutes t'"
proof -
  have d: "x div 86400000 = x div 60000 div 1440" for x :: nat
    by (simp add: div_mult2_eq[symmetric])
  have h: "x div 3600000 = x div 60000 div 60" for x :: nat
    by (simp add: div_mult2_eq[symmetric])
  show "getUTCFullYear t = getUTCFullYear t'" "getUTCMonth t = getUTCMonth t'"
    "getUTCDate t = getUTCDate t'" "getUTCHours t = getUTCHours t'" "getUTCMinutes t = getUTCMinutes t'"
    using assms
    by (simp_all add: getUTCFullYear_def getUTCMonth_def getUTCDate_def getUTCHours_def
        getUTCMinutes_def d h)
qed

lemma same_minute_keys:
  assumes "t div 60000 = t' div 60000"
  shows "minuteKeyAt t a = minuteKeyAt t' a" "dayKeyAt t a = dayKeyAt t' a"
  using same_minute_fields[OF assms] by (simp_all add: minuteKeyAt_def dayKeyAt_def)


section \<open>Counting within one minute\<close>

lemma in_minute_bounds:
  assumes "t div 60000 = (mn::nat)"
  shows "mn * 60000 \<le> t" "t < (mn + 1) * 60000"
  using assms by auto

lemma bucket_is_count:
  assumes "bucket_is h cs key c" "t < h"
  shows "count_at t cs key = c" "present_at t cs key = (c \<noteq> 0)"
    "c \<noteq> 0 \<Longrightarrow> \<exists>e. expiry_of cs key = Some e \<and> h \<le> e"
  using assms
  by (auto simp: bucket_is_def count_at_def present_at_def expiry_of_def live_def split: if_splits)

lemma bucket_is_nonneg: "bucket_is h cs key c \<Longrightarrow> 0 \<le> c"
  by (auto simp: bucket_is_def split: if_splits)

lemma bucket_is_other: "k \<noteq> key \<Longrightarrow> bucket_is h (cs(k \<mapsto> x)) key c = bucket_is h cs key c"
  by (simp add: bucket_is_def)

lemma bucket_is_bump:
  assumes b: "bucket_is h cs key c" and t: "t < h" and e: "h \<le> t + ttl"
  shows "bucket_is h (cs(key \<mapsto> (count_at t cs key + 1,
            if present_at t cs key then expiry_of cs key else Some (t + ttl)))) key (c + 1)"
proof -
  note bc = bucket_is_count[OF b t]
  have c0: "0 \<le> c" using b by (rule bucket_is_nonneg)
  show ?thesis
  proof (cases "c = 0")
    case True
    then show ?thesis using bc e by (simp add: bucket_is_def)
  next
    case False
    with bc(3) obtain e' where "expiry_of cs key = Some e'" "h \<le> e'" by blast
    then show ?thesis using bc(1,2) False c0 by (simp add: bucket_is_def)
  qed
qed

lemma counters_positive_upd:
  "counters_positive cs \<Longrightarrow> 1 \<le> v \<Longrightarrow> counters_positive (cs(k \<mapsto> (v, e)))"
  by (auto simp: counters_positive_def)

lemma count_at_nonneg: "counters_positive cs \<Longrightarrow> 0 \<le> count_at t cs k"
  by (force simp: counters_positive_def count_at_def split: option.splits)

text \<open>One call for the credential \<open>a\<close>, all clock readings within the minute \<open>mn\<close>.\<close>

lemma checkRateLimit_in_minute:
  assumes nf: "\<not> fault s (cmds s)" and pos: "counters_positive (counters s)"
    and clk: "\<forall>n. clock s n div 60000 = mn"
    and bm: "bucket_is ((mn + 1) * 60000) (counters s) (minuteKeyAt (mn * 60000) a) cm"
    and bd: "bucket_is ((mn + 1) * 60000) (counters s) (dayKeyAt (mn * 60000) a) cd"
  shows "\<exists>cs'. checkRateLimit a ml dl s =
           (Inr \<lparr>minuteCount = cm + 1, dayCount = cd + 1, isOverLimit = (number_less ml (Finite (of_int (cm + 1)))
                                \<or> number_less dl (Finite (of_int (cd + 1))))\<rparr>,
            s\<lparr>ticks := Suc (Suc (Suc (ticks s))), cmds := Suc (cmds s), counters := cs'\<rparr>)
         \<and> bucket_is ((mn + 1) * 60000) cs' (minuteKeyAt (mn * 60000) a) (cm + 1)
         \<and> bucket_is ((mn + 1) * 60000) cs' (dayKeyAt (mn * 60000) a) (cd + 1)
         \<and> counters_positive cs'
         \<and> (\<forall>k. k \<noteq> minuteKeyAt (mn * 60000) a \<and> k \<noteq> dayKeyAt (mn * 60000) a \<longrightarrow> cs' k = counters s k)"
proof -
  let ?h = "(mn + 1) * 60000"
  let ?mk = "minuteKeyAt (mn * 60000) a" and ?dk = "dayKeyAt (mn * 60000) a"
  let ?t = "clock s (Suc (Suc (ticks s)))"
  have rep: "(mn * 60000) div 60000 = mn" by simp
  have mk: "minuteKeyAt (clock s (ticks s)) a = ?mk"
    by (rule same_minute_keys) (simp add: clk rep)
  have dk: "dayKeyAt (clock s (Suc (ticks s))) a = ?dk"
    by (rule same_minute_keys) (simp add: clk rep)
  have t: "?t < ?h" "mn * 60000 \<le> ?t"
    using in_minute_bounds[of ?t mn] clk by auto
  have ne: "?mk \<noteq> ?dk" by (rule minute_day_key_distinct)
  let ?m = "count_at ?t (counters s) ?mk + 1" and ?d = "count_at ?t (counters s) ?dk + 1"
  let ?cs1 = "(counters s)(?mk \<mapsto> (?m, if present_at ?t (counters s) ?mk then expiry_of (counters s) ?mk else Some (?t + 90 * 1000)))"
  let ?cs' = "?cs1(?dk \<mapsto> (?d, if present_at ?t (counters s) ?dk then expiry_of (counters s) ?dk else Some (?t + 25 * 60 * 60 * 1000)))"
  have cm: "count_at ?t (counters s) ?mk = cm" and cd: "count_at ?t (counters s) ?dk = cd"
    using bucket_is_count(1)[OF bm t(1)] bucket_is_count(1)[OF bd t(1)] by auto
  have run: "checkRateLimit a ml dl s =
           (Inr \<lparr>minuteCount = cm + 1, dayCount = cd + 1, isOverLimit = (number_less ml (Finite (of_int (cm + 1)))
                                \<or> number_less dl (Finite (of_int (cd + 1))))\<rparr>,
            s\<lparr>ticks := Suc (Suc (Suc (ticks s))), cmds := Suc (cmds s), counters := ?cs'\<rparr>)"
    unfolding checkRateLimit_run[OF nf pos] Let_def mk dk cm cd by simp
  have b1: "bucket_is ?h ?cs1 ?mk (cm + 1)"
    by (rule bucket_is_bump[OF bm t(1)]) (use t(2) in simp)
  have b1': "bucket_is ?h ?cs' ?mk (cm + 1)"
    using b1 ne by (simp add: bucket_is_other)
  have b2: "bucket_is ?h ((counters s)(?dk \<mapsto> (?d, if present_at ?t (counters s) ?dk then expiry_of (counters s) ?dk else Some (?t + 25 * 60 * 60 * 1000)))) ?dk (cd + 1)"
    by (rule bucket_is_bump[OF bd t(1)]) (use t(2) in simp)
  have b2': "bucket_is ?h ?cs' ?dk (cd + 1)"
    using b2 unfolding bucket_is_def by (simp only: fun_upd_same)
  have p: "counters_positive ?cs'"
    using count_at_nonneg[OF pos, of ?t ?mk] count_at_nonneg[OF pos, of ?t ?dk]
    by (intro counters_positive_upd pos) simp_all
  have o: "\<forall>k. k \<noteq> ?mk \<and> k \<noteq> ?dk \<longrightarrow> ?cs' k = counters s k" by simp
  from run b1' b2' p o show ?thesis by blast
qed


text \<open>One call for another credential, at any time.\<close>

lemma checkRateLimit_other:
  assumes nf: "\<not> fault s (cmds s)" and pos: "counters_positive (counters s)" and ne: "b \<noteq> a"
  shows "\<exists>r cs'. checkRateLimit b ml dl s =
           (Inr r, s\<lparr>ticks := Suc (Suc (Suc (ticks s))), cmds := Suc (cmds s), counters := cs'\<rparr>)
         \<and> counters_positive cs'
         \<and> (\<forall>t. cs' (minuteKeyAt t a) = counters s (minuteKeyAt t a)
                \<and> cs' (dayKeyAt t a) = counters s (dayKeyAt t a))"
proof -
  let ?t = "clock s (Suc (Suc (ticks s)))"
  let ?mk = "minuteKeyAt (clock s (ticks s)) b" and ?dk = "dayKeyAt (clock s (Suc (ticks s))) b"
  let ?m = "count_at ?t (counters s) ?mk + 1" and ?d = "count_at ?t (counters s) ?dk + 1"
  let ?cs' = "(counters s)
     (?mk \<mapsto> (?m, if present_at ?t (counters s) ?mk then expiry_of (counters s) ?mk else Some (?t + 90 * 1000)),
      ?dk \<mapsto> (?d, if present_at ?t (counters s) ?dk then expiry_of (counters s) ?dk else Some (?t + 25 * 60 * 60 * 1000)))"
  have run: "checkRateLimit b ml dl s =
      (Inr \<lparr>minuteCount = ?m, dayCount = ?d,
            isOverLimit = (number_less ml (Finite (of_int ?m)) \<or> number_less dl (Finite (of_int ?d)))\<rparr>,
       s\<lparr>ticks := Suc (Suc (Suc (ticks s))), cmds := Suc (cmds s), counters := ?cs'\<rparr>)"
    unfolding checkRateLimit_run[OF nf pos] Let_def by simp
  have p: "counters_positive ?cs'"
    using count_at_nonneg[OF pos, of ?t ?mk] count_at_nonneg[OF pos, of ?t ?dk]
    by (intro counters_positive_upd pos) simp_all
  have d: "minuteKeyAt t a \<noteq> ?mk" "minuteKeyAt t a \<noteq> ?dk" "dayKeyAt t a \<noteq> ?mk" "dayKeyAt t a \<noteq> ?dk" for t
    using ne minuteKeyAt_inj[of t a] dayKeyAt_inj[of t a]
      minute_day_key_distinct_any[of t a] minute_day_key_distinct_any[of _ b t a]
    by metis+
  have o: "\<forall>t. ?cs' (minuteKeyAt t a) = counters s (minuteKeyAt t a)
                \<and> ?cs' (dayKeyAt t a) = counters s (dayKeyAt t a)"
    using d by simp
  from run p o show ?thesis by blast
qed

text \<open>The invariant of a sequence of calls within the minute \<open>mn\<close>, for the credential \<open>a\<close>
  whose two buckets have the counts \<open>cm\<close> and \<open>cd\<close>.\<close>

lemma checkRateLimit_calls_in_minute:
  assumes "no_faults s" "counters_positive (counters s)" "\<forall>n. clock s n div 60000 = mn"
    "bucket_is ((mn + 1) * 60000) (counters s) (minuteKeyAt (mn * 60000) a) cm"
    "bucket_is ((mn + 1) * 60000) (counters s) (dayKeyAt (mn * 60000) a) cd"
  shows "\<exists>s'. checkRateLimit_calls calls s = (Inr (), s')
       \<and> no_faults s' \<and> counters_positive (counters s') \<and> clock s' = clock s
       \<and> bucket_is ((mn + 1) * 60000) (counters s') (minuteKeyAt (mn * 60000) a)
            (cm + int (length (filter (\<lambda>c. fst c = a) calls)))
       \<and> bucket_is ((mn + 1) * 60000) (counters s') (dayKeyAt (mn * 60000) a)
            (cd + int (length (filter (\<lambda>c. fst c = a) calls)))"
  using assms
proof (induction calls arbitrary: s cm cd)
  case Nil
  then show ?case by (simp add: io_return_def)
next
  case (Cons c calls)
  obtain b ml dl where c: "c = (b, ml, dl)" by (cases c)
  from Cons.prems(1) have nf: "\<not> fault s (cmds s)" by (simp add: no_faults_def)
  show ?case
  proof (cases "b = a")
    case True
    from checkRateLimit_in_minute[OF nf Cons.prems(2,3,4,5), of ml dl]
    obtain cs' where st: "checkRateLimit a ml dl s =
           (Inr \<lparr>minuteCount = cm + 1, dayCount = cd + 1, isOverLimit = (number_less ml (Finite (of_int (cm + 1)))
                                \<or> number_less dl (Finite (of_int (cd + 1))))\<rparr>,
            s\<lparr>ticks := Suc (Suc (Suc (ticks s))), cmds := Suc (cmds s), counters := cs'\<rparr>)"
      and b: "bucket_is ((mn + 1) * 60000) cs' (minuteKeyAt (mn * 60000) a) (cm + 1)"
         "bucket_is ((mn + 1) * 60000) cs' (dayKeyAt (mn * 60000) a) (cd + 1)"
      and p: "counters_positive cs'" by blast
    let ?s1 = "s\<lparr>ticks := Suc (Suc (Suc (ticks s))), cmds := Suc (cmds s), counters := cs'\<rparr>"
    have "\<exists>s'. checkRateLimit_calls calls ?s1 = (Inr (), s')
       \<and> no_faults s' \<and> counters_positive (counters s') \<and> clock s' = clock ?s1
       \<and> bucket_is ((mn + 1) * 60000) (counters s') (minuteKeyAt (mn * 60000) a)
            (cm + 1 + int (length (filter (\<lambda>c. fst c = a) calls)))
       \<and> bucket_is ((mn + 1) * 60000) (counters s') (dayKeyAt (mn * 60000) a)
            (cd + 1 + int (length (filter (\<lambda>c. fst c = a) calls)))"
      using Cons.prems(1,3) p b by (intro Cons.IH) (simp_all add: no_faults_def)
    then show ?thesis
      using st True c by (auto simp: io_bind_def ac_simps)
  next
    case False
    from checkRateLimit_other[OF nf Cons.prems(2) False, of ml dl]
    obtain r cs' where st: "checkRateLimit b ml dl s =
           (Inr r, s\<lparr>ticks := Suc (Suc (Suc (ticks s))), cmds := Suc (cmds s), counters := cs'\<rparr>)"
      and p: "counters_positive cs'"
      and o: "\<forall>t. cs' (minuteKeyAt t a) = counters s (minuteKeyAt t a)
                \<and> cs' (dayKeyAt t a) = counters s (dayKeyAt t a)" by blast
    let ?s1 = "s\<lparr>ticks := Suc (Suc (Suc (ticks s))), cmds := Suc (cmds s), counters := cs'\<rparr>"
    have b: "bucket_is ((mn + 1) * 60000) cs' (minuteKeyAt (mn * 60000) a) cm"
         "bucket_is ((mn + 1) * 60000) cs' (dayKeyAt (mn * 60000) a) cd"
      using Cons.prems(4,5) o by (simp_all add: bucket_is_def)
    have "\<exists>s'. checkRateLimit_calls calls ?s1 = (Inr (), s')
       \<and> no_faults s' \<and> counters_positive (counters s') \<and> clock s' = clock ?s1
       \<and> bucket_is ((mn + 1) * 60000) (counters s') (minuteKeyAt (mn * 60000) a)
            (cm + int (length (filter (\<lambda>c. fst c = a) calls)))
       \<and> bucket_is ((mn + 1) * 60000) (counters s') (dayKeyAt (mn * 60000) a)
            (cd + int (length (filter (\<lambda>c. fst c = a) calls)))"
      using Cons.prems(1,3) p b by (intro Cons.IH) (simp_all add: no_faults_def)
    then show ?thesis
      using st False c by (auto simp: io_bind_def)
  qed
qed

lemma getCurrentUsage_eq:
  assumes "\<not> fault s (cmds s)" "\<not> fault s (Suc (cmds s))"
  shows "getCurrentUsage a s =
     (Inr (count_at (clock s (Suc (Suc (ticks s)))) (counters s) (minuteKeyAt (clock s (ticks s)) a),
           count_at (clock s (Suc (Suc (Suc (ticks s))))) (counters s) (dayKeyAt (clock s (Suc (ticks s))) a)),
      s\<lparr>ticks := Suc (Suc (Suc (Suc (ticks s)))), cmds := Suc (Suc (cmds s))\<rparr>)"
  using assms
  by (simp add: getCurrentUsage_def io_bind_def getMinuteKey_eq getDayKey_eq Promise_all2_def
      redis_get_counter_def redis_call_def io_return_def count_at_def
      split: option.splits prod.splits)

lemma getCurrentUsage_Inr_no_fault:
  "getCurrentUsage a s = (Inr r, s') \<Longrightarrow> \<not> fault s (cmds s) \<and> \<not> fault s (Suc (cmds s))"
  by (auto simp: getCurrentUsage_def io_bind_def getMinuteKey_eq getDayKey_eq Promise_all2_def
      redis_get_counter_def redis_call_def io_return_def
      split: option.splits prod.splits if_splits sum.splits)


lemma clock_world0_minute: "clock world0 n div 60000 = 29368800"
proof -
  have "clock world0 n = min n 59999 + 29368800 * 60000" by (simp add: world0_fields)
  then show ?thesis by simp
qed

section \<open>Claim C6\<close>

text \<open>
  Claim C6.  \<open>getCurrentUsage\<close> leaves every counter key as it was, whatever it returns.
  What it returns are the counts that a \<^verbatim>\<open>GET\<close> of the minute key and of the day key
  sees: the stored count of a key that is there, zero for a key that is absent or has
  expired.  After a sequence of calls of the counter store within one minute, for any
  credentials, of which \<open>K\<close> are for the credential and start from buckets never written,
  it returns \<open>K\<close> for both.
\<close>

theorem getCurrentUsage_reads_counts:
  "counters (snd (getCurrentUsage apiKey s)) = counters s
   \<and> (getCurrentUsage apiKey s = (Inr (m, d), s') \<longrightarrow>
        m = count_at (clock s (ticks s + 2)) (counters s) (minuteKeyAt (clock s (ticks s)) apiKey)
      \<and> d = count_at (clock s (ticks s + 3)) (counters s) (dayKeyAt (clock s (ticks s + 1)) apiKey)
      \<and> (\<not> present_at (clock s (ticks s + 2)) (counters s) (minuteKeyAt (clock s (ticks s)) apiKey)
           \<longrightarrow> m = 0)
      \<and> (\<not> present_at (clock s (ticks s + 3)) (counters s) (dayKeyAt (clock s (ticks s + 1)) apiKey)
           \<longrightarrow> d = 0))
   \<and> (no_faults s \<and> counters_positive (counters s) \<and> (\<forall>n. clock s n div 60000 = mn)
        \<and> counters s (minuteKeyAt (mn * 60000) apiKey) = None
        \<and> counters s (dayKeyAt (mn * 60000) apiKey) = None \<longrightarrow>
        (\<exists>s1 s2. checkRateLimit_calls calls s = (Inr (), s1)
           \<and> getCurrentUsage apiKey s1 =
                (Inr (int (length (filter (\<lambda>c. fst c = apiKey) calls)),
                      int (length (filter (\<lambda>c. fst c = apiKey) calls))), s2)))"
proof (intro conjI impI)
  have "keeps counters (getCurrentUsage apiKey)"
    by (rule keeps_getCurrentUsage) (simp add: plain_fields)
  then show "counters (snd (getCurrentUsage apiKey s)) = counters s"
    by (simp add: keeps_def)
next
  assume run: "getCurrentUsage apiKey s = (Inr (m, d), s')"
  from getCurrentUsage_Inr_no_fault[OF run]
  have nf: "\<not> fault s (cmds s)" "\<not> fault s (Suc (cmds s))" by simp_all
  from run show
    m: "m = count_at (clock s (ticks s + 2)) (counters s) (minuteKeyAt (clock s (ticks s)) apiKey)"
    and d: "d = count_at (clock s (ticks s + 3)) (counters s) (dayKeyAt (clock s (ticks s + 1)) apiKey)"
    unfolding getCurrentUsage_eq[OF nf] by (simp_all add: numeral_2_eq_2 numeral_3_eq_3)
  show "m = 0"
    if "\<not> present_at (clock s (ticks s + 2)) (counters s) (minuteKeyAt (clock s (ticks s)) apiKey)"
    using that m by (auto simp: present_at_def count_at_def split: option.splits)
  show "d = 0"
    if "\<not> present_at (clock s (ticks s + 3)) (counters s) (dayKeyAt (clock s (ticks s + 1)) apiKey)"
    using that d by (auto simp: present_at_def count_at_def split: option.splits)
next
  assume h: "no_faults s \<and> counters_positive (counters s) \<and> (\<forall>n. clock s n div 60000 = mn)
        \<and> counters s (minuteKeyAt (mn * 60000) apiKey) = None
        \<and> counters s (dayKeyAt (mn * 60000) apiKey) = None"
  let ?K = "int (length (filter (\<lambda>c. fst c = apiKey) calls))"
  let ?h = "(mn + 1) * 60000"
  have b0: "bucket_is ?h (counters s) (minuteKeyAt (mn * 60000) apiKey) 0"
      "bucket_is ?h (counters s) (dayKeyAt (mn * 60000) apiKey) 0"
    using h by (simp_all add: bucket_is_def)
  from checkRateLimit_calls_in_minute[OF _ _ _ b0, of calls] h
  obtain s1 where s1: "checkRateLimit_calls calls s = (Inr (), s1)"
      "no_faults s1" "clock s1 = clock s"
      "bucket_is ?h (counters s1) (minuteKeyAt (mn * 60000) apiKey) ?K"
      "bucket_is ?h (counters s1) (dayKeyAt (mn * 60000) apiKey) ?K"
    by auto
  have clk: "clock s1 n div 60000 = mn" for n using h s1(3) by simp
  have rep: "(mn * 60000) div 60000 = mn" by simp
  have mk: "minuteKeyAt (clock s1 (ticks s1)) apiKey = minuteKeyAt (mn * 60000) apiKey"
    by (rule same_minute_keys) (simp add: clk rep)
  have dk: "dayKeyAt (clock s1 (Suc (ticks s1))) apiKey = dayKeyAt (mn * 60000) apiKey"
    by (rule same_minute_keys) (simp add: clk rep)
  have t: "clock s1 n < ?h" for n
    using in_minute_bounds(2)[OF clk[of n]] .
  have nf: "\<not> fault s1 (cmds s1)" "\<not> fault s1 (Suc (cmds s1))"
    using s1(2) by (simp_all add: no_faults_def)
  have "getCurrentUsage apiKey s1 =
      (Inr (?K, ?K), s1\<lparr>ticks := Suc (Suc (Suc (Suc (ticks s1)))), cmds := Suc (Suc (cmds s1))\<rparr>)"
    unfolding getCurrentUsage_eq[OF nf] mk dk
    using bucket_is_count(1)[OF s1(4) t] bucket_is_count(1)[OF s1(5) t] by simp
  with s1(1) show "\<exists>s1 s2. checkRateLimit_calls calls s = (Inr (), s1)
           \<and> getCurrentUsage apiKey s1 = (Inr (?K, ?K), s2)"
    by blast
qed

theorem getCurrentUsage_reads_counts_witness:
  "(\<exists>s'. getCurrentUsage ''sk_demo'' world0 = (Inr (0, 0), s') \<and> counters s' = counters world0)
   \<and> (\<exists>s1 s2. checkRateLimit_calls
          [(''sk_demo'', Finite 1200, Finite 1728000), (''sk_other'', Finite 60, Finite 5000), (''sk_demo'', Finite 1200, Finite 1728000),
           (''sk_demo'', Finite 1200, Finite 1728000)] world0 = (Inr (), s1)
        \<and> getCurrentUsage ''sk_demo'' s1 = (Inr (3, 3), s2))"
proof -
  note inst = getCurrentUsage_reads_counts[where apiKey="''sk_demo''" and s=world0 and mn=29368800
      and calls="[(''sk_demo'', Finite 1200, Finite 1728000), (''sk_other'', Finite 60, Finite 5000), (''sk_demo'', Finite 1200, Finite 1728000),
           (''sk_demo'', Finite 1200, Finite 1728000)]"]
  have nf: "\<not> fault world0 (cmds world0)" "\<not> fault world0 (Suc (cmds world0))"
    by (simp_all add: world0_fields)
  have c0: "count_at t (counters world0) k = 0" for t k
    by (simp add: count_at_def world0_fields)
  have run: "getCurrentUsage ''sk_demo'' world0 =
      (Inr (0, 0), world0\<lparr>ticks := Suc (Suc (Suc (Suc (ticks world0)))), cmds := Suc (Suc (cmds world0))\<rparr>)"
    unfolding getCurrentUsage_eq[OF nf] c0 ..
  from inst[THEN conjunct1] run
  have a: "\<exists>s'. getCurrentUsage ''sk_demo'' world0 = (Inr (0, 0), s') \<and> counters s' = counters world0"
    by simp
  have hyp: "no_faults world0 \<and> counters_positive (counters world0)
        \<and> (\<forall>n. clock world0 n div 60000 = 29368800)
        \<and> counters world0 (minuteKeyAt (29368800 * 60000) ''sk_demo'') = None
        \<and> counters world0 (dayKeyAt (29368800 * 60000) ''sk_demo'') = None"
  proof -
    have 1: "no_faults world0" by (simp add: no_faults_def world0_fields)
    have 2: "\<forall>n. clock world0 n div 60000 = 29368800" using clock_world0_minute by blast
    have 3: "counters world0 k = None" for k by (simp add: world0_fields)
    from 1 counters_positive_world0 2 3 show ?thesis by blast
  qed
  from inst[THEN conjunct2, THEN conjunct2, THEN mp, OF hyp]
  have b: "\<exists>s1 s2. checkRateLimit_calls
          [(''sk_demo'', Finite 1200, Finite 1728000), (''sk_other'', Finite 60, Finite 5000), (''sk_demo'', Finite 1200, Finite 1728000),
           (''sk_demo'', Finite 1200, Finite 1728000)] world0 = (Inr (), s1)
        \<and> getCurrentUsage ''sk_demo'' s1 = (Inr (3, 3), s2)"
    by simp
  from a b show ?thesis by blast
qed


section \<open>The lookup of a credential by its secret\<close>


lemma findInCache_spec:
  assumes "findInCache v s = (r, s')"
  shows "\<exists>x. r = Inr x
     \<and> metadata s' = metadata s \<and> tiersStore s' = tiersStore s
     \<and> apikey_hashes s' = apikey_hashes s \<and> apikeys_all s' = apikeys_all s
     \<and> fault s' = fault s \<and> clock s' = clock s
     \<and> (x = None \<longrightarrow> apiKeysStore s' = apiKeysStore s \<and> apiKeysByHash s' = apiKeysByHash s)
     \<and> (\<forall>k. x = Some k \<longrightarrow>
           (\<exists>c e k0. metadata s (getMetadataKey v) = Some (c, e) \<and> k_apiKey k0 = v
              \<and> k = updateApiKeyWithCurrentTierLimits (tiersStore s) k0
              \<and> (map_of (apiKeysStore s) (m_id c) = Some k0
                    \<and> apiKeysStore s' = AList.update (m_id c) k (apiKeysStore s)
                    \<and> apiKeysByHash s' = apiKeysByHash s
                  \<or> map_of (apiKeysStore s) (m_id c) = None
                    \<and> stored_at s (API_KEY_PREFIX @ m_id c) = Some k0
                    \<and> apiKeysStore s' = AList.update (k_id k) k (apiKeysStore s)
                    \<and> apiKeysByHash s' = AList.update (k_apiKeyHash k) (k_id k) (apiKeysByHash s))))"
  using assms
  by (auto simp: findInCache_def io_defs getCachedMetadata_def getStoredApiKey_eq Let_def
      split: option.splits if_splits prod.splits sum.splits)


lemma findInMemory_spec:
  assumes "findInMemory v s = (r, s')"
  shows "tiersStore s' = tiersStore s \<and> apikey_hashes s' = apikey_hashes s
     \<and> apikeys_all s' = apikeys_all s \<and> apiKeysByHash s' = apiKeysByHash s
     \<and> fault s' = fault s \<and> clock s' = clock s
     \<and> (case find (\<lambda>(i, key). k_apiKey key = v) (apiKeysStore s) of
           None \<Rightarrow> r = Inr None \<and> s' = s
         | Some (i, k0) \<Rightarrow>
             r = Inr (Some (updateApiKeyWithCurrentTierLimits (tiersStore s) k0))
           \<and> apiKeysStore s' =
                AList.update i (updateApiKeyWithCurrentTierLimits (tiersStore s) k0) (apiKeysStore s)
           \<and> (metadata s' = metadata s
                \<or> (\<exists>e. metadata s' = (metadata s)(getMetadataKey v \<mapsto>
                      (JSON_metadata (metadataOf (updateApiKeyWithCurrentTierLimits (tiersStore s) k0)), e)))))"
  using assms
  by (auto simp: findInMemory_def io_defs cacheMetadata_def Let_def
      split: option.splits if_splits prod.splits sum.splits)

lemma getStoredApiKeys_spec:
  "getStoredApiKeys ids acc s = (r, s') \<Longrightarrow>
     s' = s\<lparr>cmds := cmds s', ticks := ticks s'\<rparr>
   \<and> (\<forall>ks. r = Inr ks \<longrightarrow>
         (\<forall>k\<in>set ks. k \<in> set acc \<or> (\<exists>i\<in>set ids. stored_at s (API_KEY_PREFIX @ i) = Some k)))"
proof (induction ids arbitrary: acc s)
  case Nil
  then show ?case
    by (auto simp: io_return_def)
next
  case (Cons ident ids)
  show ?case
  proof (cases "fault s (cmds s)")
    case True
    with Cons.prems show ?thesis
      by (auto simp: io_bind_def getStoredApiKey_eq redis_call_def)
  next
    case False
    let ?s1 = "s\<lparr>cmds := Suc (cmds s), ticks := Suc (ticks s)\<rparr>"
    let ?acc = "case stored_at s (API_KEY_PREFIX @ ident) of Some k \<Rightarrow> acc @ [k] | None \<Rightarrow> acc"
    from Cons.prems False have rest: "getStoredApiKeys ids ?acc ?s1 = (r, s')"
      by (auto simp: io_bind_def getStoredApiKey_eq redis_call_def split: option.splits)
    from Cons.IH[OF rest] have s': "s' = ?s1\<lparr>cmds := cmds s', ticks := ticks s'\<rparr>"
      and ks: "\<forall>ks. r = Inr ks \<longrightarrow>
         (\<forall>k\<in>set ks. k \<in> set ?acc \<or> (\<exists>i\<in>set ids. stored_at ?s1 (API_KEY_PREFIX @ i) = Some k))"
      by blast+
    from s' have "s' = s\<lparr>cmds := cmds s', ticks := ticks s'\<rparr>" by simp
    moreover from ks have "\<forall>ks. r = Inr ks \<longrightarrow>
         (\<forall>k\<in>set ks. k \<in> set acc \<or> (\<exists>i\<in>set (ident # ids). stored_at s (API_KEY_PREFIX @ i) = Some k))"
      by (auto split: option.splits)
    ultimately show ?thesis by blast
  qed
qed

lemma findStoredApiKeyByValue_spec:
  assumes "findStoredApiKeyByValue v s = (r, s')"
  shows "s' = s\<lparr>cmds := cmds s', ticks := ticks s'\<rparr>
     \<and> (\<forall>k. r = Inr (Some k) \<longrightarrow> k_apiKey k = v \<and> (\<exists>i. stored_at s (API_KEY_PREFIX @ i) = Some k))"
proof (cases "fault s (cmds s)")
  case True
  with assms show ?thesis
    by (auto simp: findStoredApiKeyByValue_def getAllStoredApiKeys_def io_bind_def redis_call_def)
next
  case False
  let ?s1 = "s\<lparr>cmds := Suc (cmds s), ticks := Suc (ticks s)\<rparr>"
  show ?thesis
  proof (cases "apikeys_all s = []")
    case True
    with assms False show ?thesis
      by (auto simp: findStoredApiKeyByValue_def getAllStoredApiKeys_def io_bind_def redis_call_def
          io_return_def)
  next
    case ne: False
    obtain r1 s1 where g: "getStoredApiKeys (apikeys_all s) [] ?s1 = (r1, s1)"
      by (cases "getStoredApiKeys (apikeys_all s) [] ?s1")
    from getStoredApiKeys_spec[OF g] have s1: "s1 = ?s1\<lparr>cmds := cmds s1, ticks := ticks s1\<rparr>"
      and ks: "\<forall>ks. r1 = Inr ks \<longrightarrow>
         (\<forall>k\<in>set ks. \<exists>i\<in>set (apikeys_all s). stored_at s (API_KEY_PREFIX @ i) = Some k)"
      by auto
    from assms False ne g have r: "s' = s1"
        "r = (case r1 of Inl e \<Rightarrow> Inl e | Inr ks \<Rightarrow> Inr (find (\<lambda>k. k_apiKey k = v) ks))"
      by (auto simp: findStoredApiKeyByValue_def getAllStoredApiKeys_def io_bind_def redis_call_def
          io_return_def split: sum.splits)
    have "\<forall>k. r = Inr (Some k) \<longrightarrow> k_apiKey k = v \<and> (\<exists>i. stored_at s (API_KEY_PREFIX @ i) = Some k)"
    proof (intro allI impI)
      fix k assume "r = Inr (Some k)"
      with r(2) obtain ks where "r1 = Inr ks" "find (\<lambda>k. k_apiKey k = v) ks = Some k"
        by (auto split: sum.splits)
      then have "k_apiKey k = v" "k \<in> set ks"
        by (auto simp: find_Some_iff)
      with ks \<open>r1 = Inr ks\<close> show "k_apiKey k = v \<and> (\<exists>i. stored_at s (API_KEY_PREFIX @ i) = Some k)"
        by blast
    qed
    moreover from s1 r(1) have "s' = s\<lparr>cmds := cmds s', ticks := ticks s'\<rparr>" by simp
    ultimately show ?thesis by blast
  qed
qed


lemma findInRedis_spec:
  assumes "findInRedis v s = (r, s')"
  shows "\<exists>x. r = Inr x
     \<and> tiersStore s' = tiersStore s \<and> apikey_hashes s' = apikey_hashes s
     \<and> apikeys_all s' = apikeys_all s \<and> fault s' = fault s \<and> clock s' = clock s
     \<and> (\<forall>k. x = Some k \<longrightarrow>
           (\<exists>k0 i e. stored_at s (API_KEY_PREFIX @ i) = Some k0 \<and> k_apiKey k0 = v
              \<and> k = updateApiKeyWithCurrentTierLimits (tiersStore s) k0
              \<and> apiKeysStore s' = AList.update (k_id k) k (apiKeysStore s)
              \<and> apiKeysByHash s' = AList.update (k_apiKeyHash k) (k_id k) (apiKeysByHash s)
              \<and> metadata s' = (metadata s)(getMetadataKey v \<mapsto> (JSON_metadata (metadataOf k), e))))
     \<and> ((\<forall>i k0. apikey_hashes s (API_KEY_PREFIX @ i) = Some k0 \<longrightarrow> k_apiKey k0 \<noteq> v) \<longrightarrow>
           x = None \<and> metadata s' = metadata s \<and> apiKeysStore s' = apiKeysStore s
         \<and> apiKeysByHash s' = apiKeysByHash s)"
proof -
  obtain r1 s1 where g: "findStoredApiKeyByValue v s = (r1, s1)"
    by (cases "findStoredApiKeyByValue v s")
  from findStoredApiKeyByValue_spec[OF g]
  have s1: "s1 = s\<lparr>cmds := cmds s1, ticks := ticks s1\<rparr>"
    and k: "\<forall>k. r1 = Inr (Some k) \<longrightarrow> k_apiKey k = v \<and> (\<exists>i. stored_at s (API_KEY_PREFIX @ i) = Some k)"
    by blast+
  have f1: "tiersStore s1 = tiersStore s" "apikey_hashes s1 = apikey_hashes s"
    "apikeys_all s1 = apikeys_all s" "fault s1 = fault s" "clock s1 = clock s"
    "metadata s1 = metadata s" "apiKeysStore s1 = apiKeysStore s" "apiKeysByHash s1 = apiKeysByHash s"
    by (subst s1, simp)+
  show ?thesis
  proof (cases r1)
    case (Inl e)
    with assms g f1 show ?thesis
      by (auto simp: findInRedis_def io_catch_def io_bind_def io_return_def)
  next
    case (Inr x1)
    show ?thesis
    proof (cases x1)
      case None
      with Inr assms g f1 show ?thesis
        by (auto simp: findInRedis_def io_catch_def io_bind_def io_return_def)
    next
      case (Some k0)
      with Inr k have k0: "k_apiKey k0 = v" "\<exists>i. stored_at s (API_KEY_PREFIX @ i) = Some k0"
        by auto
      let ?k = "updateApiKeyWithCurrentTierLimits (tiersStore s) k0"
      from k0(2) obtain i where i: "stored_at s (API_KEY_PREFIX @ i) = Some k0" by blast
      have not_absent: "\<not> (\<forall>i k0. apikey_hashes s (API_KEY_PREFIX @ i) = Some k0 \<longrightarrow> k_apiKey k0 \<noteq> v)"
      proof -
        from stored_at_SomeD[OF i] obtain d where d: "apikey_hashes s (API_KEY_PREFIX @ i) = Some d"
          "k0 = fromHash d" by blast
        from d(2) k0(1) have "k_apiKey d = v" by simp
        with d(1) show ?thesis by blast
      qed
      have run: "findInRedis v s =
          (case cacheMetadata v (metadataOf ?k)
                  (s1\<lparr>apiKeysStore := AList.update (k_id ?k) ?k (apiKeysStore s),
                      apiKeysByHash := AList.update (k_apiKeyHash ?k) (k_id ?k) (apiKeysByHash s)\<rparr>) of
             (Inl e, s2) \<Rightarrow> (Inr None, s2)
           | (Inr u, s2) \<Rightarrow> (Inr (Some ?k), s2))"
        using Some Inr g f1
        by (simp add: findInRedis_def io_catch_def io_bind_def io_return_def io_get_def io_modify_def
            Let_def split: prod.splits sum.splits)
      show ?thesis
      proof (cases "fault s1 (cmds s1)")
        case True
        with run assms f1 not_absent show ?thesis
          by (auto simp: cacheMetadata_def redis_call_def Let_def)
      next
        case False
        with run assms have r: "r = Inr (Some ?k)"
          and s': "s' = s1\<lparr>apiKeysStore := AList.update (k_id ?k) ?k (apiKeysStore s),
                      apiKeysByHash := AList.update (k_apiKeyHash ?k) (k_id ?k) (apiKeysByHash s),
                      cmds := Suc (cmds s1), ticks := Suc (ticks s1),
                      metadata := (metadata s1)(getMetadataKey v \<mapsto>
                         (JSON_metadata (metadataOf ?k), clock s1 (ticks s1) + 24 * 60 * 60 * 1000))\<rparr>"
          by (auto simp: cacheMetadata_def redis_call_def Let_def)
        from s' f1 have fr: "tiersStore s' = tiersStore s" "apikey_hashes s' = apikey_hashes s"
          "apikeys_all s' = apikeys_all s" "fault s' = fault s" "clock s' = clock s"
          "apiKeysStore s' = AList.update (k_id ?k) ?k (apiKeysStore s)"
          "apiKeysByHash s' = AList.update (k_apiKeyHash ?k) (k_id ?k) (apiKeysByHash s)"
          "metadata s' = (metadata s)(getMetadataKey v \<mapsto>
                         (JSON_metadata (metadataOf ?k), clock s1 (ticks s1) + 24 * 60 * 60 * 1000))"
          by simp_all
        from r fr i k0(1) not_absent show ?thesis by blast
      qed
    qed
  qed
qed


lemma findApiKeyByValue_unfold:
  "findApiKeyByValue v s =
     (case findInCache v s of
        (Inl e, s1) \<Rightarrow> (Inl e, s1)
      | (Inr (Some k), s1) \<Rightarrow> (Inr (Some k), s1)
      | (Inr None, s1) \<Rightarrow>
          (case findInMemory v s1 of
             (Inl e, s2) \<Rightarrow> (Inl e, s2)
           | (Inr (Some k), s2) \<Rightarrow> (Inr (Some k), s2)
           | (Inr None, s2) \<Rightarrow> findInRedis v s2))"
  by (simp add: findApiKeyByValue_def io_bind_def io_return_def
      split: prod.splits sum.splits option.splits)

lemma find_SomeD: "find P xs = Some x \<Longrightarrow> P x \<and> x \<in> set xs"
  by (auto simp: find_Some_iff)

text \<open>The lookup never throws; what it returns has the secret that was asked for and the
  limits of its tier, as far as the tier is in the registry.\<close>

lemma findApiKeyByValue_result:
  assumes "findApiKeyByValue v s = (r, s')"
  shows "\<exists>x. r = Inr x \<and> tiersStore s' = tiersStore s
     \<and> (\<forall>k. x = Some k \<longrightarrow>
           (\<exists>k0. k_apiKey k0 = v \<and> k = updateApiKeyWithCurrentTierLimits (tiersStore s) k0))"
proof -
  obtain r1 s1 where p1: "findInCache v s = (r1, s1)" by (cases "findInCache v s")
  from findInCache_spec[OF p1] obtain x1 where x1: "r1 = Inr x1" "tiersStore s1 = tiersStore s"
    "\<forall>k. x1 = Some k \<longrightarrow> (\<exists>k0. k_apiKey k0 = v \<and> k = updateApiKeyWithCurrentTierLimits (tiersStore s) k0)"
    by blast
  show ?thesis
  proof (cases x1)
    case (Some k)
    with assms p1 x1 show ?thesis by (auto simp: findApiKeyByValue_unfold)
  next
    case None
    obtain r2 s2 where p2: "findInMemory v s1 = (r2, s2)" by (cases "findInMemory v s1")
    note sp2 = findInMemory_spec[OF p2]
    show ?thesis
    proof (cases "find (\<lambda>(i, key). k_apiKey key = v) (apiKeysStore s1)")
      case (Some p)
      obtain i k0 where p: "p = (i, k0)" by (cases p)
      from find_SomeD[OF Some] p have "k_apiKey k0 = v" by simp
      with sp2 Some p assms p1 x1 None p2 show ?thesis
        by (auto simp: findApiKeyByValue_unfold)
    next
      case nf: None
      with sp2 have r2: "r2 = Inr None" "s2 = s1" by simp_all
      from assms p1 x1 None p2 r2 have p3: "findInRedis v s1 = (r, s')"
        by (simp add: findApiKeyByValue_unfold)
      from findInRedis_spec[OF p3] obtain x where x: "r = Inr x" "tiersStore s' = tiersStore s1"
        "\<forall>k. x = Some k \<longrightarrow>
           (\<exists>k0. k_apiKey k0 = v \<and> k = updateApiKeyWithCurrentTierLimits (tiersStore s1) k0)"
        by blast
      with x1(2) show ?thesis by simp
    qed
  qed
qed

lemma findApiKeyByValue_limits:
  assumes "findApiKeyByValue v s = (Inr (Some k), s')" "map_of (tiersStore s) (k_tier k) = Some t"
  shows "k_apiKey k = v \<and> k_perMinute k = tier_perMinute (t_rateLimit t)
     \<and> k_perDay k = tier_perDay (t_rateLimit t)"
proof -
  from findApiKeyByValue_result[OF assms(1)] obtain k0 where
    k0: "k_apiKey k0 = v" "k = updateApiKeyWithCurrentTierLimits (tiersStore s) k0" by auto
  from k0(2) assms(2) have "map_of (tiersStore s) (k_tier k0) = Some t"
    by (simp add: updateApiKeyWithCurrentTierLimits_fields)
  from updateApiKeyWithCurrentTierLimits_Some[OF this] k0 show ?thesis
    by (simp add: updateApiKeyWithCurrentTierLimits_fields)
qed

text \<open>A credential that is in memory is found, whatever the store does.\<close>

lemma findApiKeyByValue_memory_hit:
  assumes "\<exists>p\<in>set (apiKeysStore s). k_apiKey (snd p) = v" "findApiKeyByValue v s = (r, s')"
  shows "\<exists>k. r = Inr (Some k)"
proof -
  obtain r1 s1 where p1: "findInCache v s = (r1, s1)" by (cases "findInCache v s")
  from findInCache_spec[OF p1] obtain x1 where x1: "r1 = Inr x1"
    "x1 = None \<longrightarrow> apiKeysStore s1 = apiKeysStore s"
    by blast
  show ?thesis
  proof (cases x1)
    case (Some k)
    with assms p1 x1 show ?thesis by (auto simp: findApiKeyByValue_unfold)
  next
    case None
    obtain r2 s2 where p2: "findInMemory v s1 = (r2, s2)" by (cases "findInMemory v s1")
    note sp2 = findInMemory_spec[OF p2]
    from assms(1) x1(2) None have "\<exists>p\<in>set (apiKeysStore s1). (\<lambda>(i, key). k_apiKey key = v) p"
      by (auto split: prod.splits)
    then obtain p where "find (\<lambda>(i, key). k_apiKey key = v) (apiKeysStore s1) = Some p"
      by (cases "find (\<lambda>(i, key). k_apiKey key = v) (apiKeysStore s1)") (auto simp: find_None_iff)
    with sp2 assms p1 x1 None p2 show ?thesis
      by (cases p) (auto simp: findApiKeyByValue_unfold)
  qed
qed

lemma updateTier_Inr:
  assumes "updateTier tid updates s = (Inr (), s')"
  shows "\<exists>t0. map_of (tiersStore s) tid = Some t0
     \<and> tiersStore s' = AList.update tid (Object_assign t0 updates) (tiersStore s)
     \<and> tier_hashes s' (''tier:'' @ t_id (Object_assign t0 updates)) = Some (Object_assign t0 updates)
     \<and> apiKeysStore s' = apiKeysStore s \<and> metadata s' = metadata s
     \<and> apikey_hashes s' = apikey_hashes s"
  using assms
  by (auto simp: updateTier_def io_defs storeTier_def Let_def split: option.splits if_splits)

section \<open>Events\<close>

lemma xadd_cong:
  "streams a = streams b \<Longrightarrow> trim a = trim b \<Longrightarrow> streams (xadd k n ev a) = streams (xadd k n ev b)"
  by (simp add: xadd_def Let_def)

lemma xadd_trim: "trim (xadd k n ev a) = trim a"
  by (simp add: xadd_def Let_def)

lemma xadd_fields:
  "fault (xadd k n ev a) = fault a" "cmds (xadd k n ev a) = cmds a" "ticks (xadd k n ev a) = ticks a"
  "clock (xadd k n ev a) = clock a" "counters (xadd k n ev a) = counters a"
  "localTZA (xadd k n ev a) = localTZA a"
  by (simp_all add: xadd_def Let_def)

text \<open>\<open>addEvent\<close> returns normally exactly when neither of its two commands is rejected,
  and then both entries have been appended.\<close>

lemma addEvent_run:
  "addEvent ev a =
     (if fault a (cmds a) then (Inl RedisError, a\<lparr>cmds := Suc (cmds a)\<rparr>)
      else if fault a (Suc (cmds a))
        then (Inl RedisError,
              (xadd (getEventsStreamKey (e_apiKey ev)) 1000 ev
                 (a\<lparr>cmds := Suc (cmds a), ticks := Suc (ticks a)\<rparr>))\<lparr>cmds := Suc (Suc (cmds a))\<rparr>)
      else (Inr (),
            xadd getGlobalEventsStreamKey 10000 ev
              ((xadd (getEventsStreamKey (e_apiKey ev)) 1000 ev
                  (a\<lparr>cmds := Suc (cmds a), ticks := Suc (ticks a)\<rparr>))
               \<lparr>cmds := Suc (Suc (cmds a)), ticks := Suc (Suc (ticks a))\<rparr>)))"
  by (simp add: addEvent_def io_bind_def redis_call_def Let_def xadd_fields)

lemma addEvent_Inr:
  assumes "addEvent ev a = (Inr (), b)"
  shows "streams b = streams (xadd getGlobalEventsStreamKey 10000 ev (xadd (getEventsStreamKey (e_apiKey ev)) 1000 ev a))
       \<and> trim b = trim a"
proof -
  let ?K = "getEventsStreamKey (e_apiKey ev)" and ?G = getGlobalEventsStreamKey
  let ?a1 = "a\<lparr>cmds := Suc (cmds a), ticks := Suc (ticks a)\<rparr>"
  let ?x1 = "xadd ?K 1000 ev ?a1"
  let ?a2 = "?x1\<lparr>cmds := Suc (Suc (cmds a)), ticks := Suc (Suc (ticks a))\<rparr>"
  from assms have b: "b = xadd ?G 10000 ev ?a2"
    by (simp add: addEvent_run split: if_splits)
  have 1: "streams ?x1 = streams (xadd ?K 1000 ev a)"
    by (rule xadd_cong) simp_all
  have 2: "streams (xadd ?G 10000 ev ?a2) = streams (xadd ?G 10000 ev (xadd ?K 1000 ev a))"
    by (rule xadd_cong) (simp_all add: 1 xadd_trim)
  show ?thesis unfolding b using 2 by (simp add: xadd_trim)
qed

lemma addEvent_Inr_frame:
  assumes "addEvent ev a = (Inr (), b)"
  shows "\<not> fault a (cmds a)" "\<not> fault a (Suc (cmds a))" "fault b = fault a" "clock b = clock a"
    "counters b = counters a" "localTZA b = localTZA a" "cmds b = Suc (Suc (cmds a))"
    "ticks b = Suc (Suc (ticks a))"
  using assms by (auto simp: addEvent_run xadd_fields split: if_splits)

lemma addEvent_rejected:
  "fault a (cmds a) \<or> fault a (Suc (cmds a)) \<Longrightarrow> \<exists>b. addEvent ev a = (Inl RedisError, b)"
  by (auto simp: addEvent_run)

lemma addEvent_appends:
  assumes "addEvent ev a = (Inr (), b)" "streams a = streams s" "trim a = trim s"
  shows "streams b = streams (xadd getGlobalEventsStreamKey 10000 ev (xadd (getEventsStreamKey (e_apiKey ev)) 1000 ev s))"
proof -
  have "streams (xadd (getEventsStreamKey (e_apiKey ev)) 1000 ev a) = streams (xadd (getEventsStreamKey (e_apiKey ev)) 1000 ev s)"
    using assms(2,3) by (rule xadd_cong)
  then have "streams (xadd getGlobalEventsStreamKey 10000 ev (xadd (getEventsStreamKey (e_apiKey ev)) 1000 ev a))
     = streams (xadd getGlobalEventsStreamKey 10000 ev (xadd (getEventsStreamKey (e_apiKey ev)) 1000 ev s))"
    by (rule xadd_cong) (simp add: xadd_trim assms(3))
  with addEvent_Inr[OF assms(1)] show ?thesis by simp
qed

text \<open>What the steps of the flow before the call of \<open>addEvent\<close> leave as it was: the
  streams, and the environment.\<close>

lemma keeps_env:
  "keeps (\<lambda>s. (streams s, trim s, fault s, clock s, localTZA s)) ensureRedisConnected"
  "keeps (\<lambda>s. (streams s, trim s, fault s, clock s, localTZA s)) (findApiKeyByValue v)"
  "keeps (\<lambda>s. (streams s, trim s, fault s, clock s, localTZA s)) (checkRateLimit v ml dl)"
  "keeps (\<lambda>s. (streams s, trim s, fault s, clock s, localTZA s)) (updateLastSeen v)"
  by (rule keeps_ensureRedisConnected keeps_findApiKeyByValue keeps_checkRateLimit keeps_updateLastSeen;
      simp add: plain_def)+

lemma env_kept:
  "ensureRedisConnected a = (r1, b) \<Longrightarrow>
     streams b = streams a \<and> trim b = trim a \<and> fault b = fault a \<and> clock b = clock a \<and> localTZA b = localTZA a"
  "findApiKeyByValue v a = (r2, b) \<Longrightarrow>
     streams b = streams a \<and> trim b = trim a \<and> fault b = fault a \<and> clock b = clock a \<and> localTZA b = localTZA a"
  "checkRateLimit v ml dl a = (r3, b) \<Longrightarrow>
     streams b = streams a \<and> trim b = trim a \<and> fault b = fault a \<and> clock b = clock a \<and> localTZA b = localTZA a"
  "updateLastSeen v a = (r4, b) \<Longrightarrow>
     streams b = streams a \<and> trim b = trim a \<and> fault b = fault a \<and> clock b = clock a \<and> localTZA b = localTZA a"
  using keeps_env[THEN keepsD] by fastforce+

lemma io_bind_Date_now:
  "io_bind Date_now f s = f (clock s (ticks s)) (s\<lparr>ticks := Suc (ticks s)\<rparr>)"
  by (simp add: io_bind_def Date_now_def)

lemma io_bind_InrE:
  assumes "io_bind m f s = (Inr y, s'')"
  obtains x s' where "m s = (Inr x, s')" "f x s' = (Inr y, s'')"
  using assms by (auto simp: io_bind_def split: prod.splits sum.splits)

text \<open>The three ways in which the flow ends: a rejection that is logged, the rejection
  of a request over its limit, and the admission.\<close>

lemma reject_tail:
  assumes run: "io_bind Date_now (\<lambda>ts. io_bind Date_now (\<lambda>t1.
            io_bind (addEvent \<lparr>e_timestamp = ts, e_apiKey = who, e_endpoint = ep, e_status = st,
                               e_reason = rs, e_latencyMs = int t1 - int t0\<rparr>) (\<lambda>_. io_return vv))) a
          = (Inr v, s')"
  shows "v = vv \<and> (\<exists>ev. addEvent ev (a\<lparr>ticks := Suc (Suc (ticks a))\<rparr>) = (Inr (), s')
      \<and> e_apiKey ev = who \<and> e_endpoint ev = ep \<and> e_status ev = st \<and> e_reason ev = rs)"
proof -
  let ?ev = "\<lparr>e_timestamp = clock a (ticks a), e_apiKey = who, e_endpoint = ep, e_status = st,
             e_reason = rs, e_latencyMs = int (clock a (Suc (ticks a))) - int t0\<rparr>"
  let ?a2 = "a\<lparr>ticks := Suc (Suc (ticks a))\<rparr>"
  from run have "io_bind (addEvent ?ev) (\<lambda>_. io_return vv) ?a2 = (Inr v, s')"
    by (simp add: io_bind_Date_now)
  then obtain u where ae: "addEvent ?ev ?a2 = (Inr u, s')" and v: "v = vv"
    by (auto elim!: io_bind_InrE simp: io_return_def)
  from ae have "addEvent ?ev ?a2 = (Inr (), s')" by simp
  then have "\<exists>ev. addEvent ev ?a2 = (Inr (), s')
      \<and> e_apiKey ev = who \<and> e_endpoint ev = ep \<and> e_status ev = st \<and> e_reason ev = rs"
    by (intro exI[of _ ?ev]) simp
  with v show ?thesis by blast
qed

lemma over_limit_tail:
  assumes run: "io_bind Date_now (\<lambda>ts.
            io_bind (addEvent \<lparr>e_timestamp = ts, e_apiKey = who, e_endpoint = ep, e_status = st,
                               e_reason = rs, e_latencyMs = lat\<rparr>) (\<lambda>_.
            io_bind Date_now (\<lambda>now.
            io_bind (io_get localTZA) (\<lambda>tza.
              let retryAfter = ceil_div_1000 (nextMinute tza (int now) - int now)
              in io_return (Rejected reason retryAfter))))) a
          = (Inr v, s')"
  shows "\<exists>ev b. addEvent ev (a\<lparr>ticks := Suc (ticks a)\<rparr>) = (Inr (), b)
      \<and> e_apiKey ev = who \<and> e_endpoint ev = ep \<and> e_status ev = st \<and> e_reason ev = rs
      \<and> s' = b\<lparr>ticks := Suc (ticks b)\<rparr>
      \<and> v = Rejected reason
              (ceil_div_1000 (nextMinute (localTZA b) (int (clock b (ticks b))) - int (clock b (ticks b))))"
proof -
  let ?ev = "\<lparr>e_timestamp = clock a (ticks a), e_apiKey = who, e_endpoint = ep, e_status = st,
             e_reason = rs, e_latencyMs = lat\<rparr>"
  let ?a1 = "a\<lparr>ticks := Suc (ticks a)\<rparr>"
  from run have "io_bind (addEvent ?ev) (\<lambda>_.
            io_bind Date_now (\<lambda>now.
            io_bind (io_get localTZA) (\<lambda>tza.
              let retryAfter = ceil_div_1000 (nextMinute tza (int now) - int now)
              in io_return (Rejected reason retryAfter)))) ?a1 = (Inr v, s')"
    by (simp add: io_bind_Date_now)
  then obtain u b where ae: "addEvent ?ev ?a1 = (Inr u, b)"
    and rest: "io_bind Date_now (\<lambda>now.
            io_bind (io_get localTZA) (\<lambda>tza.
              let retryAfter = ceil_div_1000 (nextMinute tza (int now) - int now)
              in io_return (Rejected reason retryAfter))) b = (Inr v, s')"
    by (rule io_bind_InrE)
  from rest have v: "v = Rejected reason
        (ceil_div_1000 (nextMinute (localTZA b) (int (clock b (ticks b))) - int (clock b (ticks b))))"
    and s': "s' = b\<lparr>ticks := Suc (ticks b)\<rparr>"
    by (simp_all add: Date_now_def Let_def io_return_def io_bind_def io_get_def)
  from ae have "addEvent ?ev ?a1 = (Inr (), b)" by simp
  then have "addEvent ?ev ?a1 = (Inr (), b)
      \<and> e_apiKey ?ev = who \<and> e_endpoint ?ev = ep \<and> e_status ?ev = st \<and> e_reason ?ev = rs"
    by simp
  with v s' show ?thesis by blast
qed

lemma allowed_tail:
  assumes run: "io_bind Date_now (\<lambda>ts.
            io_bind (addEvent \<lparr>e_timestamp = ts, e_apiKey = who, e_endpoint = ep, e_status = st,
                               e_reason = rs, e_latencyMs = lat\<rparr>) (\<lambda>_.
            io_bind (updateLastSeen w) (\<lambda>_. io_return vv))) a
          = (Inr v, s')"
  shows "v = vv
     \<and> (\<exists>ev b. addEvent ev (a\<lparr>ticks := Suc (ticks a)\<rparr>) = (Inr (), b)
          \<and> e_apiKey ev = who \<and> e_endpoint ev = ep \<and> e_status ev = st \<and> e_reason ev = rs
          \<and> updateLastSeen w b = (Inr (), s'))"
proof -
  let ?ev = "\<lparr>e_timestamp = clock a (ticks a), e_apiKey = who, e_endpoint = ep, e_status = st,
             e_reason = rs, e_latencyMs = lat\<rparr>"
  let ?a1 = "a\<lparr>ticks := Suc (ticks a)\<rparr>"
  from run have "io_bind (addEvent ?ev) (\<lambda>_.
            io_bind (updateLastSeen w) (\<lambda>_. io_return vv)) ?a1 = (Inr v, s')"
    by (simp add: io_bind_Date_now)
  then obtain u b where ae: "addEvent ?ev ?a1 = (Inr u, b)"
    and rest: "io_bind (updateLastSeen w) (\<lambda>_. io_return vv) b = (Inr v, s')"
    by (rule io_bind_InrE)
  from rest obtain u' where ls: "updateLastSeen w b = (Inr u', s')" and v: "v = vv"
    by (auto elim!: io_bind_InrE simp: io_return_def)
  from ae ls have "addEvent ?ev ?a1 = (Inr (), b)
      \<and> e_apiKey ?ev = who \<and> e_endpoint ?ev = ep \<and> e_status ?ev = st \<and> e_reason ?ev = rs
      \<and> updateLastSeen w b = (Inr (), s')"
    by simp
  with v show ?thesis by blast
qed

section \<open>The paths through the admission decision flow\<close>

text \<open>A run of the flow that returns a verdict has taken one of five paths.  Each case gives
  the calls that were made, in order, and what is left to run from the state they reached.\<close>

lemma rateLimitMiddleware_Inr_cases:
  assumes run: "rateLimitMiddleware header endpoint s = (Inr v, s')"
  obtains
    (missing) s1 where
      "ensureRedisConnected (s\<lparr>ticks := Suc (ticks s)\<rparr>) = (Inr (), s1)"
      "header = None \<or> header = Some []"
      "io_bind Date_now (\<lambda>ts. io_bind Date_now (\<lambda>t1.
         io_bind (addEvent \<lparr>e_timestamp = ts, e_apiKey = ''anonymous'', e_endpoint = endpoint,
                            e_status = 401, e_reason = ''Missing API key'',
                            e_latencyMs = int t1 - int (clock s (ticks s))\<rparr>) (\<lambda>_.
         io_return (Rejected ''Missing x-api-key header'' 60)))) s1 = (Inr v, s')"
  | (invalid) s1 apiKeyValue s2 where
      "ensureRedisConnected (s\<lparr>ticks := Suc (ticks s)\<rparr>) = (Inr (), s1)"
      "header = Some apiKeyValue" "apiKeyValue \<noteq> []"
      "findApiKeyByValue apiKeyValue s1 = (Inr None, s2)"
      "io_bind Date_now (\<lambda>ts. io_bind Date_now (\<lambda>t1.
         io_bind (addEvent \<lparr>e_timestamp = ts, e_apiKey = apiKeyValue, e_endpoint = endpoint,
                            e_status = 401, e_reason = ''Invalid API key'',
                            e_latencyMs = int t1 - int (clock s (ticks s))\<rparr>) (\<lambda>_.
         io_return (Rejected ''Invalid API key'' 60)))) s2 = (Inr v, s')"
  | (disabled) s1 apiKeyValue apiKey s2 where
      "ensureRedisConnected (s\<lparr>ticks := Suc (ticks s)\<rparr>) = (Inr (), s1)"
      "header = Some apiKeyValue" "apiKeyValue \<noteq> []"
      "findApiKeyByValue apiKeyValue s1 = (Inr (Some apiKey), s2)" "k_disabled apiKey"
      "io_bind Date_now (\<lambda>ts. io_bind Date_now (\<lambda>t1.
         io_bind (addEvent \<lparr>e_timestamp = ts, e_apiKey = apiKeyValue, e_endpoint = endpoint,
                            e_status = 403, e_reason = ''API key disabled'',
                            e_latencyMs = int t1 - int (clock s (ticks s))\<rparr>) (\<lambda>_.
         io_return (Rejected ''API key is disabled'' 3600)))) s2 = (Inr v, s')"
  | (over) s1 apiKeyValue apiKey s2 res s3 where
      "ensureRedisConnected (s\<lparr>ticks := Suc (ticks s)\<rparr>) = (Inr (), s1)"
      "header = Some apiKeyValue" "apiKeyValue \<noteq> []"
      "findApiKeyByValue apiKeyValue s1 = (Inr (Some apiKey), s2)" "\<not> k_disabled apiKey"
      "checkRateLimit apiKeyValue (k_perMinute apiKey) (k_perDay apiKey) s2 = (Inr res, s3)"
      "isOverLimit res"
      "io_bind Date_now (\<lambda>ts.
         io_bind (addEvent \<lparr>e_timestamp = ts, e_apiKey = apiKeyValue, e_endpoint = endpoint,
                            e_status = 429, e_reason = ''Rate limit exceeded'',
                            e_latencyMs = int (clock s3 (ticks s3)) - int (clock s (ticks s))\<rparr>) (\<lambda>_.
         io_bind Date_now (\<lambda>now.
         io_bind (io_get localTZA) (\<lambda>tza.
           let retryAfter = ceil_div_1000 (nextMinute tza (int now) - int now)
           in io_return (Rejected ''Rate limit exceeded'' retryAfter)))))
         (s3\<lparr>ticks := Suc (ticks s3)\<rparr>) = (Inr v, s')"
  | (allowed) s1 apiKeyValue apiKey s2 res s3 where
      "ensureRedisConnected (s\<lparr>ticks := Suc (ticks s)\<rparr>) = (Inr (), s1)"
      "header = Some apiKeyValue" "apiKeyValue \<noteq> []"
      "findApiKeyByValue apiKeyValue s1 = (Inr (Some apiKey), s2)" "\<not> k_disabled apiKey"
      "checkRateLimit apiKeyValue (k_perMinute apiKey) (k_perDay apiKey) s2 = (Inr res, s3)"
      "\<not> isOverLimit res"
      "io_bind Date_now (\<lambda>ts.
         io_bind (addEvent \<lparr>e_timestamp = ts, e_apiKey = apiKeyValue, e_endpoint = endpoint,
                            e_status = 200, e_reason = ''Allowed'',
                            e_latencyMs = int (clock s3 (ticks s3)) - int (clock s (ticks s))\<rparr>) (\<lambda>_.
         io_bind (updateLastSeen apiKeyValue) (\<lambda>_.
         io_return (Allowed (minuteCount res) (dayCount res) (k_perMinute apiKey) (k_perDay apiKey)))))
         (s3\<lparr>ticks := Suc (ticks s3)\<rparr>) = (Inr v, s')"
proof -
  let ?s0 = "s\<lparr>ticks := Suc (ticks s)\<rparr>"
  let ?t0 = "clock s (ticks s)"
  from run obtain u s1 where conn0: "ensureRedisConnected ?s0 = (Inr u, s1)"
    and body: "(let missing =
         io_bind Date_now (\<lambda>ts.
         io_bind Date_now (\<lambda>t1.
         io_bind (addEvent \<lparr>e_timestamp = ts, e_apiKey = ''anonymous'', e_endpoint = endpoint,
                            e_status = 401, e_reason = ''Missing API key'',
                            e_latencyMs = int t1 - int ?t0\<rparr>) (\<lambda>_.
         io_return (Rejected ''Missing x-api-key header'' 60))))
       in case header of
            None \<Rightarrow> missing
          | Some apiKeyValue \<Rightarrow>
              if apiKeyValue = [] then missing
              else
                io_bind (findApiKeyByValue apiKeyValue) (\<lambda>found.
                  case found of
                    None \<Rightarrow>
                      io_bind Date_now (\<lambda>ts.
                      io_bind Date_now (\<lambda>t1.
                      io_bind (addEvent \<lparr>e_timestamp = ts, e_apiKey = apiKeyValue, e_endpoint = endpoint,
                                         e_status = 401, e_reason = ''Invalid API key'',
                                         e_latencyMs = int t1 - int ?t0\<rparr>) (\<lambda>_.
                      io_return (Rejected ''Invalid API key'' 60))))
                  | Some apiKey \<Rightarrow>
                      if k_disabled apiKey then
                        io_bind Date_now (\<lambda>ts.
                        io_bind Date_now (\<lambda>t1.
                        io_bind (addEvent \<lparr>e_timestamp = ts, e_apiKey = apiKeyValue, e_endpoint = endpoint,
                                           e_status = 403, e_reason = ''API key disabled'',
                                           e_latencyMs = int t1 - int ?t0\<rparr>) (\<lambda>_.
                        io_return (Rejected ''API key is disabled'' 3600))))
                      else
                        io_bind (checkRateLimit apiKeyValue (k_perMinute apiKey) (k_perDay apiKey)) (\<lambda>rateLimitResult.
                        io_bind Date_now (\<lambda>t1.
                          let latencyMs = int t1 - int ?t0
                          in if isOverLimit rateLimitResult then
                               io_bind Date_now (\<lambda>ts.
                               io_bind (addEvent \<lparr>e_timestamp = ts, e_apiKey = apiKeyValue, e_endpoint = endpoint,
                                                  e_status = 429, e_reason = ''Rate limit exceeded'',
                                                  e_latencyMs = latencyMs\<rparr>) (\<lambda>_.
                               io_bind Date_now (\<lambda>now.
                               io_bind (io_get localTZA) (\<lambda>tza.
                                 let retryAfter = ceil_div_1000 (nextMinute tza (int now) - int now)
                                 in io_return (Rejected ''Rate limit exceeded'' retryAfter)))))
                             else
                               io_bind Date_now (\<lambda>ts.
                               io_bind (addEvent \<lparr>e_timestamp = ts, e_apiKey = apiKeyValue, e_endpoint = endpoint,
                                                  e_status = 200, e_reason = ''Allowed'',
                                                  e_latencyMs = latencyMs\<rparr>) (\<lambda>_.
                               io_bind (updateLastSeen apiKeyValue) (\<lambda>_.
                               io_return (Allowed (minuteCount rateLimitResult) (dayCount rateLimitResult)
                                            (k_perMinute apiKey) (k_perDay apiKey))))))))) s1
       = (Inr v, s')"
    unfolding rateLimitMiddleware_def io_bind_Date_now by (rule io_bind_InrE)
  from conn0 have conn: "ensureRedisConnected ?s0 = (Inr (), s1)" by simp
  show ?thesis
  proof (cases header)
    case None
    with body show ?thesis by (intro missing[OF conn]) (simp_all add: Let_def)
  next
    case (Some apiKeyValue)
    note hd = Some
    show ?thesis
    proof (cases "apiKeyValue = []")
      case True
      with Some body show ?thesis by (intro missing[OF conn]) (simp_all add: Let_def)
    next
      case False
      with Some body obtain found s2 where look: "findApiKeyByValue apiKeyValue s1 = (Inr found, s2)"
        and rest: "(case found of
                    None \<Rightarrow>
                      io_bind Date_now (\<lambda>ts.
                      io_bind Date_now (\<lambda>t1.
                      io_bind (addEvent \<lparr>e_timestamp = ts, e_apiKey = apiKeyValue, e_endpoint = endpoint,
                                         e_status = 401, e_reason = ''Invalid API key'',
                                         e_latencyMs = int t1 - int ?t0\<rparr>) (\<lambda>_.
                      io_return (Rejected ''Invalid API key'' 60))))
                  | Some apiKey \<Rightarrow>
                      if k_disabled apiKey then
                        io_bind Date_now (\<lambda>ts.
                        io_bind Date_now (\<lambda>t1.
                        io_bind (addEvent \<lparr>e_timestamp = ts, e_apiKey = apiKeyValue, e_endpoint = endpoint,
                                           e_status = 403, e_reason = ''API key disabled'',
                                           e_latencyMs = int t1 - int ?t0\<rparr>) (\<lambda>_.
                        io_return (Rejected ''API key is disabled'' 3600))))
                      else
                        io_bind (checkRateLimit apiKeyValue (k_perMinute apiKey) (k_perDay apiKey)) (\<lambda>rateLimitResult.
                        io_bind Date_now (\<lambda>t1.
                          let latencyMs = int t1 - int ?t0
                          in if isOverLimit rateLimitResult then
                               io_bind Date_now (\<lambda>ts.
                               io_bind (addEvent \<lparr>e_timestamp = ts, e_apiKey = apiKeyValue, e_endpoint = endpoint,
                                                  e_status = 429, e_reason = ''Rate limit exceeded'',
                                                  e_latencyMs = latencyMs\<rparr>) (\<lambda>_.
                               io_bind Date_now (\<lambda>now.
                               io_bind (io_get localTZA) (\<lambda>tza.
                                 let retryAfter = ceil_div_1000 (nextMinute tza (int now) - int now)
                                 in io_return (Rejected ''Rate limit exceeded'' retryAfter)))))
                             else
                               io_bind Date_now (\<lambda>ts.
                               io_bind (addEvent \<lparr>e_timestamp = ts, e_apiKey = apiKeyValue, e_endpoint = endpoint,
                                                  e_status = 200, e_reason = ''Allowed'',
                                                  e_latencyMs = latencyMs\<rparr>) (\<lambda>_.
                               io_bind (updateLastSeen apiKeyValue) (\<lambda>_.
                               io_return (Allowed (minuteCount rateLimitResult) (dayCount rateLimitResult)
                                            (k_perMinute apiKey) (k_perDay apiKey)))))))) s2
          = (Inr v, s')"
        by (simp only: Let_def option.case if_False) (erule io_bind_InrE)
      show ?thesis
      proof (cases found)
        case None
        with rest look show ?thesis
          by (intro invalid[OF conn hd False, of s2]) simp_all
      next
        case (Some apiKey)
        note fk = Some
        show ?thesis
        proof (cases "k_disabled apiKey")
          case True
          with rest fk look show ?thesis
            by (intro disabled[OF conn hd False, of apiKey s2]) simp_all
        next
          case nd: False
          with rest fk obtain res s3 where cr: "checkRateLimit apiKeyValue (k_perMinute apiKey) (k_perDay apiKey) s2 = (Inr res, s3)"
            and rest2: "io_bind Date_now (\<lambda>t1.
                          let latencyMs = int t1 - int ?t0
                          in if isOverLimit res then
                               io_bind Date_now (\<lambda>ts.
                               io_bind (addEvent \<lparr>e_timestamp = ts, e_apiKey = apiKeyValue, e_endpoint = endpoint,
                                                  e_status = 429, e_reason = ''Rate limit exceeded'',
                                                  e_latencyMs = latencyMs\<rparr>) (\<lambda>_.
                               io_bind Date_now (\<lambda>now.
                               io_bind (io_get localTZA) (\<lambda>tza.
                                 let retryAfter = ceil_div_1000 (nextMinute tza (int now) - int now)
                                 in io_return (Rejected ''Rate limit exceeded'' retryAfter)))))
                             else
                               io_bind Date_now (\<lambda>ts.
                               io_bind (addEvent \<lparr>e_timestamp = ts, e_apiKey = apiKeyValue, e_endpoint = endpoint,
                                                  e_status = 200, e_reason = ''Allowed'',
                                                  e_latencyMs = latencyMs\<rparr>) (\<lambda>_.
                               io_bind (updateLastSeen apiKeyValue) (\<lambda>_.
                               io_return (Allowed (minuteCount res) (dayCount res)
                                            (k_perMinute apiKey) (k_perDay apiKey)))))) s3
              = (Inr v, s')"
            by (simp only: option.case if_False) (erule io_bind_InrE)
          from look fk have look': "findApiKeyByValue apiKeyValue s1 = (Inr (Some apiKey), s2)" by simp
          show ?thesis
          proof (cases "isOverLimit res")
            case True
            with rest2 show ?thesis
              by (intro over[OF conn hd False look' nd cr]) (simp_all add: io_bind_Date_now[of _ s3] Let_def)
          next
            case False
            with rest2 show ?thesis
              by (intro allowed[OF conn hd \<open>apiKeyValue \<noteq> []\<close> look' nd cr])
                 (simp_all add: io_bind_Date_now[of _ s3] Let_def)
          qed
        qed
      qed
    qed
  qed
qed

section \<open>Claim C3\<close>

text \<open>
  Claim C3, as stated, fails: \<open>addEvent\<close> is awaited by the flow and nothing catches its
  rejection.  In \<open>world1\<close> the commands of a check are numbered from 3: the connection
  check, the \<^verbatim>\<open>GET\<close> of the metadata, the script, then the two \<^verbatim>\<open>XADD\<close> of
  \<open>addEvent\<close>.  When command 6 (the first \<^verbatim>\<open>XADD\<close>) is rejected, the flow throws
  where it otherwise returns the admission; the request has been counted and no event has
  been appended.
\<close>

theorem event_append_failure_blocks_verdict:
  "fst (rateLimitMiddleware (Some ''sk_demo'') ''/api/data'' world1)
     = Inr (Allowed 1 1 (Finite 1200) (Finite 1728000))
   \<and> fst (rateLimitMiddleware (Some ''sk_demo'') ''/api/data'' (world1\<lparr>fault := (\<lambda>n. n = 6)\<rparr>))
       = Inl RedisError
   \<and> streams (snd (rateLimitMiddleware (Some ''sk_demo'') ''/api/data'' (world1\<lparr>fault := (\<lambda>n. n = 6)\<rparr>)))
        ''events:sk_demo'' = None
   \<and> counters (snd (rateLimitMiddleware (Some ''sk_demo'') ''/api/data'' (world1\<lparr>fault := (\<lambda>n. n = 6)\<rparr>)))
        (minuteKeyAt 1762128000007 ''sk_demo'') = Some (1, Some 1762128090009)"
  by (simp add: middleware_world1_eq) (simp add: world1_eq eval_defs)

text \<open>
  Claim C3, amended.  A verdict is returned only after \<open>addEvent\<close> has returned normally:
  when the flow returns a verdict, its run has made one call of \<open>addEvent\<close> that returned
  normally, neither of the two \<^verbatim>\<open>XADD\<close> of that call was rejected, and the call has
  appended one event (with the secret presented, or \<^verbatim>\<open>anonymous\<close>, the endpoint, and the
  status and reason of the decision) to the stream of the credential and then to the
  global stream; nothing else has been written to a stream.  A call of \<open>addEvent\<close> of
  which one \<^verbatim>\<open>XADD\<close> is rejected throws.
\<close>

theorem verdict_only_after_event_appended:
  assumes run: "rateLimitMiddleware header endpoint s = (Inr v, s')"
  shows "(\<exists>ev a b.
        addEvent ev a = (Inr (), b)
      \<and> fault a = fault s \<and> \<not> fault s (cmds a) \<and> \<not> fault s (Suc (cmds a))
      \<and> streams b =
          streams (xadd getGlobalEventsStreamKey 10000 ev (xadd (getEventsStreamKey (e_apiKey ev)) 1000 ev s))
      \<and> streams s' = streams b
      \<and> e_apiKey ev = (case header of None \<Rightarrow> ''anonymous'' | Some k \<Rightarrow> if k = [] then ''anonymous'' else k)
      \<and> e_endpoint ev = endpoint
      \<and> (e_status ev = 401 \<and> e_reason ev = ''Missing API key'' \<and> v = Rejected ''Missing x-api-key header'' 60
         \<or> e_status ev = 401 \<and> e_reason ev = ''Invalid API key'' \<and> v = Rejected ''Invalid API key'' 60
         \<or> e_status ev = 403 \<and> e_reason ev = ''API key disabled'' \<and> v = Rejected ''API key is disabled'' 3600
         \<or> e_status ev = 429 \<and> e_reason ev = ''Rate limit exceeded''
             \<and> (\<exists>ra. v = Rejected ''Rate limit exceeded'' ra)
         \<or> e_status ev = 200 \<and> e_reason ev = ''Allowed'' \<and> (\<exists>m d ml dl. v = Allowed m d ml dl)))
     \<and> (\<forall>ev0 a0. fault a0 (cmds a0) \<or> fault a0 (Suc (cmds a0)) \<longrightarrow>
            (\<exists>b0. addEvent ev0 a0 = (Inl RedisError, b0)))"
proof (rule conjI)
  show "\<forall>ev0 a0. fault a0 (cmds a0) \<or> fault a0 (Suc (cmds a0)) \<longrightarrow>
            (\<exists>b0. addEvent ev0 a0 = (Inl RedisError, b0))"
    using addEvent_rejected by blast
next
  let ?who = "case header of None \<Rightarrow> ''anonymous'' | Some k \<Rightarrow> if k = [] then ''anonymous'' else k"
  let ?goal = "\<exists>ev a b.
        addEvent ev a = (Inr (), b)
      \<and> fault a = fault s \<and> \<not> fault s (cmds a) \<and> \<not> fault s (Suc (cmds a))
      \<and> streams b =
          streams (xadd getGlobalEventsStreamKey 10000 ev (xadd (getEventsStreamKey (e_apiKey ev)) 1000 ev s))
      \<and> streams s' = streams b
      \<and> e_apiKey ev = ?who
      \<and> e_endpoint ev = endpoint
      \<and> (e_status ev = 401 \<and> e_reason ev = ''Missing API key'' \<and> v = Rejected ''Missing x-api-key header'' 60
         \<or> e_status ev = 401 \<and> e_reason ev = ''Invalid API key'' \<and> v = Rejected ''Invalid API key'' 60
         \<or> e_status ev = 403 \<and> e_reason ev = ''API key disabled'' \<and> v = Rejected ''API key is disabled'' 3600
         \<or> e_status ev = 429 \<and> e_reason ev = ''Rate limit exceeded''
             \<and> (\<exists>ra. v = Rejected ''Rate limit exceeded'' ra)
         \<or> e_status ev = 200 \<and> e_reason ev = ''Allowed'' \<and> (\<exists>m d ml dl. v = Allowed m d ml dl))"
  have finish: ?goal
    if ae: "addEvent ev a = (Inr (), b)"
      and fr: "streams a = streams s" "trim a = trim s" "fault a = fault s"
      and fin: "streams s' = streams b"
      and who: "e_apiKey ev = ?who" "e_endpoint ev = endpoint"
      and verdict: "e_status ev = 401 \<and> e_reason ev = ''Missing API key'' \<and> v = Rejected ''Missing x-api-key header'' 60
         \<or> e_status ev = 401 \<and> e_reason ev = ''Invalid API key'' \<and> v = Rejected ''Invalid API key'' 60
         \<or> e_status ev = 403 \<and> e_reason ev = ''API key disabled'' \<and> v = Rejected ''API key is disabled'' 3600
         \<or> e_status ev = 429 \<and> e_reason ev = ''Rate limit exceeded''
             \<and> (\<exists>ra. v = Rejected ''Rate limit exceeded'' ra)
         \<or> e_status ev = 200 \<and> e_reason ev = ''Allowed'' \<and> (\<exists>m d ml dl. v = Allowed m d ml dl)"
    for ev a b
  proof -
    from addEvent_Inr_frame(1,2)[OF ae] fr(3)
    have nf: "\<not> fault s (cmds a)" "\<not> fault s (Suc (cmds a))" by simp_all
    note ap = addEvent_appends[OF ae fr(1,2)]
    show ?thesis
      apply (rule exI[of _ ev], rule exI[of _ a], rule exI[of _ b])
      using ae fr(3) nf ap fin who verdict by (intro conjI) assumption+
  qed
  from run show ?goal
  proof (cases rule: rateLimitMiddleware_Inr_cases)
    case (missing s1)
    from env_kept(1)[OF missing(1)] have k1: "streams s1 = streams s" "trim s1 = trim s" "fault s1 = fault s"
      by simp_all
    from reject_tail[OF missing(3)] obtain ev where v: "v = Rejected ''Missing x-api-key header'' 60"
      and ae: "addEvent ev (s1\<lparr>ticks := Suc (Suc (ticks s1))\<rparr>) = (Inr (), s')"
      and ev: "e_apiKey ev = ''anonymous''" "e_endpoint ev = endpoint" "e_status ev = 401"
        "e_reason ev = ''Missing API key''"
      by blast
    from missing(2) ev(1) have who: "e_apiKey ev = ?who" by auto
    show ?thesis
      by (rule finish[OF ae _ _ _ _ who ev(2)]) (use k1 v ev in simp_all)
  next
    case (invalid s1 apiKeyValue s2)
    from env_kept(1)[OF invalid(1)] env_kept(2)[OF invalid(4)]
    have k2: "streams s2 = streams s" "trim s2 = trim s" "fault s2 = fault s" by simp_all
    from reject_tail[OF invalid(5)] obtain ev where v: "v = Rejected ''Invalid API key'' 60"
      and ae: "addEvent ev (s2\<lparr>ticks := Suc (Suc (ticks s2))\<rparr>) = (Inr (), s')"
      and ev: "e_apiKey ev = apiKeyValue" "e_endpoint ev = endpoint" "e_status ev = 401"
        "e_reason ev = ''Invalid API key''"
      by blast
    from invalid(2,3) ev(1) have who: "e_apiKey ev = ?who" by auto
    show ?thesis
      by (rule finish[OF ae _ _ _ _ who ev(2)]) (use k2 v ev in simp_all)
  next
    case (disabled s1 apiKeyValue apiKey s2)
    from env_kept(1)[OF disabled(1)] env_kept(2)[OF disabled(4)]
    have k2: "streams s2 = streams s" "trim s2 = trim s" "fault s2 = fault s" by simp_all
    from reject_tail[OF disabled(6)] obtain ev where v: "v = Rejected ''API key is disabled'' 3600"
      and ae: "addEvent ev (s2\<lparr>ticks := Suc (Suc (ticks s2))\<rparr>) = (Inr (), s')"
      and ev: "e_apiKey ev = apiKeyValue" "e_endpoint ev = endpoint" "e_status ev = 403"
        "e_reason ev = ''API key disabled''"
      by blast
    from disabled(2,3) ev(1) have who: "e_apiKey ev = ?who" by auto
    show ?thesis
      by (rule finish[OF ae _ _ _ _ who ev(2)]) (use k2 v ev in simp_all)
  next
    case (over s1 apiKeyValue apiKey s2 res s3)
    from env_kept(1)[OF over(1)] env_kept(2)[OF over(4)] env_kept(3)[OF over(6)]
    have k3: "streams s3 = streams s" "trim s3 = trim s" "fault s3 = fault s" by simp_all
    from over_limit_tail[OF over(8)] obtain ev b where
      ae: "addEvent ev (s3\<lparr>ticks := Suc (ticks s3), ticks := Suc (Suc (ticks s3))\<rparr>) = (Inr (), b)"
      and ev: "e_apiKey ev = apiKeyValue" "e_endpoint ev = endpoint" "e_status ev = 429"
        "e_reason ev = ''Rate limit exceeded''"
      and s': "s' = b\<lparr>ticks := Suc (ticks b)\<rparr>"
      and v: "\<exists>ra. v = Rejected ''Rate limit exceeded'' ra"
      by auto
    from over(2,3) ev(1) have who: "e_apiKey ev = ?who" by auto
    show ?thesis
      by (rule finish[OF ae _ _ _ _ who ev(2)]) (use k3 v ev s' in simp_all)
  next
    case (allowed s1 apiKeyValue apiKey s2 res s3)
    from env_kept(1)[OF allowed(1)] env_kept(2)[OF allowed(4)] env_kept(3)[OF allowed(6)]
    have k3: "streams s3 = streams s" "trim s3 = trim s" "fault s3 = fault s" by simp_all
    from allowed_tail[OF allowed(8)] obtain ev b where
      v: "v = Allowed (minuteCount res) (dayCount res) (k_perMinute apiKey) (k_perDay apiKey)"
      and ae: "addEvent ev (s3\<lparr>ticks := Suc (ticks s3), ticks := Suc (Suc (ticks s3))\<rparr>) = (Inr (), b)"
      and ev: "e_apiKey ev = apiKeyValue" "e_endpoint ev = endpoint" "e_status ev = 200"
        "e_reason ev = ''Allowed''"
      and ls: "updateLastSeen apiKeyValue b = (Inr (), s')"
      by auto
    from env_kept(4)[OF ls] have fin: "streams s' = streams b" by simp
    from allowed(2,3) ev(1) have who: "e_apiKey ev = ?who" by auto
    show ?thesis
      by (rule finish[OF ae _ _ _ fin who ev(2)]) (use k3 v ev in simp_all)
  qed
qed

theorem verdict_only_after_event_appended_witness:
  "rateLimitMiddleware (Some ''sk_demo'') ''/api/data'' world1
     = (Inr (Allowed 1 1 (Finite 1200) (Finite 1728000)), world2)
   \<and> (\<exists>ev a b.
        addEvent ev a = (Inr (), b) \<and> \<not> fault world1 (cmds a) \<and> \<not> fault world1 (Suc (cmds a))
      \<and> streams world2 =
          streams (xadd getGlobalEventsStreamKey 10000 ev (xadd (getEventsStreamKey ''sk_demo'') 1000 ev world1))
      \<and> e_apiKey ev = ''sk_demo'' \<and> e_endpoint ev = ''/api/data'' \<and> e_status ev = 200
      \<and> e_reason ev = ''Allowed'')"
proof -
  have run: "rateLimitMiddleware (Some ''sk_demo'') ''/api/data'' world1
      = (Inr (Allowed 1 1 (Finite 1200) (Finite 1728000)), world2)"
    by (simp add: middleware_world1_eq world2_eq)
  from verdict_only_after_event_appended[OF run, THEN conjunct1] obtain ev a b where
    a: "addEvent ev a = (Inr (), b)" "\<not> fault world1 (cmds a)" "\<not> fault world1 (Suc (cmds a))"
      "streams b =
          streams (xadd getGlobalEventsStreamKey 10000 ev (xadd (getEventsStreamKey (e_apiKey ev)) 1000 ev world1))"
      "streams world2 = streams b" "e_apiKey ev = ''sk_demo''" "e_endpoint ev = ''/api/data''"
    and d: "e_status ev = 401 \<and> e_reason ev = ''Missing API key''
            \<and> Allowed 1 1 (Finite 1200) (Finite 1728000) = Rejected ''Missing x-api-key header'' 60
         \<or> e_status ev = 401 \<and> e_reason ev = ''Invalid API key''
            \<and> Allowed 1 1 (Finite 1200) (Finite 1728000) = Rejected ''Invalid API key'' 60
         \<or> e_status ev = 403 \<and> e_reason ev = ''API key disabled''
            \<and> Allowed 1 1 (Finite 1200) (Finite 1728000) = Rejected ''API key is disabled'' 3600
         \<or> e_status ev = 429 \<and> e_reason ev = ''Rate limit exceeded''
             \<and> (\<exists>ra. Allowed 1 1 (Finite 1200) (Finite 1728000) = Rejected ''Rate limit exceeded'' ra)
         \<or> e_status ev = 200 \<and> e_reason ev = ''Allowed''
             \<and> (\<exists>m d ml dl. Allowed 1 1 (Finite 1200) (Finite 1728000) = Allowed m d ml dl)"
    by auto
  from d have st: "e_status ev = 200" "e_reason ev = ''Allowed''" by auto
  from a(4,5,6) have "streams world2 =
          streams (xadd getGlobalEventsStreamKey 10000 ev (xadd (getEventsStreamKey ''sk_demo'') 1000 ev world1))"
    by simp
  with run a(1,2,3,6,7) st show ?thesis by blast
qed


end
